(* ===== verification/Prelude.thy ===== *)
theory Prelude
  imports Main "HOL-Library.Word" "HOL-Library.State_Monad"
begin

section \<open>Shared vocabulary of the development\<close>

text \<open>
  What every component of the two services shares: Go's 64-bit signed integers, its
  \<open>error\<close> values, the outcome of a call that may panic, and the lemmas about them
  that the component theories use.

  A Go function that talks to the outside world is a value of type
  \<open>('w, 'a) state\<close>: it takes the state of the world and returns its result and the
  new state. A result \<open>(T, error)\<close> is \<open>goerr + T\<close> (the code returns the zero
  value of \<open>T\<close> beside every error), a result \<open>error\<close> is \<open>goerr option\<close>
  (\<open>None\<close> is \<open>nil\<close>). A Go string or \<open>[]byte\<close> is a \<open>string\<close>, a list of
  8-bit characters.
\<close>

named_theorems run_defs \<open>definitions of stateful operations, unfolded to their runs\<close>
named_theorems int64_arith \<open>sums and differences of int64 values that do not wrap\<close>

subsection \<open>Integers and time\<close>

type_synonym int64 = "64 word"

text \<open>A point in time is the number of nanoseconds since the Unix epoch.\<close>

type_synonym gotime = int

definition int64_less :: "int64 \<Rightarrow> int64 \<Rightarrow> bool" where
  "int64_less a b \<longleftrightarrow> sint a < sint b"

definition int64_in :: "int \<Rightarrow> bool" where
  "int64_in i \<longleftrightarrow> - (2 ^ 63) \<le> i \<and> i < 2 ^ 63"

lemma int64_less_iff [simp]: "int64_less a b \<longleftrightarrow> sint a < sint b"
  by (simp add: int64_less_def)

lemma sint_int64_bounds:
  fixes a :: int64
  shows "- 9223372036854775808 \<le> sint a" and "sint a \<le> 9223372036854775807"
  using sint_ge [of a] sint_lt [of a] by simp_all

lemma signed_take_bit_int64:
  "- 9223372036854775808 \<le> i \<Longrightarrow> i \<le> 9223372036854775807 \<Longrightarrow> signed_take_bit 63 i = (i::int)"
  by (rule signed_take_bit_int_eq_self) simp_all

lemma sint_int64_plus [int64_arith]:
  fixes a b :: int64
  assumes "- 9223372036854775808 \<le> sint a + sint b" "sint a + sint b \<le> 9223372036854775807"
  shows "sint (a + b) = sint a + sint b"
proof -
  have "sint (a + b) = signed_take_bit 63 (sint a + sint b)"
    by (simp add: sint_word_ariths)
  then show ?thesis
    using assms by (simp only: signed_take_bit_int64)
qed

lemma sint_int64_minus [int64_arith]:
  fixes a b :: int64
  assumes "- 9223372036854775808 \<le> sint a - sint b" "sint a - sint b \<le> 9223372036854775807"
  shows "sint (a - b) = sint a - sint b"
proof -
  have "sint (a - b) = signed_take_bit 63 (sint a - sint b)"
    by (simp add: sint_word_ariths)
  then show ?thesis
    using assms by (simp only: signed_take_bit_int64)
qed

lemma sint_of_int64 [int64_arith]:
  "int64_in i \<Longrightarrow> sint (word_of_int i :: int64) = i"
  by (simp add: int64_in_def sint_sbintrunc' signed_take_bit_int64)

lemma int64_in_sint [simp]: "int64_in (sint (a :: int64))"
  using sint_int64_bounds [of a] by (simp add: int64_in_def)

lemma sint_int64_inject: "sint (a :: int64) = sint b \<Longrightarrow> a = b"
  by (rule signed_word_eqI)

subsection \<open>Texts\<close>

text \<open>\<open>strings.Join\<close>.\<close>

definition join_with :: "string \<Rightarrow> string list \<Rightarrow> string" where
  "join_with sep xs = (case xs of [] \<Rightarrow> [] | y # ys \<Rightarrow> y @ concat (map (\<lambda>x. sep @ x) ys))"

subsection \<open>Errors\<close>

text \<open>
  A Go \<open>error\<close>: a sentinel made by \<open>errors.New\<close>, an error made by
  \<open>fmt.Errorf\<close> without a wrapped cause, one that wraps its cause with \<open>%w\<close>
  (always at the end of the format in this code base), or a \<open>*pgconn.PgError\<close> with
  its SQLSTATE code.
\<close>

datatype goerr =
    ErrNew string
  | ErrMsg string
  | ErrWrap string goerr
  | ErrPg string

primrec errors_Is :: "goerr \<Rightarrow> goerr \<Rightarrow> bool" where
  "errors_Is (ErrNew s) target \<longleftrightarrow> target = ErrNew s"
| "errors_Is (ErrMsg s) target \<longleftrightarrow> target = ErrMsg s"
| "errors_Is (ErrWrap s e) target \<longleftrightarrow> target = ErrWrap s e \<or> errors_Is e target"
| "errors_Is (ErrPg c) target \<longleftrightarrow> target = ErrPg c"

primrec error_text :: "goerr \<Rightarrow> string" where
  "error_text (ErrNew s) = s"
| "error_text (ErrMsg s) = s"
| "error_text (ErrWrap s e) = s @ error_text e"
| "error_text (ErrPg c) = ''SQLSTATE '' @ c"

text \<open>\<open>errors.As(err, &pqerr)\<close>: the code of the database error in the chain, if any.\<close>

primrec errors_As_Pg :: "goerr \<Rightarrow> string option" where
  "errors_As_Pg (ErrNew s) = None"
| "errors_As_Pg (ErrMsg s) = None"
| "errors_As_Pg (ErrWrap s e) = errors_As_Pg e"
| "errors_As_Pg (ErrPg c) = Some c"

lemma errors_Is_refl [simp]: "errors_Is e e"
  by (cases e) simp_all

subsection \<open>Calls that may panic\<close>

datatype 'a call = Returns 'a | Panics string

subsection \<open>Runs\<close>

text \<open>
  \<open>exec m w\<close> is the world after running \<open>m\<close> from \<open>w\<close>, \<open>result m w\<close> what it
  returns.
\<close>

abbreviation exec :: "('w, 'a) state \<Rightarrow> 'w \<Rightarrow> 'w" where
  "exec m w \<equiv> snd (run_state m w)"

abbreviation result :: "('w, 'a) state \<Rightarrow> 'w \<Rightarrow> 'a" where
  "result m w \<equiv> fst (run_state m w)"

lemma run_state_State [simp]: "run_state (State f) w = f w"
  by simp

text \<open>
  A predicate \<open>keeps I m\<close>: the operation \<open>m\<close> takes every world that satisfies
  \<open>I\<close> to one that satisfies \<open>I\<close>. Invariants of the services are proved by
  composing it over the monad.
\<close>

definition keeps :: "('w \<Rightarrow> bool) \<Rightarrow> ('w, 'a) state \<Rightarrow> bool" where
  "keeps I m \<longleftrightarrow> (\<forall>w. I w \<longrightarrow> I (exec m w))"

lemma keepsI [intro?]: "(\<And>w. I w \<Longrightarrow> I (exec m w)) \<Longrightarrow> keeps I m"
  by (simp add: keeps_def)

lemma keepsD: "keeps I m \<Longrightarrow> I w \<Longrightarrow> I (exec m w)"
  by (simp add: keeps_def)

lemma keeps_return [intro!]: "keeps I (State_Monad.return x)"
  by (rule keepsI) simp

lemma keeps_bind [intro!]:
  assumes "keeps I m" and "\<And>x. keeps I (f x)"
  shows "keeps I (State_Monad.bind m f)"
proof (rule keepsI)
  fix w
  assume "I w"
  with assms(1) have "I (exec m w)"
    by (rule keepsD)
  with assms(2) have "I (exec (f (result m w)) (exec m w))"
    by (rule keepsD)
  then show "I (exec (State_Monad.bind m f) w)"
    by (simp add: split_beta)
qed

lemma keeps_if [intro!]: "keeps I m \<Longrightarrow> keeps I n \<Longrightarrow> keeps I (if b then m else n)"
  by simp

lemma keeps_case_sum [intro!]:
  "(\<And>e. keeps I (f e)) \<Longrightarrow> (\<And>x. keeps I (g x)) \<Longrightarrow>
    keeps I (case r of Inl e \<Rightarrow> f e | Inr x \<Rightarrow> g x)"
  by (cases r) simp_all

lemma keeps_case_option [intro!]:
  "keeps I m \<Longrightarrow> (\<And>x. keeps I (g x)) \<Longrightarrow>
    keeps I (case r of None \<Rightarrow> m | Some x \<Rightarrow> g x)"
  by (cases r) simp_all

lemma keeps_case_call [intro!]:
  "(\<And>x. keeps I (f x)) \<Longrightarrow> (\<And>s. keeps I (g s)) \<Longrightarrow>
    keeps I (case r of Returns x \<Rightarrow> f x | Panics s \<Rightarrow> g s)"
  by (cases r) simp_all

lemma keeps_case_prod [intro!]:
  "(\<And>x y. keeps I (f x y)) \<Longrightarrow> keeps I (case p of (x, y) \<Rightarrow> f x y)"
  by (cases p) simp

end
