(* ===== verification/Strconv.thy ===== *)
theory Strconv
  imports Prelude
begin

section \<open>Go's strconv and encoding/hex, as far as the services use them\<close>

text \<open>
  The decimal texts of integers that go to Redis and PostgreSQL and come back:
  \<open>strconv.AppendInt\<close> / \<open>FormatInt\<close> in base 10, \<open>ParseUint\<close>, \<open>ParseInt\<close> and
  \<open>Atoi\<close> with their syntax and range errors, and \<open>hex.Encode\<close> / \<open>hex.Decode\<close>.
  The functions are standard library code; the model follows their loops. The lemmas are
  the round trips that the cache, the array types and the bytea codec rest on.
\<close>

subsection \<open>Digits\<close>

definition digit_char :: "nat \<Rightarrow> char" where
  "digit_char d = char_of (48 + d)"

definition digit_value :: "char \<Rightarrow> nat option" where
  "digit_value c =
     (let n = (of_char c :: nat) in
      if 48 \<le> n \<and> n \<le> 57 then Some (n - 48)
      else if 97 \<le> n \<and> n \<le> 122 then Some (n - 97 + 10)
      else if 65 \<le> n \<and> n \<le> 90 then Some (n - 65 + 10)
      else None)"

lemma of_char_digit [simp]: "d < 10 \<Longrightarrow> (of_char (digit_char d) :: nat) = 48 + d"
  by (simp add: digit_char_def)

lemma digit_value_digit_char [simp]: "d < 10 \<Longrightarrow> digit_value (digit_char d) = Some d"
  by (simp add: digit_value_def)

text \<open>The characters of decimal numbers: \<open>0\<close> to \<open>9\<close> and the minus sign.\<close>

definition is_digit :: "char \<Rightarrow> bool" where
  "is_digit c \<longleftrightarrow> 48 \<le> (of_char c :: nat) \<and> (of_char c :: nat) \<le> 57"

definition is_num_char :: "char \<Rightarrow> bool" where
  "is_num_char c \<longleftrightarrow> is_digit c \<or> c = CHR ''-''"

lemma is_digit_digit_char [simp]: "d < 10 \<Longrightarrow> is_digit (digit_char d)"
  by (simp add: is_digit_def)

subsection \<open>AppendInt\<close>

fun dec :: "nat \<Rightarrow> string" where
  "dec n = (if n < 10 then [digit_char n] else dec (n div 10) @ [digit_char (n mod 10)])"

declare dec.simps [simp del]

definition FormatInt :: "int \<Rightarrow> string" where
  "FormatInt i = (if i < 0 then CHR ''-'' # dec (nat (- i)) else dec (nat i))"

subsection \<open>ParseUint, ParseInt, Atoi\<close>

datatype num_error = ErrSyntax | ErrRange

fun parse_uint_loop :: "nat \<Rightarrow> nat \<Rightarrow> nat \<Rightarrow> string \<Rightarrow> num_error + nat" where
  "parse_uint_loop base maxVal n [] = Inr n"
| "parse_uint_loop base maxVal n (c # s) =
     (case digit_value c of
        None \<Rightarrow> Inl ErrSyntax
      | Some d \<Rightarrow>
          if base \<le> d then Inl ErrSyntax
          else if maxVal < n * base + d then Inl ErrRange
          else parse_uint_loop base maxVal (n * base + d) s)"

definition ParseUint :: "string \<Rightarrow> nat \<Rightarrow> nat \<Rightarrow> num_error + nat" where
  "ParseUint s base bitSize =
     (if s = [] then Inl ErrSyntax else parse_uint_loop base (2 ^ bitSize - 1) 0 s)"

definition ParseInt :: "string \<Rightarrow> nat \<Rightarrow> nat \<Rightarrow> num_error + int" where
  "ParseInt s base bitSize =
     (if s = [] then Inl ErrSyntax
      else
        let neg = (hd s = CHR ''-'');
            t = (if hd s = CHR ''+'' \<or> hd s = CHR ''-'' then tl s else s);
            cutoff = 2 ^ (bitSize - 1)
        in case ParseUint t base bitSize of
             Inl ErrRange \<Rightarrow> Inl ErrRange
           | Inl ErrSyntax \<Rightarrow> Inl ErrSyntax
           | Inr un \<Rightarrow>
               if \<not> neg \<and> cutoff \<le> un then Inl ErrRange
               else if neg \<and> cutoff < un then Inl ErrRange
               else Inr (if neg then - int un else int un))"

text \<open>\<open>Atoi\<close> on a 64-bit platform is \<open>ParseInt(s, 10, 0)\<close>, with \<open>int\<close> of 64 bits.\<close>

definition Atoi :: "string \<Rightarrow> num_error + int" where
  "Atoi s = ParseInt s 10 64"

subsection \<open>What AppendInt writes\<close>

lemma dec_nonempty [simp]: "dec n \<noteq> []"
  by (subst dec.simps) simp

lemma dec_digits: "c \<in> set (dec n) \<Longrightarrow> is_digit c"
proof (induction n rule: dec.induct)
  case (1 n)
  show ?case
  proof (cases "n < 10")
    case True
    with 1 show ?thesis by (subst (asm) dec.simps) simp
  next
    case False
    with 1 show ?thesis by (subst (asm) dec.simps) auto
  qed
qed

lemma FormatInt_nonempty [simp]: "FormatInt i \<noteq> []"
  by (simp add: FormatInt_def)

lemma FormatInt_chars: "c \<in> set (FormatInt i) \<Longrightarrow> is_num_char c"
  by (auto simp: FormatInt_def is_num_char_def dest: dec_digits split: if_splits)

lemma hd_dec_is_digit: "is_digit (hd (dec n))"
  by (rule dec_digits [of _ n]) simp

subsection \<open>Round trip of decimal integers\<close>

lemma parse_uint_loop_append:
  "parse_uint_loop b M a (s @ t) =
     (case parse_uint_loop b M a s of Inl e \<Rightarrow> Inl e | Inr n \<Rightarrow> parse_uint_loop b M n t)"
  by (induction b M a s rule: parse_uint_loop.induct) (auto split: option.splits)

lemma parse_uint_loop_dec:
  "a * 10 ^ length (dec n) + n \<le> M \<Longrightarrow>
    parse_uint_loop 10 M a (dec n) = Inr (a * 10 ^ length (dec n) + n)"
proof (induction n rule: dec.induct)
  case (1 n)
  show ?case
  proof (cases "n < 10")
    case True
    with "1.prems" show ?thesis
      by (simp add: dec.simps [of n])
  next
    case False
    let ?l = "a * 10 ^ length (dec (n div 10)) + n div 10"
    have dec_n: "dec n = dec (n div 10) @ [digit_char (n mod 10)]"
      using False by (simp add: dec.simps [of n])
    have val: "a * 10 ^ length (dec n) + n = ?l * 10 + n mod 10"
      by (simp add: dec_n algebra_simps)
    have "?l \<le> ?l * 10 + n mod 10" by simp
    also have "\<dots> \<le> M"
      using "1.prems" by (simp only: val)
    finally have "?l \<le> M" .
    with False "1.IH" have "parse_uint_loop 10 M a (dec (n div 10)) = Inr ?l"
      by blast
    then have "parse_uint_loop 10 M a (dec n) =
        (if M < ?l * 10 + n mod 10 then Inl ErrRange else Inr (?l * 10 + n mod 10))"
      by (simp only: dec_n parse_uint_loop_append sum.case) simp
    then show ?thesis
      using "1.prems" by (simp only: val) simp
  qed
qed

lemma ParseUint_dec:
  "n < 2 ^ bits \<Longrightarrow> ParseUint (dec n) 10 bits = Inr n"
  using parse_uint_loop_dec [of 0 n "2 ^ bits - 1"] by (simp add: ParseUint_def)

lemma hd_dec_not_sign: "hd (dec n) \<noteq> CHR ''-''" "hd (dec n) \<noteq> CHR ''+''"
  using hd_dec_is_digit [of n] by (auto simp: is_digit_def)

theorem ParseInt_FormatInt:
  assumes "0 < bits" and "- (2 ^ (bits - 1)) \<le> i" and "i < 2 ^ (bits - 1)"
  shows "ParseInt (FormatInt i) 10 bits = Inr i"
proof -
  have two: "(2::nat) ^ bits = 2 * 2 ^ (bits - 1)"
    using assms(1) by (cases bits) simp_all
  have lt: "nat i < 2 ^ (bits - 1)" if "0 \<le> i"
    using assms(3) that by (simp add: nat_less_iff)
  have le: "nat (- i) \<le> 2 ^ (bits - 1)"
    using assms(2) by (simp add: nat_le_iff)
  show ?thesis
  proof (cases "i < 0")
    case True
    have "(0::nat) < 2 ^ (bits - 1)" by simp
    with le two have "nat (- i) < 2 ^ bits" by linarith
    then show ?thesis
      using True le by (simp add: FormatInt_def ParseInt_def ParseUint_dec Let_def)
  next
    case False
    then have "nat i < 2 ^ (bits - 1)"
      by (intro lt) simp
    then have "nat i < 2 ^ bits"
      unfolding two by linarith
    then show ?thesis
      using False lt by (simp add: FormatInt_def ParseInt_def ParseUint_dec Let_def hd_dec_not_sign)
  qed
qed

lemma ParseInt_FormatInt_int64 [simp]:
  "ParseInt (FormatInt (sint (x :: int64))) 10 64 = Inr (sint x)"
  using sint_int64_bounds [of x] by (intro ParseInt_FormatInt) simp_all

lemma ParseInt_FormatInt_int32 [simp]:
  "ParseInt (FormatInt (sint (x :: 32 word))) 10 32 = Inr (sint x)"
  using sint_ge [of x] sint_lt [of x] by (intro ParseInt_FormatInt) simp_all

lemma Atoi_FormatInt [simp]: "Atoi (FormatInt (sint (x :: int64))) = Inr (sint x)"
  by (simp add: Atoi_def)

text \<open>Whatever \<open>ParseInt\<close> accepts fits the bit size it was asked for.\<close>

lemma ParseInt_range:
  assumes "ParseInt s 10 bits = Inr i"
  shows "- (2 ^ (bits - 1)) \<le> i \<and> i < 2 ^ (bits - 1)"
proof -
  obtain un where un: "\<not> (hd s \<noteq> CHR ''-'' \<and> 2 ^ (bits - 1) \<le> un)"
      "\<not> (hd s = CHR ''-'' \<and> 2 ^ (bits - 1) < un)"
      "i = (if hd s = CHR ''-'' then - int un else int un)"
    using assms
    by (auto simp: ParseInt_def Let_def split: if_splits sum.splits num_error.splits)
  have up: "int un < 2 ^ (bits - 1)" if "un < 2 ^ (bits - 1)"
    using that by (metis of_nat_less_iff of_nat_numeral of_nat_power)
  have le: "int un \<le> 2 ^ (bits - 1)" if "un \<le> 2 ^ (bits - 1)"
    using that by (metis of_nat_le_iff of_nat_numeral of_nat_power)
  have pos: "(0::int) < 2 ^ (bits - 1)" by simp
  show ?thesis
  proof (cases "hd s = CHR ''-''")
    case True
    with un have "i = - int un" and "un \<le> 2 ^ (bits - 1)" by simp_all
    with le pos show ?thesis by linarith
  next
    case False
    with un have "i = int un" and "un < 2 ^ (bits - 1)" by simp_all
    with up pos show ?thesis by linarith
  qed
qed

end
