(* ===== verification/World.thy ===== *)
theory World
  imports Strconv
begin

section \<open>The outside world of a service process\<close>

text \<open>
  What the two services reach outside their own code: the clock, the UUID generator,
  JetStream's publish call, a Redis server and a PostgreSQL server. None of it is code of
  the repository, so it is a parameter: the record \<open>env\<close> holds one function per
  service. The clock, the UUIDs, the publish results and the database faults are oracles
  over the number of outside calls made so far (\<open>w_tick\<close>), which makes every sequence
  of answers a possible environment. Redis is a record of command functions over an
  abstract server state \<open>'c\<close>. The world remembers every message handed to
  \<open>PublishMsg\<close>, whatever the answer was, and every settlement of a consumed message.
\<close>

type_synonym header = "string \<Rightarrow> string list option"

record pub_call =
  pc_Subject :: string
  pc_Data :: string
  pc_Header :: header
  pc_MsgId :: string

text \<open>
  The Redis commands of go-redis that the code issues, with \<open>Result()\<close> / \<open>Err()\<close>
  read off. Values of \<open>HSet\<close> are int64 values, which go-redis sends as decimal text.
\<close>

record 'c redis_api =
  HSet :: "string \<Rightarrow> (string \<times> int64) list \<Rightarrow> 'c \<Rightarrow> goerr option \<times> 'c"
  HGetAll :: "string \<Rightarrow> 'c \<Rightarrow> (goerr + (string \<times> string) list) \<times> 'c"
  Del :: "string \<Rightarrow> 'c \<Rightarrow> goerr option \<times> 'c"
  Exists :: "string \<Rightarrow> 'c \<Rightarrow> (nat \<times> goerr option) \<times> 'c"
  SetTTL :: "string \<Rightarrow> string \<Rightarrow> int \<Rightarrow> 'c \<Rightarrow> goerr option \<times> 'c"
  SetNX :: "string \<Rightarrow> string \<Rightarrow> int \<Rightarrow> 'c \<Rightarrow> (bool \<times> goerr option) \<times> 'c"
  GetBytes :: "string \<Rightarrow> 'c \<Rightarrow> (goerr + string) \<times> 'c"

text \<open>
  A database call may fail before the statement took effect, or after it (the answer was
  lost).
\<close>

datatype db_fault = NoFault | FaultBefore goerr | FaultAfter goerr

record ('c, 'm) env =
  e_now :: "nat \<Rightarrow> gotime"
  e_uuid :: "nat \<Rightarrow> string"
  e_publish :: "nat \<Rightarrow> goerr option"
  e_db :: "nat \<Rightarrow> db_fault"
  e_redis :: "'c redis_api"
  e_marshal :: "'m \<Rightarrow> goerr + string"
  e_inject :: "nat \<Rightarrow> header \<Rightarrow> header"
  e_pgtime :: "gotime \<Rightarrow> gotime"

text \<open>What a consumer tells JetStream about the message it was given.\<close>

datatype settlement = Ack | Nak | Term

record 'c world =
  w_redis :: 'c
  w_pub :: "pub_call list"
  w_settled :: "settlement list"
  w_tick :: nat

subsection \<open>Primitive operations\<close>

definition tick :: "('c, 'x) world_scheme \<Rightarrow> nat \<times> ('c, 'x) world_scheme" where
  "tick w = (w_tick w, w\<lparr>w_tick := Suc (w_tick w)\<rparr>)"

definition time_Now :: "('c, 'm) env \<Rightarrow> (('c, 'x) world_scheme, gotime) state" where
  [run_defs]: "time_Now env = State (\<lambda>w. case tick w of (n, w') \<Rightarrow> (e_now env n, w'))"

definition uuid_NewString :: "('c, 'm) env \<Rightarrow> (('c, 'x) world_scheme, string) state" where
  [run_defs]: "uuid_NewString env = State (\<lambda>w. case tick w of (n, w') \<Rightarrow> (e_uuid env n, w'))"

text \<open>The propagator writes the trace context into a header.\<close>

definition inject_header :: "('c, 'm) env \<Rightarrow> header \<Rightarrow> (('c, 'x) world_scheme, header) state" where
  [run_defs]: "inject_header env hdr =
     State (\<lambda>w. case tick w of (n, w') \<Rightarrow> (e_inject env n hdr, w'))"

definition js_PublishMsg ::
  "('c, 'm) env \<Rightarrow> pub_call \<Rightarrow> (('c, 'x) world_scheme, goerr option) state" where
  [run_defs]: "js_PublishMsg env m =
     State (\<lambda>w. case tick w of (n, w') \<Rightarrow> (e_publish env n, w'\<lparr>w_pub := w_pub w' @ [m]\<rparr>))"

definition settle :: "settlement \<Rightarrow> (('c, 'x) world_scheme, unit) state" where
  [run_defs]: "settle s = State (\<lambda>w. ((), w\<lparr>w_settled := w_settled w @ [s]\<rparr>))"

definition on_redis ::
  "('c \<Rightarrow> 'a \<times> 'c) \<Rightarrow> (('c, 'x) world_scheme, 'a) state" where
  [run_defs]: "on_redis cmd =
     State (\<lambda>w. case cmd (w_redis w) of (r, c) \<Rightarrow> (r, w\<lparr>w_redis := c\<rparr>))"

subsection \<open>The documented behaviour of Redis\<close>

text \<open>
  \<open>redis_laws api view\<close>: what the code relies on, from the Redis command reference.
  \<open>view c k\<close> is the value stored at key \<open>k\<close>: a string or a hash. A command that
  answers without an error has had its documented effect; a command that answers with an
  error may or may not have had it, but never touches another key. Expiry is not a
  command: a law speaks about the server state that a command leaves behind.
\<close>

datatype redis_val = RString string | RHash "string \<Rightarrow> string option"

definition hash_fields :: "redis_val option \<Rightarrow> string \<Rightarrow> string option" where
  "hash_fields v = (case v of Some (RHash h) \<Rightarrow> h | _ \<Rightarrow> Map.empty)"

definition redis_Nil :: goerr where
  "redis_Nil = ErrNew ''redis: nil''"

definition int_text :: "int64 \<Rightarrow> string" where
  "int_text i = FormatInt (sint i)"

locale redis_laws =
  fixes api :: "'c redis_api"
    and view :: "'c \<Rightarrow> string \<Rightarrow> redis_val option"
  assumes hset_frame: "k' \<noteq> k \<Longrightarrow> view (snd (HSet api k fs c)) k' = view c k'"
    and hset_ok: "fst (HSet api k fs c) = None \<Longrightarrow> view (snd (HSet api k fs c)) k =
      Some (RHash (hash_fields (view c k) ++ map_of (map (map_prod id int_text) fs)))"
    and hgetall_pure: "view (snd (HGetAll api k c)) = view c"
    and hgetall_ok: "fst (HGetAll api k c) = Inr vs \<Longrightarrow> map_of vs = hash_fields (view c k)"
    and del_frame: "k' \<noteq> k \<Longrightarrow> view (snd (Del api k c)) k' = view c k'"
    and del_ok: "fst (Del api k c) = None \<Longrightarrow> view (snd (Del api k c)) k = None"
    and exists_pure: "view (snd (Exists api k c)) = view c"
    and exists_ok: "fst (Exists api k c) = (n, None) \<Longrightarrow> 0 < n \<longleftrightarrow> view c k \<noteq> None"
    and exists_err: "fst (Exists api k c) = (n, Some e) \<Longrightarrow> n = 0"
    and set_frame: "k' \<noteq> k \<Longrightarrow> view (snd (SetTTL api k s ttl c)) k' = view c k'"
    and set_ok: "fst (SetTTL api k s ttl c) = None \<Longrightarrow>
      view (snd (SetTTL api k s ttl c)) k = Some (RString s)"
    and setnx_frame: "k' \<noteq> k \<Longrightarrow> view (snd (SetNX api k s ttl c)) k' = view c k'"
    and setnx_ok: "fst (SetNX api k s ttl c) = (b, None) \<Longrightarrow>
      (b \<longleftrightarrow> view c k = None) \<and>
      view (snd (SetNX api k s ttl c)) k = (if b then Some (RString s) else view c k)"
    and setnx_err: "fst (SetNX api k s ttl c) = (b, Some e) \<Longrightarrow> \<not> b"
    and get_pure: "view (snd (GetBytes api k c)) = view c"
    and get_ok: "fst (GetBytes api k c) = Inr s \<Longrightarrow> view c k = Some (RString s)"
begin

lemma hgetall_missing: "view c k = None \<Longrightarrow> fst (HGetAll api k c) = Inr vs \<Longrightarrow> vs = []"
  using hgetall_ok [of k c vs] by (cases vs) (auto simp: hash_fields_def fun_eq_iff split: if_splits)

lemma get_missing: "view c k = None \<Longrightarrow> fst (GetBytes api k c) \<noteq> Inr s"
  using get_ok [of k c s] by auto

lemma exists_marked: "0 < fst (fst (Exists api k c)) \<Longrightarrow> view c k \<noteq> None"
  using exists_ok [of k c] exists_err [of k c]
  by (cases "fst (Exists api k c)"; cases "snd (fst (Exists api k c))") auto

lemmas redis_frames = hset_frame del_frame set_frame setnx_frame
lemmas redis_pure = hgetall_pure exists_pure get_pure

end

text \<open>
  A server that also answers: a command only fails when its key holds the wrong type.
\<close>

locale redis_up = redis_laws +
  assumes hset_up: "\<not> (\<exists>s. view c k = Some (RString s)) \<Longrightarrow> fst (HSet api k fs c) = None"
    and hgetall_up: "\<not> (\<exists>s. view c k = Some (RString s)) \<Longrightarrow> \<exists>vs. fst (HGetAll api k c) = Inr vs"
    and del_up: "fst (Del api k c) = None"
    and exists_up: "snd (fst (Exists api k c)) = None"
    and set_up: "fst (SetTTL api k s ttl c) = None"
    and setnx_up: "snd (fst (SetNX api k s ttl c)) = None"
    and get_up: "view c k = Some (RString s) \<Longrightarrow> fst (GetBytes api k c) = Inr s"

subsection \<open>A Redis server that never fails\<close>

text \<open>
  The laws can hold together: a server that keeps its keys in a map, never fails and
  never expires a key satisfies them. The concrete runs of the development use it.
\<close>

datatype mem_val = MString string | MHash "(string \<times> string) list"

type_synonym mem_redis = "string \<Rightarrow> mem_val option"

definition mem_view :: "mem_redis \<Rightarrow> string \<Rightarrow> redis_val option" where
  "mem_view c k = map_option
     (\<lambda>v. case v of MString s \<Rightarrow> RString s | MHash h \<Rightarrow> RHash (map_of h)) (c k)"

definition wrongtype :: goerr where
  "wrongtype = ErrMsg ''WRONGTYPE Operation against a key holding the wrong kind of value''"

definition mem_api :: "mem_redis redis_api" where
  "mem_api = \<lparr>
     HSet = (\<lambda>k fs c. case c k of
         Some (MString s) \<Rightarrow> (Some wrongtype, c)
       | Some (MHash h) \<Rightarrow> (None, c(k \<mapsto> MHash (map (map_prod id int_text) fs @ h)))
       | None \<Rightarrow> (None, c(k \<mapsto> MHash (map (map_prod id int_text) fs)))),
     HGetAll = (\<lambda>k c. case c k of
         Some (MString s) \<Rightarrow> (Inl wrongtype, c)
       | Some (MHash h) \<Rightarrow> (Inr h, c)
       | None \<Rightarrow> (Inr [], c)),
     Del = (\<lambda>k c. (None, c(k := None))),
     Exists = (\<lambda>k c. ((if c k = None then 0 else 1, None), c)),
     SetTTL = (\<lambda>k s ttl c. (None, c(k \<mapsto> MString s))),
     SetNX = (\<lambda>k s ttl c.
         if c k = None then ((True, None), c(k \<mapsto> MString s)) else ((False, None), c)),
     GetBytes = (\<lambda>k c. case c k of
         Some (MString s) \<Rightarrow> (Inr s, c)
       | Some (MHash h) \<Rightarrow> (Inl wrongtype, c)
       | None \<Rightarrow> (Inl redis_Nil, c))\<rparr>"

interpretation mem: redis_laws mem_api mem_view
  by unfold_locales
    (auto simp: mem_api_def mem_view_def hash_fields_def map_add_def fun_eq_iff
      split: option.splits mem_val.splits if_splits)

lemma mem_view_string: "mem_view c k = Some (RString s) \<longleftrightarrow> c k = Some (MString s)"
proof (cases "c k")
  case (Some v)
  then show ?thesis
    by (cases v) (simp_all add: mem_view_def)
qed (simp add: mem_view_def)

interpretation mem: redis_up mem_api mem_view
  by unfold_locales (auto simp: mem_view_string mem_api_def split: option.splits mem_val.splits)

subsection \<open>An environment without faults\<close>

text \<open>Every call succeeds, the clock counts the calls. The concrete runs use it.\<close>

definition calm_env :: "(mem_redis, 'm) env" where
  "calm_env = \<lparr>e_now = (\<lambda>n. int n), e_uuid = (\<lambda>n. FormatInt (int n)), e_publish = (\<lambda>_. None),
     e_db = (\<lambda>_. NoFault), e_redis = mem_api, e_marshal = (\<lambda>_. Inr []),
     e_inject = (\<lambda>_ h. h), e_pgtime = (\<lambda>t. t)\<rparr>"

text \<open>The same environment for operations that marshal nothing.\<close>

abbreviation quiet_env :: "(mem_redis, unit) env" where
  "quiet_env \<equiv> calm_env"

lemma calm_env_simps [simp]:
  "e_now calm_env n = int n" "e_publish calm_env n = None" "e_db calm_env n = NoFault"
  "e_redis calm_env = mem_api" "e_marshal calm_env msg = Inr []" "e_inject calm_env n h = h"
  "e_pgtime calm_env t = t" "e_uuid calm_env n = FormatInt (int n)"
  by (simp_all add: calm_env_def)

definition calm_world :: "mem_redis world" where
  "calm_world = \<lparr>w_redis = Map.empty, w_pub = [], w_settled = [], w_tick = 0\<rparr>"

end
