(* ===== verification/Inv_Domain.thy ===== *)
theory Inv_Domain
  imports World
begin

section \<open>The inventory domain: model, Storer interface, Business\<close>

text \<open>
  \<open>services/inventory/internal/domain\<close>: the \<open>Inventory\<close> value, the \<open>Storer\<close>
  interface and the \<open>Business\<close> operations over it. The interface's contract is stated
  as two locales: \<open>inv_writer\<close> (what writes do to the stored rows, and that reads do not
  change them) and its extension \<open>inv_storer\<close> (a read returns the stored row). The
  lemmas of \<open>Business\<close> are proved once against the contract; the PostgreSQL store
  satisfies both, the caching store only the first.
\<close>

subsection \<open>Model\<close>

record Inventory =
  inv_LocationID :: string
  inv_SKU :: string
  inv_OnHand :: int64
  inv_Reserved :: int64
  inv_Incoming :: int64
  inv_UpdatedAt :: gotime

record UpdatedInventory =
  upd_LocationID :: "string option"
  upd_SKU :: "string option"
  upd_OnHand :: "int64 option"
  upd_Reserved :: "int64 option"
  upd_Incoming :: "int64 option"

text \<open>The zero value of the struct; a zero \<open>time.Time\<close> is the year 1.\<close>

definition zero_time :: gotime where
  "zero_time = - 62135596800 * 1000000000"

definition Inventory_zero :: Inventory where
  "Inventory_zero = \<lparr>inv_LocationID = [], inv_SKU = [], inv_OnHand = 0, inv_Reserved = 0,
     inv_Incoming = 0, inv_UpdatedAt = zero_time\<rparr>"

definition no_update :: UpdatedInventory where
  "no_update = \<lparr>upd_LocationID = None, upd_SKU = None, upd_OnHand = None, upd_Reserved = None,
     upd_Incoming = None\<rparr>"

subsection \<open>Errors\<close>

definition ErrNotFound :: goerr where
  "ErrNotFound = ErrNew ''inventory not found''"

definition ErrAlreadyExists :: goerr where
  "ErrAlreadyExists = ErrNew ''inventory already exists''"

definition ErrConcurrentUpdate :: goerr where
  "ErrConcurrentUpdate = ErrNew ''concurrent inventory update''"

definition ErrInsufficientStock :: goerr where
  "ErrInsufficientStock = ErrNew ''insufficient stock to satisfy reservation''"

definition ErrNegativeQuantity :: goerr where
  "ErrNegativeQuantity = ErrNew ''inventory levels cannot be negative''"

subsection \<open>Storer\<close>

record 'w Storer =
  st_GetInventory :: "string \<Rightarrow> string \<Rightarrow> ('w, goerr + Inventory) state"
  st_CreateInventory :: "Inventory \<Rightarrow> ('w, goerr option) state"
  st_UpdateInventory :: "Inventory \<Rightarrow> ('w, goerr option) state"
  st_DeleteInventory :: "Inventory \<Rightarrow> ('w, goerr option) state"

subsection \<open>Business\<close>

text \<open>
  \<open>bus_NewWithTx\<close> is given what \<open>NewWithTx\<close> of its storer answers for the transaction.
\<close>

record ('l, 'w) Business =
  biz_log :: 'l
  biz_storer :: "'w Storer"

definition NewBusiness :: "'l \<Rightarrow> 'w Storer \<Rightarrow> ('l, 'w) Business" where
  "NewBusiness logger storer = \<lparr>biz_log = logger, biz_storer = storer\<rparr>"

definition bus_NewWithTx :: "('l, 'w) Business \<Rightarrow> goerr + 'v Storer \<Rightarrow> goerr + ('l, 'v) Business" where
  "bus_NewWithTx b tx_storer =
     (case tx_storer of
        Inl err \<Rightarrow> Inl err
      | Inr storer \<Rightarrow> Inr (NewBusiness (biz_log b) storer))"

definition bus_CreateInventory :: "'w Storer \<Rightarrow> Inventory \<Rightarrow> ('w, goerr + Inventory) state" where
  [run_defs]: "bus_CreateInventory storer iv =
     (if int64_less (inv_OnHand iv) 0 \<or> int64_less (inv_Reserved iv) 0 \<or> int64_less (inv_Incoming iv) 0
      then State_Monad.return (Inl ErrInsufficientStock)
      else
        do {
          r \<leftarrow> st_CreateInventory storer iv;
          case r of
            Some err \<Rightarrow> State_Monad.return (Inl (ErrWrap ''create inventory: '' err))
          | None \<Rightarrow> State_Monad.return (Inr iv)
        })"

text \<open>The nil checks of \<open>UpdateInventory\<close>: only set fields replace the row's values.\<close>

definition apply_update :: "Inventory \<Rightarrow> UpdatedInventory \<Rightarrow> Inventory" where
  "apply_update iv uinv =
     (let i1 = (case upd_OnHand uinv of None \<Rightarrow> iv | Some q \<Rightarrow> iv\<lparr>inv_OnHand := q\<rparr>);
          i2 = (case upd_Reserved uinv of None \<Rightarrow> i1 | Some q \<Rightarrow> i1\<lparr>inv_Reserved := q\<rparr>);
          i3 = (case upd_Incoming uinv of None \<Rightarrow> i2 | Some q \<Rightarrow> i2\<lparr>inv_Incoming := q\<rparr>)
      in i3)"

definition bus_UpdateInventory ::
  "('w, gotime) state \<Rightarrow> 'w Storer \<Rightarrow> Inventory \<Rightarrow> UpdatedInventory \<Rightarrow> ('w, goerr + Inventory) state" where
  [run_defs]: "bus_UpdateInventory now storer iv uinv =
     do {
       t \<leftarrow> now;
       let iv' = (apply_update iv uinv)\<lparr>inv_UpdatedAt := t\<rparr>;
       r \<leftarrow> st_UpdateInventory storer iv';
       case r of
         Some err \<Rightarrow> State_Monad.return (Inl (ErrWrap ''update inventory: '' err))
       | None \<Rightarrow> State_Monad.return (Inr iv')
     }"

definition bus_DeleteInventory :: "'w Storer \<Rightarrow> Inventory \<Rightarrow> ('w, goerr option) state" where
  [run_defs]: "bus_DeleteInventory storer iv =
     do {
       r \<leftarrow> st_DeleteInventory storer iv;
       case r of
         Some err \<Rightarrow> State_Monad.return (Some (ErrWrap ''delete inventory: '' err))
       | None \<Rightarrow> State_Monad.return None
     }"

definition bus_GetInventory :: "'w Storer \<Rightarrow> string \<Rightarrow> string \<Rightarrow> ('w, goerr + Inventory) state" where
  [run_defs]: "bus_GetInventory storer locationID sku =
     do {
       r \<leftarrow> st_GetInventory storer locationID sku;
       case r of
         Inl err \<Rightarrow> State_Monad.return (Inl (ErrWrap
           (''query inventory: locationID['' @ locationID @ ''], SKU['' @ sku @ '']: '') err))
       | Inr iv \<Rightarrow> State_Monad.return (Inr iv)
     }"

lemma apply_update_fields [simp]:
  "inv_LocationID (apply_update iv u) = inv_LocationID iv"
  "inv_SKU (apply_update iv u) = inv_SKU iv"
  "inv_OnHand (apply_update iv u) = case_option (inv_OnHand iv) id (upd_OnHand u)"
  "inv_Reserved (apply_update iv u) = case_option (inv_Reserved iv) id (upd_Reserved u)"
  "inv_Incoming (apply_update iv u) = case_option (inv_Incoming iv) id (upd_Incoming u)"
  by (simp_all add: apply_update_def Let_def split: option.splits)

subsection \<open>The contract of a Storer\<close>

type_synonym inv_key = "string \<times> string"

definition inv_key :: "Inventory \<Rightarrow> inv_key" where
  "inv_key iv = (inv_LocationID iv, inv_SKU iv)"

lemma inv_key_update [simp]: "inv_key ((apply_update iv u)\<lparr>inv_UpdatedAt := t\<rparr>) = inv_key iv"
  by (simp add: inv_key_def)

text \<open>
  \<open>view w\<close> are the rows stored in the world \<open>w\<close>, \<open>stored iv\<close> is what a write of
  \<open>iv\<close> leaves behind (a database may round the time stamp), \<open>ok\<close> what the store
  demands of a row. A write that reports an error may have happened or not, but it never
  touches another row and never stores a row that is not \<open>ok\<close>.
\<close>

locale inv_writer =
  fixes S :: "'w Storer"
    and view :: "'w \<Rightarrow> inv_key \<Rightarrow> Inventory option"
    and stored :: "Inventory \<Rightarrow> Inventory"
    and ok :: "Inventory \<Rightarrow> bool"
  assumes get_view: "view (exec (st_GetInventory S l k) w) = view w"
    and create_cases: "view (exec (st_CreateInventory S iv) w) = view w \<or>
      view w (inv_key iv) = None \<and> ok iv \<and>
      view (exec (st_CreateInventory S iv) w) = (view w)(inv_key iv \<mapsto> stored iv)"
    and create_ok: "result (st_CreateInventory S iv) w = None \<Longrightarrow>
      view (exec (st_CreateInventory S iv) w) (inv_key iv) = Some (stored iv) \<and>
      view w (inv_key iv) = None"
    and update_cases: "view (exec (st_UpdateInventory S iv) w) = view w \<or>
      view w (inv_key iv) \<noteq> None \<and> ok iv \<and>
      view (exec (st_UpdateInventory S iv) w) = (view w)(inv_key iv \<mapsto> stored iv)"
    and update_ok: "result (st_UpdateInventory S iv) w = None \<Longrightarrow> view w (inv_key iv) \<noteq> None \<Longrightarrow>
      view (exec (st_UpdateInventory S iv) w) (inv_key iv) = Some (stored iv)"
    and delete_cases: "view (exec (st_DeleteInventory S iv) w) = view w \<or>
      view (exec (st_DeleteInventory S iv) w) = (view w)(inv_key iv := None)"
    and delete_ok: "result (st_DeleteInventory S iv) w = None \<Longrightarrow>
      view (exec (st_DeleteInventory S iv) w) (inv_key iv) = None"
    and stored_key: "inv_key (stored iv) = inv_key iv"
    and stored_ok: "ok (stored iv) = ok iv"
begin

definition all_ok :: "'w \<Rightarrow> bool" where
  "all_ok w \<longleftrightarrow> (\<forall>k iv. view w k = Some iv \<longrightarrow> ok iv \<and> inv_key iv = k)"

lemma all_ok_view: "view w' = view w \<Longrightarrow> all_ok w \<Longrightarrow> all_ok w'"
  by (simp add: all_ok_def)

lemma all_ok_write:
  "view w' = (view w)(inv_key iv \<mapsto> stored iv) \<Longrightarrow> ok iv \<Longrightarrow> all_ok w \<Longrightarrow> all_ok w'"
  by (auto simp: all_ok_def stored_key stored_ok)

lemma get_keeps: "keeps all_ok (st_GetInventory S l k)"
  by (rule keepsI) (rule all_ok_view [OF get_view])

lemma create_keeps: "keeps all_ok (st_CreateInventory S iv)"
  using create_cases [of iv] by (intro keepsI) (metis all_ok_view all_ok_write)

lemma update_keeps: "keeps all_ok (st_UpdateInventory S iv)"
  using update_cases [of iv] by (intro keepsI) (metis all_ok_view all_ok_write)

lemma delete_keeps: "keeps all_ok (st_DeleteInventory S iv)"
proof (rule keepsI)
  fix w
  assume "all_ok w"
  then show "all_ok (exec (st_DeleteInventory S iv) w)"
    using delete_cases [of iv w] by (auto simp: all_ok_def split: if_splits)
qed

lemmas storer_keeps = get_keeps create_keeps update_keeps delete_keeps

lemma bus_get_keeps: "keeps all_ok (bus_GetInventory S l k)"
  unfolding bus_GetInventory_def by (intro keeps_bind keeps_case_sum keeps_return get_keeps)

lemma bus_create_keeps: "keeps all_ok (bus_CreateInventory S iv)"
  unfolding bus_CreateInventory_def
  by (intro keeps_if keeps_bind keeps_case_option keeps_return create_keeps)

lemma bus_update_keeps: "keeps all_ok now \<Longrightarrow> keeps all_ok (bus_UpdateInventory now S iv u)"
  unfolding bus_UpdateInventory_def Let_def
  by (intro keeps_bind keeps_case_option keeps_return update_keeps)

lemma bus_delete_keeps: "keeps all_ok (bus_DeleteInventory S iv)"
  unfolding bus_DeleteInventory_def by (intro keeps_bind keeps_case_option keeps_return delete_keeps)

lemmas bus_keeps = bus_get_keeps bus_create_keeps bus_update_keeps bus_delete_keeps

text \<open>A successful update stores the merged row with the new time stamp, and nothing else.\<close>

lemma bus_update_stored:
  assumes "result (bus_UpdateInventory now S iv u) w = Inr iv'"
    and "\<And>w. view (exec now w) = view w"
    and "view w (inv_key iv) \<noteq> None"
  shows "view (exec (bus_UpdateInventory now S iv u) w) = (view w)(inv_key iv \<mapsto> stored iv')"
proof -
  let ?w1 = "exec now w" and ?t = "result now w"
  let ?i = "(apply_update iv u)\<lparr>inv_UpdatedAt := ?t\<rparr>"
  let ?r = "result (st_UpdateInventory S ?i) ?w1" and ?w2 = "exec (st_UpdateInventory S ?i) ?w1"
  have r: "?r = None" and i: "iv' = ?i"
    using assms(1) by (auto simp: bus_UpdateInventory_def Let_def split_beta split: option.splits)
  have k: "inv_key ?i = inv_key iv" by simp
  have "view ?w1 (inv_key ?i) \<noteq> None"
    using assms(2,3) k by simp
  then have "view ?w2 (inv_key ?i) = Some (stored ?i)"
    by (rule update_ok [OF r])
  then have "view ?w2 = (view ?w1)(inv_key ?i \<mapsto> stored ?i)"
    using update_cases [of ?i ?w1] by (auto simp: fun_upd_idem)
  moreover have "exec (bus_UpdateInventory now S iv u) w = ?w2"
    using r by (simp add: bus_UpdateInventory_def Let_def split_beta split: option.splits)
  ultimately show ?thesis
    using assms(2) i k by simp
qed

end

locale inv_storer = inv_writer +
  assumes get_ok: "result (st_GetInventory S l k) w = Inr iv \<Longrightarrow> view w (l, k) = Some iv"
begin

lemma bus_get_ok: "result (bus_GetInventory S l k) w = Inr iv \<Longrightarrow> view w (l, k) = Some iv"
  by (auto simp: bus_GetInventory_def split_beta intro: get_ok split: sum.splits)

lemma get_missing: "view w (l, k) = None \<Longrightarrow> \<exists>e. result (st_GetInventory S l k) w = Inl e"
  using get_ok [of l k w] by (cases "result (st_GetInventory S l k) w") auto

text \<open>Read-modify-write through \<open>Business\<close>: the row read is the row changed.\<close>

lemma bus_get_then_update:
  assumes "result (bus_GetInventory S l k) w = Inr iv" and "all_ok w"
    and "\<And>w. view (exec now w) = view w"
    and "result (bus_UpdateInventory now S iv u) (exec (bus_GetInventory S l k) w) = Inr iv'"
  shows "view (exec (bus_UpdateInventory now S iv u) (exec (bus_GetInventory S l k) w)) =
    (view w)((l, k) \<mapsto> stored iv')"
proof -
  have row: "view w (l, k) = Some iv"
    by (rule bus_get_ok [OF assms(1)])
  with assms(2) have key: "inv_key iv = (l, k)"
    by (auto simp: all_ok_def)
  have same: "view (exec (bus_GetInventory S l k) w) = view w"
    by (simp add: bus_GetInventory_def split_beta get_view split: sum.splits)
  then have "view (exec (bus_GetInventory S l k) w) (inv_key iv) \<noteq> None"
    using row key by simp
  from bus_update_stored [OF assms(4,3) this] show ?thesis
    using same key by simp
qed

end

end
