(* ===== verification/SqlDB.thy ===== *)
theory SqlDB
  imports World
begin

section \<open>Database helpers: pkg/sdks/sqldb\<close>

text \<open>
  The helper functions of \<open>sqldb.go\<close> and \<open>tran.go\<close> through which every store talks
  to PostgreSQL. sqlx and the pgx driver are not code of the repository: each helper takes
  the driver call it makes as an argument, and the helpers' own work (the classification
  of errors, the loops over rows, the pretty printer, the retry loop) is modelled in full.
  Logging and tracing spans do not influence a result and are left out.
\<close>

subsection \<open>Error variables\<close>

definition uniqueViolation :: string where
  "uniqueViolation = ''23505''"

definition undefinedTable :: string where
  "undefinedTable = ''42P01''"

definition ErrDBNotFound :: goerr where
  "ErrDBNotFound = ErrNew ''sql: no rows in result set''"

definition ErrDBDuplicatedEntry :: goerr where
  "ErrDBDuplicatedEntry = ErrNew ''duplicated entry''"

definition ErrUndefinedTable :: goerr where
  "ErrUndefinedTable = ErrNew ''undefined table''"

subsection \<open>Transactions\<close>

text \<open>
  A \<open>CommitRollbacker\<close>: a value that is also an \<open>sqlx.ExtContext\<close>, as the
  transactions of \<open>Begin\<close> are, or one of another type, by its name.
\<close>

datatype 'ec transactor = TxExtContext 'ec | TxOther string

definition GetExtContext :: "'ec transactor \<Rightarrow> goerr + 'ec" where
  "GetExtContext tx =
     (case tx of
        TxExtContext ec \<Rightarrow> Inr ec
      | TxOther type_name \<Rightarrow> Inl (ErrMsg (''Transactor('' @ type_name @ '') not of a type *sql.Tx'')))"

text \<open>\<open>DBBeginner.Begin\<close>: a transaction of sqlx is an \<open>ExtContext\<close>.\<close>

definition DBBeginner_Begin :: "('w, goerr + 'ec) state \<Rightarrow> ('w, goerr + 'ec transactor) state" where
  [run_defs]: "DBBeginner_Begin sqlx_Beginx =
     do {
       r \<leftarrow> sqlx_Beginx;
       State_Monad.return (case r of Inl err \<Rightarrow> Inl err | Inr tx \<Rightarrow> Inr (TxExtContext tx))
     }"

lemma begin_usable: "result (DBBeginner_Begin b) w = Inr tx \<Longrightarrow> \<exists>ec. GetExtContext tx = Inr ec"
  by (auto simp: run_defs GetExtContext_def split_beta split: sum.splits)

subsection \<open>Execution of a statement\<close>

definition NamedExecContext :: "('w, goerr option) state \<Rightarrow> ('w, goerr option) state" where
  [run_defs]: "NamedExecContext sqlx_NamedExec =
     do {
       r \<leftarrow> sqlx_NamedExec;
       case r of
         Some err \<Rightarrow>
           (case errors_As_Pg err of
              Some code \<Rightarrow>
                if code = undefinedTable then State_Monad.return (Some ErrUndefinedTable)
                else if code = uniqueViolation then State_Monad.return (Some ErrDBDuplicatedEntry)
                else State_Monad.return (Some err)
            | None \<Rightarrow> State_Monad.return (Some err))
       | None \<Rightarrow> State_Monad.return None
     }"

text \<open>\<open>ExecContext\<close> runs the statement without parameters (\<open>struct{}{}\<close>).\<close>

definition ExecContext :: "('data \<Rightarrow> ('w, goerr option) state) \<Rightarrow> 'data \<Rightarrow> ('w, goerr option) state" where
  [run_defs]: "ExecContext sqlx_NamedExec no_data = NamedExecContext (sqlx_NamedExec no_data)"

subsection \<open>Queries\<close>

text \<open>
  An open result set: the rows that \<open>Next\<close> will deliver and the error, if any, that
  ends the iteration early (\<open>rows.Err()\<close>, which the code never asks for).
\<close>

record 'raw rows =
  rows_list :: "'raw list"
  rows_Err :: "goerr option"

text \<open>The \<open>IN\<close> variant: \<open>sqlx.Named\<close>, \<open>sqlx.In\<close>, \<open>Rebind\<close>, \<open>QueryxContext\<close>.\<close>

definition query_using_in ::
  "(goerr + string \<times> 'arg list) \<Rightarrow> (string \<Rightarrow> 'arg list \<Rightarrow> goerr + string \<times> 'arg list) \<Rightarrow>
   (string \<Rightarrow> string) \<Rightarrow> (string \<Rightarrow> 'arg list \<Rightarrow> ('w, goerr + 'raw rows) state) \<Rightarrow>
   ('w, goerr + 'raw rows) state" where
  "query_using_in named sqlx_In Rebind QueryxContext =
     (case named of
        Inl err \<Rightarrow> State_Monad.return (Inl err)
      | Inr (q, args) \<Rightarrow>
          (case sqlx_In q args of
             Inl err \<Rightarrow> State_Monad.return (Inl err)
           | Inr (q', args') \<Rightarrow> QueryxContext (Rebind q') args'))"

definition classify_query_error :: "goerr \<Rightarrow> goerr" where
  "classify_query_error err =
     (if errors_As_Pg err = Some undefinedTable then ErrUndefinedTable else err)"

text \<open>The scanning loop: \<open>StructScan\<close> of every row, stopping at the first failure.\<close>

fun scan_rows :: "('raw \<Rightarrow> goerr + 'row) \<Rightarrow> 'raw list \<Rightarrow> 'row list \<Rightarrow> goerr + 'row list" where
  "scan_rows StructScan [] acc = Inr acc"
| "scan_rows StructScan (r # rs) acc =
     (case StructScan r of
        Inl err \<Rightarrow> Inl err
      | Inr v \<Rightarrow> scan_rows StructScan rs (acc @ [v]))"

definition namedQuerySlice ::
  "('w, goerr + 'raw rows) state \<Rightarrow> ('w, goerr + 'raw rows) state \<Rightarrow> bool \<Rightarrow>
   ('raw \<Rightarrow> goerr + 'row) \<Rightarrow> ('w, goerr + 'row list) state" where
  [run_defs]: "namedQuerySlice in_query named_query withIn StructScan =
     do {
       rows \<leftarrow> (if withIn then in_query else named_query);
       case rows of
         Inl err \<Rightarrow> State_Monad.return (Inl (classify_query_error err))
       | Inr rs \<Rightarrow> State_Monad.return (scan_rows StructScan (rows_list rs) [])
     }"

definition NamedQuerySlice ::
  "('w, goerr + 'raw rows) state \<Rightarrow> ('raw \<Rightarrow> goerr + 'row) \<Rightarrow> ('w, goerr + 'row list) state" where
  [run_defs]: "NamedQuerySlice named_query = namedQuerySlice named_query named_query False"

definition namedQueryStruct ::
  "('w, goerr + 'raw rows) state \<Rightarrow> ('w, goerr + 'raw rows) state \<Rightarrow> bool \<Rightarrow>
   ('raw \<Rightarrow> goerr + 'row) \<Rightarrow> ('w, goerr + 'row) state" where
  [run_defs]: "namedQueryStruct in_query named_query withIn StructScan =
     do {
       rows \<leftarrow> (if withIn then in_query else named_query);
       case rows of
         Inl err \<Rightarrow> State_Monad.return (Inl (classify_query_error err))
       | Inr rs \<Rightarrow>
           (case rows_list rs of
              [] \<Rightarrow> State_Monad.return (Inl ErrDBNotFound)
            | r # _ \<Rightarrow>
                (case StructScan r of
                   Inl err \<Rightarrow> State_Monad.return (Inl err)
                 | Inr dest \<Rightarrow> State_Monad.return (Inr dest)))
     }"

definition NamedQueryStruct ::
  "('w, goerr + 'raw rows) state \<Rightarrow> ('raw \<Rightarrow> goerr + 'row) \<Rightarrow> ('w, goerr + 'row) state" where
  [run_defs]: "NamedQueryStruct named_query = namedQueryStruct named_query named_query False"

text \<open>
  The other entry points. Those without parameters query with the empty struct, those for
  an \<open>IN\<close> clause rewrite the query first.
\<close>

definition QuerySlice ::
  "('data \<Rightarrow> ('w, goerr + 'raw rows) state) \<Rightarrow> 'data \<Rightarrow> ('raw \<Rightarrow> goerr + 'row) \<Rightarrow>
   ('w, goerr + 'row list) state" where
  [run_defs]: "QuerySlice named_query no_data = namedQuerySlice (named_query no_data) (named_query no_data) False"

definition NamedQuerySliceUsingIn ::
  "('w, goerr + 'raw rows) state \<Rightarrow> ('w, goerr + 'raw rows) state \<Rightarrow> ('raw \<Rightarrow> goerr + 'row) \<Rightarrow>
   ('w, goerr + 'row list) state" where
  [run_defs]: "NamedQuerySliceUsingIn in_query named_query = namedQuerySlice in_query named_query True"

definition QueryStruct ::
  "('data \<Rightarrow> ('w, goerr + 'raw rows) state) \<Rightarrow> 'data \<Rightarrow> ('raw \<Rightarrow> goerr + 'row) \<Rightarrow> ('w, goerr + 'row) state" where
  [run_defs]: "QueryStruct named_query no_data = namedQueryStruct (named_query no_data) (named_query no_data) False"

definition NamedQueryStructUsingIn ::
  "('w, goerr + 'raw rows) state \<Rightarrow> ('w, goerr + 'raw rows) state \<Rightarrow> ('raw \<Rightarrow> goerr + 'row) \<Rightarrow>
   ('w, goerr + 'row) state" where
  [run_defs]: "NamedQueryStructUsingIn in_query named_query = namedQueryStruct in_query named_query True"

text \<open>
  A failing rewrite of an \<open>IN\<close> query reaches the caller as it is, and the database is
  not asked.
\<close>

lemma in_rewrite_fails:
  assumes "named = Inl err \<or> (\<exists>q args. named = Inr (q, args) \<and> sqlx_In q args = Inl err)"
    and "errors_As_Pg err = None"
  shows "run_state (NamedQuerySliceUsingIn (query_using_in named sqlx_In rebind query) named_query sc) w =
    (Inl err, w)"
  using assms by (auto simp: run_defs query_using_in_def classify_query_error_def)

lemma scan_rows_append:
  "scan_rows sc rs acc = (case scan_rows sc rs [] of Inl e \<Rightarrow> Inl e | Inr vs \<Rightarrow> Inr (acc @ vs))"
proof (induction rs arbitrary: acc)
  case Nil
  show ?case by simp
next
  case (Cons r rs)
  show ?case
  proof (cases "sc r")
    case (Inl e)
    then show ?thesis by simp
  next
    case (Inr v)
    have "scan_rows sc (r # rs) acc = scan_rows sc rs (acc @ [v])"
      using Inr by simp
    also have "\<dots> = (case scan_rows sc rs [] of Inl e \<Rightarrow> Inl e | Inr vs \<Rightarrow> Inr ((acc @ [v]) @ vs))"
      by (rule Cons.IH)
    also have "\<dots> = (case scan_rows sc rs [v] of Inl e \<Rightarrow> Inl e | Inr vs \<Rightarrow> Inr (acc @ vs))"
      by (subst (2) Cons.IH) (simp split: sum.splits)
    finally show ?thesis
      using Inr by simp
  qed
qed

lemma scan_rows_Inr [simp]: "scan_rows Inr rs acc = Inr (acc @ rs)"
  by (induction rs arbitrary: acc) simp_all

subsection \<open>queryString\<close>

text \<open>
  A bound parameter as the type switch sees it: a string, a byte slice, or any other value
  with its \<open>%v\<close> text.
\<close>

datatype sql_param = PString string | PBytes string | POther string

definition param_text :: "sql_param \<Rightarrow> string" where
  "param_text p = (case p of
       PString v \<Rightarrow> [CHR 0x27] @ v @ [CHR 0x27]
     | PBytes v \<Rightarrow> [CHR 0x27] @ v @ [CHR 0x27]
     | POther v \<Rightarrow> v)"


fun replace_first :: "char \<Rightarrow> string \<Rightarrow> string \<Rightarrow> string" where
  "replace_first c new [] = []"
| "replace_first c new (x # xs) = (if x = c then new @ xs else x # replace_first c new xs)"

definition replace_all :: "char \<Rightarrow> string \<Rightarrow> string \<Rightarrow> string" where
  "replace_all c new s = concat (map (\<lambda>x. if x = c then new else [x]) s)"

definition trim_spaces :: "string \<Rightarrow> string" where
  "trim_spaces s = rev (dropWhile (\<lambda>x. x = CHR '' '') (rev (dropWhile (\<lambda>x. x = CHR '' '') s)))"

definition queryString :: "(goerr + string \<times> sql_param list) \<Rightarrow> string" where
  "queryString named =
     (case named of
        Inl err \<Rightarrow> error_text err
      | Inr (query, params) \<Rightarrow>
          let q1 = fold (\<lambda>param q. replace_first (CHR ''?'') (param_text param) q) params query;
              q2 = replace_all (CHR 0x09) [] q1;
              q3 = replace_all (CHR 0x0A) '' '' q2
          in trim_spaces q3)"

subsection \<open>StatusCheck\<close>

text \<open>
  Time is counted in milliseconds from the call. \<open>ping n\<close> is the outcome and the
  duration of the \<open>n\<close>-th ping; \<open>parent_Err t\<close> is what the caller's context reports
  at time \<open>t\<close>. The loop sleeps \<open>attempts * 100\<close> ms after each failed ping.
\<close>

definition ErrDeadlineExceeded :: goerr where
  "ErrDeadlineExceeded = ErrNew ''context deadline exceeded''"

definition ctx_Err :: "(nat \<Rightarrow> goerr option) \<Rightarrow> nat \<Rightarrow> nat \<Rightarrow> goerr option" where
  "ctx_Err parent_Err deadline t =
     (if deadline \<le> t then Some ErrDeadlineExceeded else parent_Err t)"

record ping_run =
  pr_Err :: "goerr option"
  pr_Attempts :: nat
  pr_Elapsed :: nat

function ping_loop ::
  "(nat \<Rightarrow> bool \<times> nat) \<Rightarrow> (nat \<Rightarrow> goerr option) \<Rightarrow> nat \<Rightarrow> nat \<Rightarrow> nat \<Rightarrow> ping_run" where
  "ping_loop ping parent_Err deadline k elapsed =
     (let attempts = Suc k;
          t1 = elapsed + snd (ping attempts)
      in if fst (ping attempts) then \<lparr>pr_Err = None, pr_Attempts = attempts, pr_Elapsed = t1\<rparr>
         else
           let t2 = t1 + attempts * 100 in
           if ctx_Err parent_Err deadline t2 \<noteq> None
           then \<lparr>pr_Err = ctx_Err parent_Err deadline t2, pr_Attempts = attempts, pr_Elapsed = t2\<rparr>
           else ping_loop ping parent_Err deadline (Suc k) t2)"
  by pat_completeness auto
termination
  by (relation "measure (\<lambda>(ping, parent_Err, deadline, k, elapsed). deadline - elapsed)")
    (auto simp: ctx_Err_def split: if_splits)

declare ping_loop.simps [simp del]

definition StatusCheck ::
  "nat option \<Rightarrow> (nat \<Rightarrow> bool \<times> nat) \<Rightarrow> (nat \<Rightarrow> goerr option) \<Rightarrow> goerr option \<Rightarrow> goerr option" where
  "StatusCheck caller_deadline ping parent_Err select_true =
     (let deadline = (case caller_deadline of None \<Rightarrow> 1000 | Some d \<Rightarrow> d);
          run = ping_loop ping parent_Err deadline 0 0
      in case pr_Err run of
           Some err \<Rightarrow> Some err
         | None \<Rightarrow>
             (case ctx_Err parent_Err deadline (pr_Elapsed run) of
                Some err \<Rightarrow> Some err
              | None \<Rightarrow> select_true))"

text \<open>
  The sleeps add up: after \<open>n\<close> failed attempts at least \<open>100 * (1 + \<dots> + n)\<close> ms have
  passed, so the number of attempts is bounded by the deadline whatever the pings do.
\<close>

lemma ping_loop_attempts:
  assumes "50 * k * Suc k \<le> elapsed"
  shows "pr_Attempts (ping_loop ping pe d k elapsed) \<le> Suc k \<or>
    50 * (pr_Attempts (ping_loop ping pe d k elapsed) - 1) * pr_Attempts (ping_loop ping pe d k elapsed) < d"
  using assms
proof (induction ping pe d k elapsed rule: ping_loop.induct)
  case (1 ping pe d k elapsed)
  let ?t2 = "elapsed + snd (ping (Suc k)) + Suc k * 100"
  show ?case
  proof (cases "fst (ping (Suc k)) \<or> ctx_Err pe d ?t2 \<noteq> None")
    case True
    then show ?thesis
      by (auto simp: ping_loop.simps [of ping pe d k elapsed] Let_def)
  next
    case False
    let ?r = "ping_loop ping pe d (Suc k) ?t2"
    have eq: "ping_loop ping pe d k elapsed = ?r"
      using False by (simp add: ping_loop.simps [of ping pe d k elapsed] Let_def)
    have t2: "50 * Suc k * Suc (Suc k) \<le> ?t2"
      using "1.prems" by (simp add: algebra_simps)
    have "?t2 < d"
      using False by (auto simp: ctx_Err_def split: if_splits)
    with t2 have "50 * Suc k * Suc (Suc k) < d" by linarith
    moreover have "pr_Attempts ?r \<le> Suc (Suc k) \<or> 50 * (pr_Attempts ?r - 1) * pr_Attempts ?r < d"
      using "1.IH" False t2 by (simp add: Let_def)
    moreover have "1 \<le> pr_Attempts ?r \<Longrightarrow> pr_Attempts ?r \<le> Suc (Suc k) \<Longrightarrow>
        50 * (pr_Attempts ?r - 1) * pr_Attempts ?r \<le> 50 * Suc k * Suc (Suc k)"
      by (intro mult_le_mono) simp_all
    ultimately show ?thesis
      unfolding eq by (cases "pr_Attempts ?r") auto
  qed
qed

lemma ping_loop_outcome:
  "(pr_Err (ping_loop ping pe d k t) = None \<longleftrightarrow> fst (ping (pr_Attempts (ping_loop ping pe d k t)))) \<and>
   k < pr_Attempts (ping_loop ping pe d k t) \<and>
   (\<forall>m. k < m \<and> m < pr_Attempts (ping_loop ping pe d k t) \<longrightarrow> \<not> fst (ping m))"
proof (induction ping pe d k t rule: ping_loop.induct)
  case (1 ping pe d k t)
  let ?t2 = "t + snd (ping (Suc k)) + Suc k * 100"
  show ?case
  proof (cases "fst (ping (Suc k)) \<or> ctx_Err pe d ?t2 \<noteq> None")
    case True
    then show ?thesis
      by (auto simp: ping_loop.simps [of ping pe d k t] Let_def)
  next
    case False
    then have "ping_loop ping pe d k t = ping_loop ping pe d (Suc k) ?t2"
      by (simp add: ping_loop.simps [of ping pe d k t] Let_def)
    with False 1 show ?thesis
      by (simp add: Let_def) (metis Suc_lessD Suc_lessI)
  qed
qed

subsection \<open>Properties\<close>

text \<open>
  C40: \<open>StatusCheck\<close> reports success exactly when the last ping it sent was answered, the
  context had not ended by then and the \<open>SELECT TRUE\<close> worked; it stops at the first
  answered ping; and without a deadline of the caller it never sends more than four pings,
  however they fail.
\<close>

theorem StatusCheck_outcome:
  "let d = (case cd of None \<Rightarrow> 1000 | Some d \<Rightarrow> d); run = ping_loop ping pe d 0 0 in
    (StatusCheck cd ping pe sel = None \<longleftrightarrow>
      fst (ping (pr_Attempts run)) \<and> ctx_Err pe d (pr_Elapsed run) = None \<and> sel = None) \<and>
    (\<forall>m \<in> {1..<pr_Attempts run}. \<not> fst (ping m)) \<and>
    (cd = None \<longrightarrow> pr_Attempts run \<le> 4)"
proof -
  define d :: nat where "d = (case cd of None \<Rightarrow> 1000 | Some d \<Rightarrow> d)"
  let ?r = "ping_loop ping pe d 0 0"
  have "StatusCheck cd ping pe sel = None \<longleftrightarrow>
      fst (ping (pr_Attempts ?r)) \<and> ctx_Err pe d (pr_Elapsed ?r) = None \<and> sel = None"
    using ping_loop_outcome [of ping pe d 0 0]
    by (auto simp: StatusCheck_def Let_def d_def [symmetric] split: option.splits)
  moreover have "pr_Attempts ?r \<le> 4" if "cd = None"
  proof (rule ccontr)
    assume "\<not> pr_Attempts ?r \<le> 4"
    then have "50 * 4 * 5 \<le> 50 * (pr_Attempts ?r - 1) * pr_Attempts ?r"
      by (intro mult_le_mono) simp_all
    with \<open>\<not> pr_Attempts ?r \<le> 4\<close> that ping_loop_attempts [of 0 0 ping pe d] show False
      by (simp add: d_def)
  qed
  ultimately show ?thesis
    using ping_loop_outcome [of ping pe d 0 0] by (auto simp: Let_def d_def [symmetric])
qed

theorem StatusCheck_outcome_witness:
  "pr_Attempts (ping_loop (\<lambda>_. (False, 0)) (\<lambda>_. None) 1000 0 0) \<le> 4 \<and>
    StatusCheck None (\<lambda>_. (False, 0)) (\<lambda>_. None) None \<noteq> None"
  using StatusCheck_outcome [of None "\<lambda>_. (False, 0)" "\<lambda>_. None" None] by (simp add: Let_def)

lemma scan_rows_all:
  "list_all2 (\<lambda>r v. sc r = Inr v) rs vs \<Longrightarrow> scan_rows sc rs acc = Inr (acc @ vs)"
  by (induction rs vs arbitrary: acc rule: list_all2_induct) simp_all

text \<open>
  a slice query cannot tell a result set that the connection cut short from a complete
  one: the error that ended the iteration is never read, and the rows seen so far are
  returned as the whole answer, without an error.
\<close>

theorem NamedQuerySlice_truncates:
  assumes "result q w = Inr rs" and "result q' w = Inr (rs\<lparr>rows_Err := None\<rparr>)"
  shows "result (NamedQuerySlice q sc) w = result (NamedQuerySlice q' sc) w \<and>
    (list_all2 (\<lambda>r v. sc r = Inr v) (rows_list rs) vs \<longrightarrow> result (NamedQuerySlice q sc) w = Inr vs)"
  using assms scan_rows_all [of sc "rows_list rs" vs "[]"]
  by (simp add: run_defs split_beta)

theorem NamedQuerySlice_truncates_witness:
  "result (NamedQuerySlice (State_Monad.return (Inr \<lparr>rows_list = [7 :: nat], rows_Err = Some ErrDeadlineExceeded\<rparr>)) Inr)
    () = Inr [7]"
  using NamedQuerySlice_truncates [of
      "State_Monad.return (Inr \<lparr>rows_list = [7 :: nat], rows_Err = Some ErrDeadlineExceeded\<rparr>)" "()"
      "\<lparr>rows_list = [7], rows_Err = Some ErrDeadlineExceeded\<rparr>"
      "State_Monad.return (Inr \<lparr>rows_list = [7], rows_Err = None\<rparr>)" Inr "[7]"]
  by (rule conjunct2 [THEN mp]) simp_all

end
