(* ===== verification/Inv_DB.thy ===== *)
theory Inv_DB
  imports Inv_Domain SqlDB
begin

section \<open>The PostgreSQL store of the inventory service: stores/invdb\<close>

text \<open>
  \<open>stores/invdb\<close> with the table of \<open>migrate/sql/migrate.sql\<close>. The SQL statements of
  the store are translated, like the Go around them, to functions on the table: the
  primary key, the \<open>INTEGER\<close> columns and the four \<open>CHECK\<close> constraints decide whether
  a statement succeeds. Every other failure of the server or the connection is an answer of
  the oracle \<open>e_db\<close>.
\<close>

subsection \<open>Table and row conversion\<close>

record inventoryDB =
  db_LocationID :: string
  db_SKU :: string
  db_OnHand :: int64
  db_Reserved :: int64
  db_Incoming :: int64
  db_UpdatedAt :: gotime

type_synonym inv_table = "inv_key \<Rightarrow> inventoryDB option"

definition toDBInventory :: "Inventory \<Rightarrow> inventoryDB" where
  "toDBInventory bus = \<lparr>db_LocationID = inv_LocationID bus, db_SKU = inv_SKU bus,
     db_OnHand = inv_OnHand bus, db_Reserved = inv_Reserved bus, db_Incoming = inv_Incoming bus,
     db_UpdatedAt = inv_UpdatedAt bus\<rparr>"

definition toBusInventory :: "inventoryDB \<Rightarrow> goerr + Inventory" where
  "toBusInventory db = Inr \<lparr>inv_LocationID = db_LocationID db, inv_SKU = db_SKU db,
     inv_OnHand = db_OnHand db, inv_Reserved = db_Reserved db, inv_Incoming = db_Incoming db,
     inv_UpdatedAt = db_UpdatedAt db\<rparr>"

lemma toBus_toDB: "toBusInventory (toDBInventory i) = Inr i"
  by (simp add: toBusInventory_def toDBInventory_def)

subsection \<open>The schema\<close>

definition fits_INTEGER :: "int64 \<Rightarrow> bool" where
  "fits_INTEGER q \<longleftrightarrow> - (2 ^ 31) \<le> sint q \<and> sint q < 2 ^ 31"

definition columns_fit :: "inventoryDB \<Rightarrow> bool" where
  "columns_fit r \<longleftrightarrow> fits_INTEGER (db_OnHand r) \<and> fits_INTEGER (db_Reserved r) \<and>
     fits_INTEGER (db_Incoming r)"

definition checks_hold :: "inventoryDB \<Rightarrow> bool" where
  "checks_hold r \<longleftrightarrow>
     0 \<le> sint (db_OnHand r) \<and> 0 \<le> sint (db_Reserved r) \<and> 0 \<le> sint (db_Incoming r) \<and>
     sint (db_Reserved r) \<le> sint (db_OnHand r)"

definition row_refused :: "inventoryDB \<Rightarrow> string option" where
  "row_refused r =
     (if \<not> columns_fit r then Some ''22003''
      else if \<not> checks_hold r then Some ''23514''
      else None)"

subsection \<open>The statements\<close>

text \<open>\<open>ts\<close> is what a \<open>TIMESTAMP\<close> column keeps of a time value.\<close>

definition row_key :: "inventoryDB \<Rightarrow> inv_key" where
  "row_key r = (db_LocationID r, db_SKU r)"

definition sql_insert_inventory ::
  "(gotime \<Rightarrow> gotime) \<Rightarrow> inventoryDB \<Rightarrow> inv_table \<Rightarrow> string + inv_table" where
  "sql_insert_inventory ts r t =
     (case row_refused r of
        Some code \<Rightarrow> Inl code
      | None \<Rightarrow>
          if t (row_key r) \<noteq> None then Inl uniqueViolation
          else Inr (t(row_key r \<mapsto> r\<lparr>db_UpdatedAt := ts (db_UpdatedAt r)\<rparr>)))"

definition sql_update_inventory ::
  "(gotime \<Rightarrow> gotime) \<Rightarrow> inventoryDB \<Rightarrow> inv_table \<Rightarrow> string + inv_table" where
  "sql_update_inventory ts r t =
     (if \<not> columns_fit r then Inl ''22003''
      else if t (row_key r) = None then Inr t
      else if \<not> checks_hold r then Inl ''23514''
      else Inr (t(row_key r \<mapsto> r\<lparr>db_UpdatedAt := ts (db_UpdatedAt r)\<rparr>)))"

definition sql_delete_inventory :: "inventoryDB \<Rightarrow> inv_table \<Rightarrow> string + inv_table" where
  "sql_delete_inventory r t = Inr (t(row_key r := None))"

definition sql_select_inventory :: "string \<Rightarrow> string \<Rightarrow> inv_table \<Rightarrow> inventoryDB list" where
  "sql_select_inventory l s t = (case t (l, s) of None \<Rightarrow> [] | Some r \<Rightarrow> [r])"

subsection \<open>Running a statement\<close>

record 'c inv_world = "'c world" +
  w_inventory :: inv_table

definition apply_stmt ::
  "(inv_table \<Rightarrow> string + inv_table) \<Rightarrow> ('c, 'x) inv_world_scheme \<Rightarrow>
   goerr option \<times> ('c, 'x) inv_world_scheme" where
  "apply_stmt stmt w =
     (case stmt (w_inventory w) of
        Inl code \<Rightarrow> (Some (ErrPg code), w)
      | Inr t \<Rightarrow> (None, w\<lparr>w_inventory := t\<rparr>))"

definition pg_exec ::
  "('c, 'm) env \<Rightarrow> (inv_table \<Rightarrow> string + inv_table) \<Rightarrow>
   (('c, 'x) inv_world_scheme, goerr option) state" where
  [run_defs]: "pg_exec env stmt = State (\<lambda>w. case tick w of (n, w') \<Rightarrow>
     (case e_db env n of
        NoFault \<Rightarrow> apply_stmt stmt w'
      | FaultBefore e \<Rightarrow> (Some e, w')
      | FaultAfter e \<Rightarrow> (Some e, snd (apply_stmt stmt w'))))"

definition pg_query ::
  "('c, 'm) env \<Rightarrow> (inv_table \<Rightarrow> inventoryDB list) \<Rightarrow>
   (('c, 'x) inv_world_scheme, goerr + inventoryDB rows) state" where
  [run_defs]: "pg_query env q = State (\<lambda>w. case tick w of (n, w') \<Rightarrow>
     (case e_db env n of
        NoFault \<Rightarrow> (Inr \<lparr>rows_list = q (w_inventory w'), rows_Err = None\<rparr>, w')
      | FaultBefore e \<Rightarrow> (Inl e, w')
      | FaultAfter e \<Rightarrow> (Inl e, w')))"

subsection \<open>The store\<close>

definition invdb_GetInventory ::
  "('c, 'm) env \<Rightarrow> string \<Rightarrow> string \<Rightarrow> (('c, 'x) inv_world_scheme, goerr + Inventory) state" where
  [run_defs]: "invdb_GetInventory env locationID sku =
     do {
       r \<leftarrow> NamedQueryStruct (pg_query env (sql_select_inventory locationID sku)) Inr;
       case r of
         Inl err \<Rightarrow>
           if errors_Is err ErrDBNotFound then State_Monad.return (Inl (ErrWrap ''db: '' ErrNotFound))
           else State_Monad.return (Inl (ErrWrap ''db: '' err))
       | Inr dbInv \<Rightarrow> State_Monad.return (toBusInventory dbInv)
     }"

definition invdb_CreateInventory ::
  "('c, 'm) env \<Rightarrow> Inventory \<Rightarrow> (('c, 'x) inv_world_scheme, goerr option) state" where
  [run_defs]: "invdb_CreateInventory env iv =
     do {
       r \<leftarrow> NamedExecContext (pg_exec env (sql_insert_inventory (e_pgtime env) (toDBInventory iv)));
       case r of
         Some err \<Rightarrow> State_Monad.return (Some (ErrWrap ''named exec context: '' err))
       | None \<Rightarrow> State_Monad.return None
     }"

definition invdb_UpdateInventory ::
  "('c, 'm) env \<Rightarrow> Inventory \<Rightarrow> (('c, 'x) inv_world_scheme, goerr option) state" where
  [run_defs]: "invdb_UpdateInventory env iv =
     do {
       r \<leftarrow> NamedExecContext (pg_exec env (sql_update_inventory (e_pgtime env) (toDBInventory iv)));
       case r of
         Some err \<Rightarrow> State_Monad.return (Some (ErrWrap ''named exec context: '' err))
       | None \<Rightarrow> State_Monad.return None
     }"

definition invdb_DeleteInventory ::
  "('c, 'm) env \<Rightarrow> Inventory \<Rightarrow> (('c, 'x) inv_world_scheme, goerr option) state" where
  [run_defs]: "invdb_DeleteInventory env iv =
     do {
       r \<leftarrow> NamedExecContext (pg_exec env (sql_delete_inventory (toDBInventory iv)));
       case r of
         Some err \<Rightarrow> State_Monad.return (Some (ErrWrap ''named exec context: '' err))
       | None \<Rightarrow> State_Monad.return None
     }"

definition invdb_Store :: "('c, 'm) env \<Rightarrow> (('c, 'x) inv_world_scheme) Storer" where
  "invdb_Store env = \<lparr>st_GetInventory = invdb_GetInventory env,
     st_CreateInventory = invdb_CreateInventory env,
     st_UpdateInventory = invdb_UpdateInventory env,
     st_DeleteInventory = invdb_DeleteInventory env\<rparr>"

text \<open>
  \<open>NewWithTx\<close>: the same store over the transaction's handle. The handle a store talks
  through is its environment: it decides which calls fail. Isolation is not modelled.
\<close>

definition invdb_NewWithTx ::
  "('c, 'm) env transactor \<Rightarrow> goerr + (('c, 'x) inv_world_scheme) Storer" where
  "invdb_NewWithTx tx =
     (case GetExtContext tx of Inl err \<Rightarrow> Inl err | Inr ec \<Rightarrow> Inr (invdb_Store ec))"

subsection \<open>The store satisfies the contract\<close>

definition bus_of_row :: "inventoryDB \<Rightarrow> Inventory" where
  "bus_of_row r = \<lparr>inv_LocationID = db_LocationID r, inv_SKU = db_SKU r,
     inv_OnHand = db_OnHand r, inv_Reserved = db_Reserved r, inv_Incoming = db_Incoming r,
     inv_UpdatedAt = db_UpdatedAt r\<rparr>"

definition inv_rows :: "('c, 'x) inv_world_scheme \<Rightarrow> inv_key \<Rightarrow> Inventory option" where
  "inv_rows w k = map_option bus_of_row (w_inventory w k)"

definition inv_stored :: "('c, 'm) env \<Rightarrow> Inventory \<Rightarrow> Inventory" where
  "inv_stored env iv = iv\<lparr>inv_UpdatedAt := e_pgtime env (inv_UpdatedAt iv)\<rparr>"

definition inv_ok :: "Inventory \<Rightarrow> bool" where
  "inv_ok iv \<longleftrightarrow> row_refused (toDBInventory iv) = None"

lemma toBusInventory_bus_of_row: "toBusInventory r = Inr (bus_of_row r)"
  by (simp add: toBusInventory_def bus_of_row_def)

lemma row_key_toDB [simp]: "row_key (toDBInventory iv) = inv_key iv"
  by (simp add: row_key_def toDBInventory_def inv_key_def)

lemma bus_of_stored_row:
  "bus_of_row ((toDBInventory iv)\<lparr>db_UpdatedAt := e_pgtime env (db_UpdatedAt (toDBInventory iv))\<rparr>) =
    inv_stored env iv"
  by (simp add: bus_of_row_def toDBInventory_def inv_stored_def)

lemma inv_ok_iff:
  "inv_ok iv \<longleftrightarrow>
     0 \<le> sint (inv_Reserved iv) \<and> sint (inv_Reserved iv) \<le> sint (inv_OnHand iv) \<and>
     sint (inv_OnHand iv) < 2 ^ 31 \<and> 0 \<le> sint (inv_Incoming iv) \<and> sint (inv_Incoming iv) < 2 ^ 31"
  by (auto simp: inv_ok_def row_refused_def columns_fit_def checks_hold_def fits_INTEGER_def
      toDBInventory_def)

lemma inv_rows_tick [simp]: "inv_rows (w\<lparr>w_tick := n\<rparr>) = inv_rows w"
  by (simp add: inv_rows_def fun_eq_iff)

lemma inv_rows_redis [simp]: "inv_rows (w\<lparr>w_redis := c\<rparr>) = inv_rows w"
  by (simp add: inv_rows_def fun_eq_iff)

lemma inv_rows_pub [simp]: "inv_rows (w\<lparr>w_pub := p\<rparr>) = inv_rows w"
  by (simp add: inv_rows_def fun_eq_iff)

lemma inv_rows_upd:
  "inv_rows (w\<lparr>w_inventory := (w_inventory w)(k \<mapsto> r)\<rparr>) = (inv_rows w)(k \<mapsto> bus_of_row r)"
  by (simp add: inv_rows_def fun_eq_iff)

lemma inv_rows_del:
  "inv_rows (w\<lparr>w_inventory := (w_inventory w)(k := None)\<rparr>) = (inv_rows w)(k := None)"
  by (simp add: inv_rows_def fun_eq_iff)

text \<open>A statement's effect on the rows, whether or not the call answered.\<close>

lemma exec_pg:
  "exec (NamedExecContext (pg_exec env stmt)) w =
     (let w1 = w\<lparr>w_tick := Suc (w_tick w)\<rparr> in
      case e_db env (w_tick w) of FaultBefore e \<Rightarrow> w1 | _ \<Rightarrow> snd (apply_stmt stmt w1))"
  by (simp add: NamedExecContext_def pg_exec_def tick_def split_beta Let_def
      split: db_fault.splits option.splits)

lemma result_pg_None:
  "result (NamedExecContext (pg_exec env stmt)) w = None \<longleftrightarrow>
     e_db env (w_tick w) = NoFault \<and> (\<exists>t. stmt (w_inventory w) = Inr t)"
  by (auto simp: NamedExecContext_def pg_exec_def apply_stmt_def tick_def split_beta
      split: db_fault.splits option.splits sum.splits)

text \<open>Each write of the store runs one statement; wrapping the error changes nothing else.\<close>

lemma create_run:
  "exec (invdb_CreateInventory env iv) w =
     exec (NamedExecContext (pg_exec env (sql_insert_inventory (e_pgtime env) (toDBInventory iv)))) w"
  "result (invdb_CreateInventory env iv) w = None \<longleftrightarrow>
     result (NamedExecContext (pg_exec env (sql_insert_inventory (e_pgtime env) (toDBInventory iv)))) w = None"
  by (simp_all add: invdb_CreateInventory_def split_beta split: option.splits)

lemma update_run:
  "exec (invdb_UpdateInventory env iv) w =
     exec (NamedExecContext (pg_exec env (sql_update_inventory (e_pgtime env) (toDBInventory iv)))) w"
  "result (invdb_UpdateInventory env iv) w = None \<longleftrightarrow>
     result (NamedExecContext (pg_exec env (sql_update_inventory (e_pgtime env) (toDBInventory iv)))) w = None"
  by (simp_all add: invdb_UpdateInventory_def split_beta split: option.splits)

lemma delete_run:
  "exec (invdb_DeleteInventory env iv) w =
     exec (NamedExecContext (pg_exec env (sql_delete_inventory (toDBInventory iv)))) w"
  "result (invdb_DeleteInventory env iv) w = None \<longleftrightarrow>
     result (NamedExecContext (pg_exec env (sql_delete_inventory (toDBInventory iv)))) w = None"
  by (simp_all add: invdb_DeleteInventory_def split_beta split: option.splits)

lemma inv_rows_apply:
  "inv_rows (snd (apply_stmt stmt w)) =
     (case stmt (w_inventory w) of Inl c \<Rightarrow> inv_rows w | Inr t \<Rightarrow> inv_rows (w\<lparr>w_inventory := t\<rparr>))"
  by (simp add: apply_stmt_def split: sum.splits)

lemma inv_ok_parts: "inv_ok iv \<longleftrightarrow> columns_fit (toDBInventory iv) \<and> checks_hold (toDBInventory iv)"
  by (auto simp: inv_ok_def row_refused_def)

lemma get_result_cases:
  "result (invdb_GetInventory env l s) w =
     (case e_db env (w_tick w) of
        NoFault \<Rightarrow> (case inv_rows w (l, s) of
            None \<Rightarrow> Inl (ErrWrap ''db: '' ErrNotFound) | Some iv \<Rightarrow> Inr iv)
      | FaultBefore e \<Rightarrow> Inl (ErrWrap ''db: ''
          (if errors_Is (classify_query_error e) ErrDBNotFound then ErrNotFound
           else classify_query_error e))
      | FaultAfter e \<Rightarrow> Inl (ErrWrap ''db: ''
          (if errors_Is (classify_query_error e) ErrDBNotFound then ErrNotFound
           else classify_query_error e)))"
  by (simp add: run_defs tick_def split_beta sql_select_inventory_def inv_rows_def
      toBusInventory_bus_of_row split: db_fault.splits option.splits)

lemma get_exec: "exec (invdb_GetInventory env l s) w = w\<lparr>w_tick := Suc (w_tick w)\<rparr>"
  by (simp add: run_defs tick_def split_beta sql_select_inventory_def
      split: db_fault.splits option.splits sum.splits)

text \<open>What the statements do to the rows.\<close>

lemma rows_insert:
  "inv_rows (snd (apply_stmt (sql_insert_inventory (e_pgtime env) (toDBInventory iv)) w)) =
     (if inv_ok iv \<and> inv_rows w (inv_key iv) = None
      then (inv_rows w)(inv_key iv \<mapsto> inv_stored env iv) else inv_rows w)"
  by (auto simp: inv_rows_apply sql_insert_inventory_def inv_ok_def inv_rows_upd bus_of_stored_row
      inv_rows_def [of w "inv_key iv"] split: option.splits)

lemma rows_update:
  "inv_rows (snd (apply_stmt (sql_update_inventory (e_pgtime env) (toDBInventory iv)) w)) =
     (if inv_ok iv \<and> inv_rows w (inv_key iv) \<noteq> None
      then (inv_rows w)(inv_key iv \<mapsto> inv_stored env iv) else inv_rows w)"
  by (auto simp: inv_rows_apply sql_update_inventory_def inv_ok_parts inv_rows_upd bus_of_stored_row
      inv_rows_def [of w "inv_key iv"] split: option.splits sum.splits)

lemma rows_delete:
  "inv_rows (snd (apply_stmt (sql_delete_inventory (toDBInventory iv)) w)) =
     (inv_rows w)(inv_key iv := None)"
  by (simp add: inv_rows_apply sql_delete_inventory_def inv_rows_del)

lemma insert_succeeds:
  "(\<exists>t. sql_insert_inventory ts (toDBInventory iv) (w_inventory w) = Inr t) \<longleftrightarrow>
     inv_ok iv \<and> inv_rows w (inv_key iv) = None"
  by (auto simp: sql_insert_inventory_def inv_ok_def inv_rows_def split: option.splits)

lemma update_succeeds:
  "(\<exists>t. sql_update_inventory ts (toDBInventory iv) (w_inventory w) = Inr t) \<longleftrightarrow>
     columns_fit (toDBInventory iv) \<and> (inv_rows w (inv_key iv) = None \<or> inv_ok iv)"
  by (auto simp: sql_update_inventory_def inv_ok_parts inv_rows_def split: option.splits)

lemmas invdb_runs = invdb_Store_def create_run update_run delete_run exec_pg result_pg_None Let_def
  rows_insert rows_update rows_delete insert_succeeds update_succeeds

interpretation invdb: inv_storer "invdb_Store env" inv_rows "inv_stored env" inv_ok
proof unfold_locales
  fix l k w iv
  show "inv_rows (exec (st_GetInventory (invdb_Store env) l k) w) = inv_rows w"
    by (simp add: invdb_Store_def get_exec)
  show "inv_rows (exec (st_CreateInventory (invdb_Store env) iv) w) = inv_rows w \<or>
      inv_rows w (inv_key iv) = None \<and> inv_ok iv \<and>
      inv_rows (exec (st_CreateInventory (invdb_Store env) iv) w) =
        (inv_rows w)(inv_key iv \<mapsto> inv_stored env iv)"
    by (auto simp: invdb_runs split: db_fault.splits)
  show "result (st_CreateInventory (invdb_Store env) iv) w = None \<Longrightarrow>
      inv_rows (exec (st_CreateInventory (invdb_Store env) iv) w) (inv_key iv) =
        Some (inv_stored env iv) \<and> inv_rows w (inv_key iv) = None"
    by (auto simp: invdb_runs)
  show "inv_rows (exec (st_UpdateInventory (invdb_Store env) iv) w) = inv_rows w \<or>
      inv_rows w (inv_key iv) \<noteq> None \<and> inv_ok iv \<and>
      inv_rows (exec (st_UpdateInventory (invdb_Store env) iv) w) =
        (inv_rows w)(inv_key iv \<mapsto> inv_stored env iv)"
    by (auto simp: invdb_runs split: db_fault.splits)
  show "result (st_UpdateInventory (invdb_Store env) iv) w = None \<Longrightarrow>
      inv_rows w (inv_key iv) \<noteq> None \<Longrightarrow>
      inv_rows (exec (st_UpdateInventory (invdb_Store env) iv) w) (inv_key iv) =
        Some (inv_stored env iv)"
    by (auto simp: invdb_runs)
  show "inv_rows (exec (st_DeleteInventory (invdb_Store env) iv) w) = inv_rows w \<or>
      inv_rows (exec (st_DeleteInventory (invdb_Store env) iv) w) = (inv_rows w)(inv_key iv := None)"
    by (auto simp: invdb_runs split: db_fault.splits)
  show "result (st_DeleteInventory (invdb_Store env) iv) w = None \<Longrightarrow>
      inv_rows (exec (st_DeleteInventory (invdb_Store env) iv) w) (inv_key iv) = None"
    by (auto simp: invdb_runs)
  show "inv_key (inv_stored env iv) = inv_key iv"
    by (simp add: inv_stored_def inv_key_def)
  show "inv_ok (inv_stored env iv) = inv_ok iv"
    by (simp add: inv_stored_def inv_ok_iff)
  show "result (st_GetInventory (invdb_Store env) l k) w = Inr iv \<Longrightarrow> inv_rows w (l, k) = Some iv"
    by (auto simp: invdb_Store_def get_result_cases split: db_fault.splits option.splits)
qed

text \<open>Every stored row satisfies the constraints and is stored under its own key.\<close>

definition rows_ok :: "('c, 'x) inv_world_scheme \<Rightarrow> bool" where
  "rows_ok w \<longleftrightarrow> (\<forall>k iv. inv_rows w k = Some iv \<longrightarrow> inv_ok iv \<and> inv_key iv = k)"

lemma all_ok_rows_ok: "invdb.all_ok = rows_ok"
  by (simp add: fun_eq_iff rows_ok_def invdb.all_ok_def)

subsection \<open>A concrete world\<close>

text \<open>
  The runs shown by the witnesses start from a warehouse with one row of ten units on hand,
  two of them reserved.
\<close>

definition demo_row :: inventoryDB where
  "demo_row = \<lparr>db_LocationID = ''JHB'', db_SKU = ''S1'', db_OnHand = 10, db_Reserved = 2,
     db_Incoming = 5, db_UpdatedAt = 0\<rparr>"

definition demo_world :: "mem_redis inv_world" where
  "demo_world = \<lparr>w_redis = Map.empty, w_pub = [], w_settled = [], w_tick = 0,
     w_inventory = [(''JHB'', ''S1'') \<mapsto> demo_row]\<rparr>"

definition empty_world :: "mem_redis inv_world" where
  "empty_world = demo_world\<lparr>w_inventory := Map.empty\<rparr>"

lemma empty_rows: "inv_rows empty_world k = None"
  by (simp add: empty_world_def inv_rows_def)

lemma demo_rows: "inv_rows demo_world = [(''JHB'', ''S1'') \<mapsto> bus_of_row demo_row]"
  by (simp add: demo_world_def inv_rows_def fun_eq_iff)

lemma demo_row_ok: "inv_ok (bus_of_row demo_row)" "inv_key (bus_of_row demo_row) = (''JHB'', ''S1'')"
  by (simp_all add: inv_ok_iff bus_of_row_def demo_row_def inv_key_def)

subsection \<open>Properties\<close>

text \<open>
  creating a row and reading it back: when \<open>CreateInventory\<close> reports success the row
  satisfies every constraint of the schema, no row had its key before, and a read in the
  new state that the database answers returns exactly the stored row (with the time stamp
  the column keeps).
\<close>

theorem invdb_create_then_get:
  assumes "result (invdb_CreateInventory env iv) w = None"
    and "e_db env (w_tick (exec (invdb_CreateInventory env iv) w)) = NoFault"
  shows "inv_ok iv \<and> inv_rows w (inv_key iv) = None \<and>
    result (invdb_GetInventory env (inv_LocationID iv) (inv_SKU iv))
      (exec (invdb_CreateInventory env iv) w) = Inr (inv_stored env iv)"
proof -
  have rows: "inv_rows (exec (invdb_CreateInventory env iv) w) =
      (inv_rows w)(inv_key iv \<mapsto> inv_stored env iv)" "inv_ok iv" "inv_rows w (inv_key iv) = None"
    using assms(1) by (auto simp: invdb_runs)
  then show ?thesis
    using assms(2) by (simp add: get_result_cases inv_key_def)
qed

theorem invdb_create_then_get_witness:
  "inv_ok (bus_of_row demo_row) \<and> inv_rows empty_world (inv_key (bus_of_row demo_row)) = None \<and>
    result (invdb_GetInventory quiet_env ''JHB'' ''S1'')
      (exec (invdb_CreateInventory quiet_env (bus_of_row demo_row)) empty_world) =
      Inr (inv_stored quiet_env (bus_of_row demo_row))"
proof -
  have r: "result (invdb_CreateInventory quiet_env (bus_of_row demo_row))
      empty_world = None"
    using demo_row_ok(1) by (simp add: create_run result_pg_None insert_succeeds empty_rows)
  have k: "inv_LocationID (bus_of_row demo_row) = ''JHB''" "inv_SKU (bus_of_row demo_row) = ''S1''"
    by (simp_all add: bus_of_row_def demo_row_def)
  show ?thesis
    using invdb_create_then_get [OF r] unfolding k by simp
qed

text \<open>How a write reports the outcome of its statement when the database answers.\<close>

lemma exec_answer:
  assumes "e_db env (w_tick w) = NoFault"
  shows "result (NamedExecContext (pg_exec env stmt)) w =
    (case stmt (w_inventory w) of Inr t \<Rightarrow> None
     | Inl code \<Rightarrow> Some (if code = undefinedTable then ErrUndefinedTable
         else if code = uniqueViolation then ErrDBDuplicatedEntry else ErrPg code))"
  using assms by (simp add: NamedExecContext_def pg_exec_def tick_def apply_stmt_def split_beta split: sum.split)

lemma write_results:
  "result (invdb_CreateInventory env iv) w = map_option (ErrWrap ''named exec context: '')
     (result (NamedExecContext (pg_exec env (sql_insert_inventory (e_pgtime env) (toDBInventory iv)))) w)"
  "result (invdb_UpdateInventory env iv) w = map_option (ErrWrap ''named exec context: '')
     (result (NamedExecContext (pg_exec env (sql_update_inventory (e_pgtime env) (toDBInventory iv)))) w)"
  "result (invdb_DeleteInventory env iv) w = map_option (ErrWrap ''named exec context: '')
     (result (NamedExecContext (pg_exec env (sql_delete_inventory (toDBInventory iv)))) w)"
  by (simp_all add: invdb_CreateInventory_def invdb_UpdateInventory_def invdb_DeleteInventory_def split_beta
      split: option.split)

lemmas answered_writes = write_results exec_answer sql_insert_inventory_def sql_update_inventory_def
  sql_delete_inventory_def row_refused_def uniqueViolation_def undefinedTable_def

definition refuses :: "goerr option \<Rightarrow> string \<Rightarrow> bool" where
  "refuses r code \<longleftrightarrow> (\<exists>e. r = Some e \<and> errors_As_Pg e = Some code)"

text \<open>
  C35: what the four operations of the store do when the database answers, in every case. A
  read returns the row of the key, or \<open>ErrNotFound\<close> when there is none. A row that does not
  fit the columns or violates a check is refused by \<open>CreateInventory\<close> with the SQLSTATE of
  the violation (22003 or 23514), a second row under a key with \<open>ErrDBDuplicatedEntry\<close>,
  and every other row is stored. \<open>UpdateInventory\<close> refuses values that do not fit, replaces
  an existing row by one that satisfies the checks and refuses one that does not, and
  reports success without effect when there is no row. \<open>DeleteInventory\<close> removes the row
  and reports success also when there is none. A refusal changes nothing.
\<close>

theorem invdb_answers:
  assumes "e_db env (w_tick w) = NoFault"
  shows "let v = inv_rows w; k = inv_key iv; row = toDBInventory iv; new = v(k \<mapsto> inv_stored env iv);
      create = invdb_CreateInventory env iv; update = invdb_UpdateInventory env iv; delete = invdb_DeleteInventory env iv
    in (case v (l, s) of
          Some found \<Rightarrow> result (invdb_GetInventory env l s) w = Inr found
        | None \<Rightarrow> \<exists>e. result (invdb_GetInventory env l s) w = Inl e \<and> errors_Is e ErrNotFound) \<and>
      (if \<not> columns_fit row then refuses (result create w) ''22003'' \<and> inv_rows (exec create w) = v
       else if \<not> checks_hold row then refuses (result create w) ''23514'' \<and> inv_rows (exec create w) = v
       else if v k \<noteq> None then (\<exists>e. result create w = Some e \<and> errors_Is e ErrDBDuplicatedEntry) \<and> inv_rows (exec create w) = v
       else result create w = None \<and> inv_rows (exec create w) = new) \<and>
      (if \<not> columns_fit row then refuses (result update w) ''22003'' \<and> inv_rows (exec update w) = v
       else if v k = None then result update w = None \<and> inv_rows (exec update w) = v
       else if \<not> checks_hold row then refuses (result update w) ''23514'' \<and> inv_rows (exec update w) = v
       else result update w = None \<and> inv_rows (exec update w) = new) \<and>
      result delete w = None \<and> inv_rows (exec delete w) = v(k := None)"
proof -
  have get: "case inv_rows w (l, s) of Some found \<Rightarrow> result (invdb_GetInventory env l s) w = Inr found
      | None \<Rightarrow> \<exists>e. result (invdb_GetInventory env l s) w = Inl e \<and> errors_Is e ErrNotFound"
    using assms by (simp add: get_result_cases ErrNotFound_def split: option.split)
  have key: "w_inventory w (inv_key iv) = None \<longleftrightarrow> inv_rows w (inv_key iv) = None"
    by (simp add: inv_rows_def)
  have create: "inv_rows (exec (invdb_CreateInventory env iv) w) =
      (if inv_ok iv \<and> inv_rows w (inv_key iv) = None then (inv_rows w)(inv_key iv \<mapsto> inv_stored env iv) else inv_rows w)"
    using assms by (simp add: create_run exec_pg Let_def rows_insert)
  have update: "inv_rows (exec (invdb_UpdateInventory env iv) w) =
      (if inv_ok iv \<and> inv_rows w (inv_key iv) \<noteq> None then (inv_rows w)(inv_key iv \<mapsto> inv_stored env iv) else inv_rows w)"
    using assms by (auto simp: update_run exec_pg Let_def rows_update)
  have delete: "inv_rows (exec (invdb_DeleteInventory env iv) w) = (inv_rows w)(inv_key iv := None)"
    using assms by (simp add: delete_run exec_pg Let_def rows_delete)
  show ?thesis
    using get create update delete assms
    by (simp add: Let_def answered_writes refuses_def inv_ok_parts key ErrDBDuplicatedEntry_def)
qed

theorem invdb_answers_witness:
  "(\<exists>e. result (invdb_GetInventory quiet_env ''CPT'' ''S1'') demo_world = Inl e \<and> errors_Is e ErrNotFound) \<and>
   (\<exists>e. result (invdb_CreateInventory quiet_env (bus_of_row demo_row)) demo_world = Some e \<and>
     errors_Is e ErrDBDuplicatedEntry) \<and>
   refuses (result (invdb_UpdateInventory quiet_env ((bus_of_row demo_row)\<lparr>inv_Reserved := 11\<rparr>)) demo_world) ''23514''"
  using invdb_answers [of quiet_env demo_world "bus_of_row demo_row" "''CPT''" "''S1''"]
    invdb_answers [of quiet_env demo_world "(bus_of_row demo_row)\<lparr>inv_Reserved := 11\<rparr>" "''CPT''" "''S1''"]
  by (simp add: Let_def demo_rows bus_of_row_def demo_row_def inv_key_def toDBInventory_def columns_fit_def checks_hold_def
      fits_INTEGER_def)

end
