(* ===== verification/Inv_Cache.thy ===== *)
theory Inv_Cache
  imports Inv_DB
begin

section \<open>The caching store of the inventory service: stores/invcache\<close>

text \<open>
  \<open>invcache.Store\<close> wraps any \<open>Storer\<close> with a Redis hash per inventory row. The theory
  proves the round trip of a row through the cache, that a successful update or a
  successful deletion of the key invalidates it, that the wrapper keeps the contract of
  writes (\<open>inv_writer\<close>), and what the code does on a cache hit.
\<close>

subsection \<open>Keys and entries\<close>

definition inventoryKey :: "string \<Rightarrow> string \<Rightarrow> string" where
  "inventoryKey locationID sku = ''inventory:'' @ locationID @ '':'' @ sku"

text \<open>\<open>t.Unix()\<close> and \<open>time.Unix(s, 0)\<close>.\<close>

definition time_to_Unix :: "gotime \<Rightarrow> int64" where
  "time_to_Unix t = word_of_int (t div 1000000000)"

definition time_of_Unix :: "int64 \<Rightarrow> gotime" where
  "time_of_Unix s = sint s * 1000000000"

definition cache_fields :: "Inventory \<Rightarrow> (string \<times> int64) list" where
  "cache_fields iv =
     [(''on_hand'', inv_OnHand iv),
      (''reserved'', inv_Reserved iv),
      (''incoming'', inv_Incoming iv),
      (''updated_at'', time_to_Unix (inv_UpdatedAt iv))]"

definition writeCache :: "('c, 'm) env \<Rightarrow> Inventory \<Rightarrow> (('c, 'x) world_scheme, goerr option) state" where
  [run_defs]: "writeCache env iv =
     on_redis (HSet (e_redis env) (inventoryKey (inv_LocationID iv) (inv_SKU iv)) (cache_fields iv))"

definition toInt :: "(string \<times> string) list \<Rightarrow> string \<Rightarrow> goerr + int" where
  "toInt vals field =
     (case map_of vals field of
        None \<Rightarrow> Inl (ErrMsg (''missing field: '' @ field))
      | Some val \<Rightarrow> (case Atoi val of Inl e \<Rightarrow> Inl (ErrMsg ''strconv.Atoi'') | Inr n \<Rightarrow> Inr n))"

definition decode_entry :: "string \<Rightarrow> string \<Rightarrow> (string \<times> string) list \<Rightarrow> goerr + Inventory" where
  "decode_entry locationID sku vals =
     (if vals = [] then Inl redis_Nil
      else
        case (toInt vals ''on_hand'', toInt vals ''reserved'', toInt vals ''incoming'',
              ParseInt (case map_of vals ''updated_at'' of None \<Rightarrow> [] | Some s \<Rightarrow> s) 10 64) of
          (Inr onHand, Inr reserved, Inr incoming, Inr updatedAtUnix) \<Rightarrow>
            Inr \<lparr>inv_LocationID = locationID, inv_SKU = sku,
                 inv_OnHand = word_of_int onHand, inv_Reserved = word_of_int reserved,
                 inv_Incoming = word_of_int incoming,
                 inv_UpdatedAt = time_of_Unix (word_of_int updatedAtUnix)\<rparr>
        | _ \<Rightarrow> Inl redis_Nil)"

definition readCache ::
  "('c, 'm) env \<Rightarrow> string \<Rightarrow> string \<Rightarrow> (('c, 'x) world_scheme, goerr + Inventory) state" where
  [run_defs]: "readCache env locationID sku =
     do {
       r \<leftarrow> on_redis (HGetAll (e_redis env) (inventoryKey locationID sku));
       case r of
         Inl err \<Rightarrow> State_Monad.return (Inl err)
       | Inr vals \<Rightarrow> State_Monad.return (decode_entry locationID sku vals)
     }"

definition deleteCache ::
  "('c, 'm) env \<Rightarrow> string \<Rightarrow> string \<Rightarrow> (('c, 'x) world_scheme, goerr option) state" where
  [run_defs]: "deleteCache env locationID sku =
     on_redis (Del (e_redis env) (inventoryKey locationID sku))"

subsection \<open>The store\<close>

definition invcache_GetInventory ::
  "('c, 'm) env \<Rightarrow> (('c, 'x) world_scheme) Storer \<Rightarrow> string \<Rightarrow> string \<Rightarrow>
   (('c, 'x) world_scheme, goerr + Inventory) state" where
  [run_defs]: "invcache_GetInventory env storer locationID sku =
     do {
       c \<leftarrow> readCache env locationID sku;
       case c of
         Inr iv \<Rightarrow> State_Monad.return (Inr Inventory_zero)
       | Inl _ \<Rightarrow>
           do {
             r \<leftarrow> st_GetInventory storer locationID sku;
             case r of
               Inl err \<Rightarrow> State_Monad.return (Inl err)
             | Inr dbInv \<Rightarrow>
                 do {
                   _ \<leftarrow> writeCache env dbInv;
                   State_Monad.return (Inr dbInv)
                 }
           }
     }"

definition invcache_CreateInventory ::
  "('c, 'm) env \<Rightarrow> (('c, 'x) world_scheme) Storer \<Rightarrow> Inventory \<Rightarrow>
   (('c, 'x) world_scheme, goerr option) state" where
  [run_defs]: "invcache_CreateInventory env storer iv =
     do {
       r \<leftarrow> st_CreateInventory storer iv;
       case r of
         Some err \<Rightarrow> State_Monad.return (Some err)
       | None \<Rightarrow> do { _ \<leftarrow> writeCache env iv; State_Monad.return None }
     }"

definition invcache_UpdateInventory ::
  "('c, 'm) env \<Rightarrow> (('c, 'x) world_scheme) Storer \<Rightarrow> Inventory \<Rightarrow>
   (('c, 'x) world_scheme, goerr option) state" where
  [run_defs]: "invcache_UpdateInventory env storer iv =
     do {
       r \<leftarrow> st_UpdateInventory storer iv;
       case r of
         Some err \<Rightarrow> State_Monad.return (Some err)
       | None \<Rightarrow> deleteCache env (inv_LocationID iv) (inv_SKU iv)
     }"

definition invcache_DeleteInventory ::
  "('c, 'm) env \<Rightarrow> (('c, 'x) world_scheme) Storer \<Rightarrow> Inventory \<Rightarrow>
   (('c, 'x) world_scheme, goerr option) state" where
  [run_defs]: "invcache_DeleteInventory env storer iv =
     do {
       r \<leftarrow> st_DeleteInventory storer iv;
       case r of
         Some err \<Rightarrow> State_Monad.return (Some err)
       | None \<Rightarrow>
           do { _ \<leftarrow> deleteCache env (inv_LocationID iv) (inv_SKU iv); State_Monad.return None }
     }"

definition invcache_Store ::
  "('c, 'm) env \<Rightarrow> (('c, 'x) world_scheme) Storer \<Rightarrow> (('c, 'x) world_scheme) Storer" where
  "invcache_Store env storer = \<lparr>st_GetInventory = invcache_GetInventory env storer,
     st_CreateInventory = invcache_CreateInventory env storer,
     st_UpdateInventory = invcache_UpdateInventory env storer,
     st_DeleteInventory = invcache_DeleteInventory env storer\<rparr>"

text \<open>\<open>NewWithTx\<close>: the transactional store of the wrapped storer, behind the same cache.\<close>

definition invcache_NewWithTx ::
  "('c, 'm) env \<Rightarrow> goerr + (('c, 'x) world_scheme) Storer \<Rightarrow> goerr + (('c, 'x) world_scheme) Storer" where
  "invcache_NewWithTx env tx =
     (case tx of Inl err \<Rightarrow> Inl err | Inr txStorer \<Rightarrow> Inr (invcache_Store env txStorer))"

subsection \<open>The cached store keeps the contract of writes\<close>

locale inv_cached = inv_writer S view stored ok
  for S :: "(('c, 'x) world_scheme) Storer" and view stored ok +
  fixes env :: "('c, 'm) env"
  assumes view_redis: "view (w\<lparr>w_redis := c\<rparr>) = view w"
begin

lemma view_on_redis: "view (exec (on_redis cmd) w) = view w"
  by (simp add: on_redis_def split_beta view_redis)

lemma view_readCache: "view (exec (readCache env l k) w) = view w"
  by (simp add: readCache_def view_on_redis split_beta split: sum.splits)

lemmas view_cache_ops = view_on_redis view_readCache writeCache_def deleteCache_def

lemma cached_create_run:
  "view (exec (invcache_CreateInventory env S iv) w) = view (exec (st_CreateInventory S iv) w)"
  "result (invcache_CreateInventory env S iv) w = None \<longleftrightarrow> result (st_CreateInventory S iv) w = None"
  by (simp_all add: invcache_CreateInventory_def split_beta view_cache_ops split: option.splits)

lemma cached_update_run:
  "view (exec (invcache_UpdateInventory env S iv) w) = view (exec (st_UpdateInventory S iv) w)"
  "result (invcache_UpdateInventory env S iv) w = None \<Longrightarrow> result (st_UpdateInventory S iv) w = None"
  by (simp_all add: invcache_UpdateInventory_def split_beta view_cache_ops split: option.splits)

lemma cached_delete_run:
  "view (exec (invcache_DeleteInventory env S iv) w) = view (exec (st_DeleteInventory S iv) w)"
  "result (invcache_DeleteInventory env S iv) w = None \<longleftrightarrow> result (st_DeleteInventory S iv) w = None"
  by (simp_all add: invcache_DeleteInventory_def split_beta view_cache_ops split: option.splits)

lemma cached_get_run: "view (exec (invcache_GetInventory env S l k) w) = view w"
  by (simp add: invcache_GetInventory_def split_beta view_cache_ops get_view split: sum.splits)

lemmas cached_runs = cached_create_run cached_update_run cached_delete_run cached_get_run

end

sublocale inv_cached \<subseteq> cached: inv_writer "invcache_Store env S" view stored ok
  by unfold_locales
    (simp_all add: invcache_Store_def cached_runs create_cases create_ok update_cases update_ok
      delete_cases delete_ok stored_key stored_ok del: not_None_eq)

interpretation invcache: inv_cached "invdb_Store env" inv_rows "inv_stored env" inv_ok env
  by unfold_locales simp

subsection \<open>Round trip of an entry\<close>

definition second_precision :: "Inventory \<Rightarrow> Inventory" where
  "second_precision iv = iv\<lparr>inv_UpdatedAt := inv_UpdatedAt iv div 1000000000 * 1000000000\<rparr>"

lemma decode_entry_fields:
  assumes "map_of vals = hash_fields old ++ map_of (map (map_prod id int_text) (cache_fields iv))"
    and "int64_in (inv_UpdatedAt iv div 1000000000)"
  shows "decode_entry (inv_LocationID iv) (inv_SKU iv) vals = Inr (second_precision iv)"
proof -
  have "vals \<noteq> []"
    using assms(1) by (cases vals) (auto simp: cache_fields_def fun_eq_iff split: if_splits)
  then have "decode_entry (inv_LocationID iv) (inv_SKU iv) vals =
      Inr (iv\<lparr>inv_UpdatedAt := time_of_Unix (time_to_Unix (inv_UpdatedAt iv))\<rparr>)"
    using assms(1) by (simp add: decode_entry_def toInt_def cache_fields_def int_text_def)
  then show ?thesis
    using assms(2)
    by (simp add: second_precision_def time_of_Unix_def time_to_Unix_def sint_of_int64)
qed

lemma readCache_run:
  "result (readCache env l k) w =
     (case fst (HGetAll (e_redis env) (inventoryKey l k) (w_redis w)) of
        Inl e \<Rightarrow> Inl e | Inr vals \<Rightarrow> decode_entry l k vals)"
  "exec (readCache env l k) w = w\<lparr>w_redis := snd (HGetAll (e_redis env) (inventoryKey l k) (w_redis w))\<rparr>"
  by (simp_all add: run_defs split_beta split: sum.splits)

lemma writeCache_run:
  "result (writeCache env iv) w =
     fst (HSet (e_redis env) (inventoryKey (inv_LocationID iv) (inv_SKU iv)) (cache_fields iv) (w_redis w))"
  "exec (writeCache env iv) w = w\<lparr>w_redis :=
     snd (HSet (e_redis env) (inventoryKey (inv_LocationID iv) (inv_SKU iv)) (cache_fields iv) (w_redis w))\<rparr>"
  by (simp_all add: run_defs split_beta)

lemma readCache_missing:
  assumes "redis_laws (e_redis env) view" and "view (w_redis w) (inventoryKey l k) = None"
  shows "\<exists>e. result (readCache env l k) w = Inl e"
proof (cases "fst (HGetAll (e_redis env) (inventoryKey l k) (w_redis w))")
  case (Inl e)
  then show ?thesis by (simp add: readCache_run)
next
  case (Inr vals)
  with redis_laws.hgetall_missing [OF assms] have "vals = []" .
  with Inr show ?thesis by (simp add: readCache_run decode_entry_def)
qed

subsection \<open>Keys\<close>

lemma append_colon_inject:
  "CHR '':'' \<notin> set a \<Longrightarrow> CHR '':'' \<notin> set c \<Longrightarrow>
    a @ CHR '':'' # b = c @ CHR '':'' # d \<longleftrightarrow> a = c \<and> b = d"
proof (induction a arbitrary: c)
  case Nil
  then show ?case by (cases c) auto
next
  case (Cons x a)
  then show ?case by (cases c) auto
qed

lemma inventoryKey_inject:
  "CHR '':'' \<notin> set l \<Longrightarrow> CHR '':'' \<notin> set l' \<Longrightarrow>
    inventoryKey l s = inventoryKey l' s' \<longleftrightarrow> l = l' \<and> s = s'"
  by (simp add: inventoryKey_def append_colon_inject)

subsection \<open>The cache on a Redis server that answers\<close>

text \<open>What a read returns depends on the fields of the hash only.\<close>

lemma decode_entry_cong:
  assumes "map_of vals = map_of vals'"
  shows "decode_entry l k vals = decode_entry l k vals'"
proof -
  have "vals = [] \<longleftrightarrow> vals' = []"
    using assms by (metis map_of.simps(1) map_of_eq_empty_iff)
  then show ?thesis
    using assms by (simp add: decode_entry_def toInt_def)
qed

text \<open>The hash under which a row is cached.\<close>

definition cache_entry :: "('c \<Rightarrow> string \<Rightarrow> redis_val option) \<Rightarrow> ('c, 'x) world_scheme \<Rightarrow> string \<Rightarrow> string \<Rightarrow>
  redis_val option" where
  "cache_entry view w l k = view (w_redis w) (inventoryKey l k)"

locale cache_redis = redis_up "e_redis env" view
  for env :: "('c, 'm) env" and view :: "'c \<Rightarrow> string \<Rightarrow> redis_val option"
begin

lemma read_run:
  assumes "\<forall>s. cache_entry view w l k \<noteq> Some (RString s)"
  shows "\<exists>vals. map_of vals = hash_fields (cache_entry view w l k) \<and> result (readCache env l k) w = decode_entry l k vals"
proof -
  obtain vals where "fst (HGetAll (e_redis env) (inventoryKey l k) (w_redis w)) = Inr vals"
    using hgetall_up assms unfolding cache_entry_def by blast
  with hgetall_ok [OF this] show ?thesis
    by (auto simp: readCache_run cache_entry_def)
qed

lemma entry_read: "cache_entry view (exec (readCache env l k) w) l' k' = cache_entry view w l' k'"
  by (simp add: cache_entry_def readCache_run hgetall_pure)

lemma write_then_read:
  assumes "\<forall>s. cache_entry view w (inv_LocationID iv) (inv_SKU iv) \<noteq> Some (RString s)"
    and "int64_in (inv_UpdatedAt iv div 1000000000)"
  shows "result (writeCache env iv) w = None \<and>
    result (readCache env (inv_LocationID iv) (inv_SKU iv)) (exec (writeCache env iv) w) =
      Inr (second_precision iv)"
proof -
  let ?l = "inv_LocationID iv" and ?k = "inv_SKU iv"
  have ok: "result (writeCache env iv) w = None"
    using assms(1) by (simp add: writeCache_run cache_entry_def hset_up)
  have e: "cache_entry view (exec (writeCache env iv) w) ?l ?k = Some (RHash
      (hash_fields (cache_entry view w ?l ?k) ++ map_of (map (map_prod id int_text) (cache_fields iv))))"
    using hset_ok ok by (simp add: writeCache_run cache_entry_def)
  then obtain vals where "map_of vals =
        hash_fields (cache_entry view w ?l ?k) ++ map_of (map (map_prod id int_text) (cache_fields iv))"
      "result (readCache env ?l ?k) (exec (writeCache env iv) w) = decode_entry ?l ?k vals"
    using read_run [of "exec (writeCache env iv) w" ?l ?k] by (auto simp: hash_fields_def [of "Some _"])
  with ok decode_entry_fields [OF _ assms(2)] show ?thesis by simp
qed

text \<open>A read that was answered once is answered by the cache with the zero row from then on.\<close>

lemma read_again:
  assumes "\<forall>s. cache_entry view w l k \<noteq> Some (RString s)" and "result (readCache env l k) w = Inr iv"
    and "\<And>l' k'. cache_entry view w' l' k' = cache_entry view w l' k'"
  shows "result (readCache env l k) w' = Inr iv"
  using read_run [OF assms(1)] read_run [of w' l k] assms decode_entry_cong by (metis (no_types, lifting))

lemma get_hit:
  "result (readCache env l k) w = Inr iv \<Longrightarrow> result (invcache_GetInventory env S l k) w = Inr Inventory_zero"
  by (simp add: invcache_GetInventory_def split_beta)

lemma get_twice:
  assumes "result (invcache_GetInventory env S l k) w = Inr iv"
    and "\<forall>s. cache_entry view w l k \<noteq> Some (RString s)"
    and "\<And>iv. result (st_GetInventory S l k) (exec (readCache env l k) w) = Inr iv \<Longrightarrow>
      w_redis (exec (st_GetInventory S l k) (exec (readCache env l k) w)) = w_redis (exec (readCache env l k) w) \<and>
      inv_key iv = (l, k) \<and> int64_in (inv_UpdatedAt iv div 1000000000)"
  shows "result (invcache_GetInventory env S l k) (exec (invcache_GetInventory env S l k) w) =
    Inr Inventory_zero"
proof (cases "result (readCache env l k) w")
  case (Inr cached)
  then have "exec (invcache_GetInventory env S l k) w = exec (readCache env l k) w"
    by (simp add: invcache_GetInventory_def split_beta)
  moreover have "result (readCache env l k) (exec (readCache env l k) w) = Inr cached"
    by (rule read_again [OF assms(2) Inr]) (rule entry_read)
  ultimately show ?thesis
    by (simp add: get_hit)
next
  case (Inl err)
  let ?w1 = "exec (readCache env l k) w"
  let ?w2 = "exec (st_GetInventory S l k) ?w1"
  obtain row where row: "result (st_GetInventory S l k) ?w1 = Inr row"
    using assms(1) Inl by (cases "result (st_GetInventory S l k) ?w1")
      (simp_all add: invcache_GetInventory_def split_beta)
  from assms(3) [OF this] have red: "w_redis ?w2 = w_redis ?w1" and key: "inv_LocationID row = l" "inv_SKU row = k"
    and int: "int64_in (inv_UpdatedAt row div 1000000000)"
    by (simp_all add: inv_key_def)
  have "exec (invcache_GetInventory env S l k) w = exec (writeCache env row) ?w2"
    using Inl row by (simp add: invcache_GetInventory_def split_beta)
  moreover have "cache_entry view ?w2 l k = cache_entry view w l k"
    using red entry_read [of l k w l k] by (simp add: cache_entry_def)
  ultimately show ?thesis
    using write_then_read [of ?w2 row] assms(2) int key by (auto intro: get_hit)
qed

lemma update_removes:
  assumes "result (invcache_UpdateInventory env S iv) w = None"
  shows "cache_entry view (exec (invcache_UpdateInventory env S iv) w) (inv_LocationID iv) (inv_SKU iv) = None"
  using assms del_ok
  by (auto simp: invcache_UpdateInventory_def deleteCache_def on_redis_def cache_entry_def split_beta
      split: option.splits)

end

interpretation mem_cache: cache_redis "env\<lparr>e_redis := mem_api\<rparr>" mem_view
  by (simp add: cache_redis_def mem.redis_up_axioms)

subsection \<open>Properties\<close>

lemma quiet_redis_up: "redis_up (e_redis quiet_env) mem_view"
  by (simp add: mem.redis_up_axioms)

text \<open>
  C34: a row written to the cache reads back as it was, with its time stamp cut to whole
  seconds, whatever stale fields the hash held, on every Redis server that answers and holds
  no string under the key.
\<close>

theorem cache_round_trip:
  assumes "redis_up (e_redis env) view"
    and "\<forall>s. view (w_redis w) (inventoryKey (inv_LocationID iv) (inv_SKU iv)) \<noteq> Some (RString s)"
    and "int64_in (inv_UpdatedAt iv div 1000000000)"
  shows "result (writeCache env iv) w = None \<and>
    result (readCache env (inv_LocationID iv) (inv_SKU iv)) (exec (writeCache env iv) w) =
      Inr (second_precision iv)"
  by (rule cache_redis.write_then_read [unfolded cache_entry_def, OF cache_redis.intro [OF assms(1)] assms(2,3)])

theorem cache_round_trip_witness:
  "result (writeCache quiet_env (bus_of_row demo_row)) demo_world = None"
  using cache_round_trip [OF quiet_redis_up, of demo_world "bus_of_row demo_row"]
  by (simp add: demo_world_def mem_view_def demo_row_def bus_of_row_def int64_in_def)

text \<open>
  after any successful \<open>GetInventory\<close> of the cached store, the next one for the same
  key is answered from the cache, and it returns the zero \<open>Inventory\<close>, whatever the row
  is: the cache hit branch of \<open>GetInventory\<close> drops the row it has just read.
\<close>

theorem cached_get_forgets:
  assumes "redis_up (e_redis env) view"
    and "result (invcache_GetInventory env (invdb_Store env) l s) w = Inr iv"
    and "\<forall>t. view (w_redis w) (inventoryKey l s) \<noteq> Some (RString t)"
    and "rows_ok w" and "\<forall>k row. inv_rows w k = Some row \<longrightarrow> int64_in (inv_UpdatedAt row div 1000000000)"
  shows "result (invcache_GetInventory env (invdb_Store env) l s)
    (exec (invcache_GetInventory env (invdb_Store env) l s) w) = Inr Inventory_zero"
proof (rule cache_redis.get_twice [OF cache_redis.intro [OF assms(1)] assms(2)])
  show "\<forall>t. cache_entry view w l s \<noteq> Some (RString t)"
    using assms(3) by (simp add: cache_entry_def)
next
  fix row
  let ?w1 = "exec (readCache env l s) w"
  assume "result (st_GetInventory (invdb_Store env) l s) ?w1 = Inr row"
  then have "inv_rows w (l, s) = Some row"
    using invdb.get_ok [of env l s ?w1 row] by (simp add: readCache_run)
  then show "w_redis (exec (st_GetInventory (invdb_Store env) l s) ?w1) = w_redis ?w1 \<and>
      inv_key row = (l, s) \<and> int64_in (inv_UpdatedAt row div 1000000000)"
    using assms(4,5) by (auto simp: invdb_Store_def get_exec rows_ok_def)
qed

theorem cached_get_forgets_witness:
  "result (invcache_GetInventory quiet_env (invdb_Store quiet_env) ''JHB'' ''S1'')
    (exec (invcache_GetInventory quiet_env (invdb_Store quiet_env) ''JHB'' ''S1'') demo_world) =
      Inr Inventory_zero"
proof (rule cached_get_forgets [OF quiet_redis_up])
  show "result (invcache_GetInventory quiet_env (invdb_Store quiet_env) ''JHB'' ''S1'') demo_world =
      Inr (bus_of_row demo_row)"
    by (simp add: invcache_GetInventory_def readCache_run split_beta invdb_Store_def get_result_cases
        decode_entry_def mem_api_def demo_world_def inv_rows_def)
  show "rows_ok demo_world"
    using demo_row_ok by (simp add: rows_ok_def demo_rows)
qed (simp_all add: demo_rows, simp_all add: demo_world_def mem_view_def demo_row_def bus_of_row_def int64_in_def)

text \<open>
  when an update through the cached store reports success, the row's cache entry is gone,
  so no later read can return quantities from before the update; an update that the
  database refused leaves the cache alone.
\<close>

theorem cached_update_invalidates:
  assumes "redis_laws (e_redis env) view"
  shows "(result (invcache_UpdateInventory env S iv) w = None \<longrightarrow>
      cache_entry view (exec (invcache_UpdateInventory env S iv) w) (inv_LocationID iv) (inv_SKU iv) = None) \<and>
    (result (st_UpdateInventory S iv) w \<noteq> None \<longrightarrow>
      run_state (invcache_UpdateInventory env S iv) w = run_state (st_UpdateInventory S iv) w)"
  using redis_laws.del_ok [OF assms]
  by (auto simp: invcache_UpdateInventory_def deleteCache_def on_redis_def cache_entry_def split_beta
      prod_eq_iff split: option.splits)

theorem cached_update_invalidates_witness:
  "cache_entry mem_view (exec (invcache_UpdateInventory quiet_env (invdb_Store quiet_env)
    (bus_of_row demo_row)) demo_world) ''JHB'' ''S1'' = None"
proof -
  have "result (invdb_UpdateInventory quiet_env (bus_of_row demo_row)) demo_world = None"
    using demo_row_ok by (simp add: update_run result_pg_None update_succeeds demo_rows inv_ok_parts)
  then have "result (invcache_UpdateInventory quiet_env (invdb_Store quiet_env) (bus_of_row demo_row))
      demo_world = None"
    by (simp add: invcache_UpdateInventory_def split_beta invdb_Store_def deleteCache_def on_redis_def mem_api_def)
  moreover have "redis_laws (e_redis quiet_env) mem_view"
    by (simp add: mem.redis_laws_axioms)
  ultimately have "cache_entry mem_view (exec (invcache_UpdateInventory quiet_env (invdb_Store quiet_env)
      (bus_of_row demo_row)) demo_world) (inv_LocationID (bus_of_row demo_row)) (inv_SKU (bus_of_row demo_row)) = None"
    using cached_update_invalidates by blast
  then show ?thesis
    by (simp add: bus_of_row_def demo_row_def)
qed

text \<open>
  rows of locations whose identifiers hold no colon never share a cache key; with a
  colon in the identifiers two different rows can share one.
\<close>

theorem inventoryKey_separates:
  "(CHR '':'' \<notin> set l \<longrightarrow> CHR '':'' \<notin> set l' \<longrightarrow>
      inventoryKey l s = inventoryKey l' s' \<longrightarrow> (l, s) = (l', s')) \<and>
    inventoryKey ''JHB'' ''1:2'' = inventoryKey ''JHB:1'' ''2''"
  by (simp add: inventoryKey_inject) (simp add: inventoryKey_def)

theorem inventoryKey_separates_witness:
  "inventoryKey ''JHB'' ''S1'' \<noteq> inventoryKey ''CPT'' ''S1''"
  using inventoryKey_separates [of "''JHB''" "''CPT''" "''S1''" "''S1''"] by auto

end
