(* ===== verification/Events.thy ===== *)
theory Events
  imports Prelude
begin

section \<open>Event messages and subjects of the inventory service\<close>

text \<open>
  The protobuf messages the inventory service consumes and publishes
  (\<open>services/inventory/internal/service/events\<close>) and the subjects they travel on
  (\<open>messaging/subjects.go\<close>). A message is a record of its proto fields; the runtime's
  bookkeeping fields (\<open>state\<close>, \<open>unknownFields\<close>, \<open>sizeCache\<close>) carry no data
  of the program. A message pointer that may be nil is an \<open>option\<close>. The \<open>_zero\<close>
  values are what \<open>Reset\<close> stores and what \<open>newMsg\<close> hands to the decoder.
\<close>

subsection \<open>Metadata\<close>

record EventMetadata =
  md_EventId :: string
  md_EventType :: string
  md_OccurredAt :: "gotime option"
  md_Producer :: string
  md_TenantId :: string
  md_SchemaVersion :: int64

subsection \<open>Consumed messages\<close>

record OrderPlaced =
  op_Metadata :: "EventMetadata option"
  op_OrderId :: string
  op_WarehouseId :: string
  op_Sku :: string
  op_Quantity :: int64

definition OrderPlaced_zero :: OrderPlaced where
  "OrderPlaced_zero = \<lparr>op_Metadata = None, op_OrderId = [], op_WarehouseId = [], op_Sku = [],
     op_Quantity = 0\<rparr>"

record OrderCancelled =
  oc_Metadata :: "EventMetadata option"
  oc_OrderId :: string
  oc_WarehouseId :: string
  oc_Sku :: string
  oc_Quantity :: int64

definition OrderCancelled_zero :: OrderCancelled where
  "OrderCancelled_zero = \<lparr>oc_Metadata = None, oc_OrderId = [], oc_WarehouseId = [], oc_Sku = [],
     oc_Quantity = 0\<rparr>"

record OrderShipped =
  os_Metadata :: "EventMetadata option"
  os_OrderId :: string
  os_WarehouseId :: string
  os_Sku :: string
  os_Quantity :: int64

definition OrderShipped_zero :: OrderShipped where
  "OrderShipped_zero = \<lparr>os_Metadata = None, os_OrderId = [], os_WarehouseId = [], os_Sku = [],
     os_Quantity = 0\<rparr>"

record ShipmentCreated =
  sc_Metadata :: "EventMetadata option"
  sc_ShipmentId :: string
  sc_OrderId :: string
  sc_WarehouseId :: string
  sc_Sku :: string
  sc_Quantity :: int64
  sc_DestinationId :: string
  sc_ExpectedDeliveryTime :: int64

definition ShipmentCreated_zero :: ShipmentCreated where
  "ShipmentCreated_zero = \<lparr>sc_Metadata = None, sc_ShipmentId = [], sc_OrderId = [],
     sc_WarehouseId = [], sc_Sku = [], sc_Quantity = 0, sc_DestinationId = [],
     sc_ExpectedDeliveryTime = 0\<rparr>"

record ShipmentCancelled =
  sx_Metadata :: "EventMetadata option"
  sx_OrderId :: string
  sx_WarehouseId :: string
  sx_ShipmentId :: string
  sx_DestinationId :: string
  sx_Sku :: string
  sx_Quantity :: int64
  sx_OccurredAt :: int64

definition ShipmentCancelled_zero :: ShipmentCancelled where
  "ShipmentCancelled_zero = \<lparr>sx_Metadata = None, sx_OrderId = [], sx_WarehouseId = [],
     sx_ShipmentId = [], sx_DestinationId = [], sx_Sku = [], sx_Quantity = 0, sx_OccurredAt = 0\<rparr>"

record ShipmentDelivered =
  sd_Metadata :: "EventMetadata option"
  sd_OrderId :: string
  sd_WarehouseId :: string
  sd_Sku :: string
  sd_Quantity :: int64
  sd_ShipmentId :: string
  sd_DestinationId :: string

definition ShipmentDelivered_zero :: ShipmentDelivered where
  "ShipmentDelivered_zero = \<lparr>sd_Metadata = None, sd_OrderId = [], sd_WarehouseId = [],
     sd_Sku = [], sd_Quantity = 0, sd_ShipmentId = [], sd_DestinationId = []\<rparr>"

subsection \<open>Published messages\<close>

datatype InventoryUpdated_UpdateReason =
    InventoryUpdated_UPDATE_REASON_UNSPECIFIED
  | InventoryUpdated_ORDER_PLACED
  | InventoryUpdated_ORDER_CANCELLED
  | InventoryUpdated_SHIPMENT_CREATED
  | InventoryUpdated_SHIPMENT_RECEIVED
  | InventoryUpdated_SHIPMENT_DISPATCHED
  | InventoryUpdated_SHIPMENT_CANCELLED
  | InventoryUpdated_SHIPMENT_DELIVERED
  | InventoryUpdated_REALLOCATION
  | InventoryUpdated_MANUAL_ADJUSTMENT
  | InventoryUpdated_RESERVATION
  | InventoryUpdated_RELEASE

datatype InventoryReservationFailed_FailureReason =
    InventoryReservationFailed_FAILURE_REASON_UNSPECIFIED
  | InventoryReservationFailed_INSUFFICIENT_STOCK
  | InventoryReservationFailed_SKU_NOT_FOUND
  | InventoryReservationFailed_WAREHOUSE_NOT_FOUND
  | InventoryReservationFailed_INVENTORY_LOCKED
  | InventoryReservationFailed_CONCURRENT_MODIFICATION
  | InventoryReservationFailed_INVENTORY_SERVICE_UNAVAILABLE
  | InventoryReservationFailed_INVALID_REQUEST

record InventoryUpdated =
  iu_Metadata :: "EventMetadata option"
  iu_WarehouseId :: string
  iu_Sku :: string
  iu_QuantityAvailable :: int64
  iu_QuantityReserved :: int64
  iu_QuantityIncoming :: int64
  iu_Reason :: InventoryUpdated_UpdateReason

record InventoryReserved =
  ir_Metadata :: "EventMetadata option"
  ir_WarehouseId :: string
  ir_Sku :: string
  ir_ReservationId :: string
  ir_OrderId :: string
  ir_ReservedQuantity :: int64
  ir_QuantityAvailableAfter :: int64
  ir_QuantityReservedAfter :: int64

record InventoryReservationFailed =
  if_Metadata :: "EventMetadata option"
  if_WarehouseId :: string
  if_Sku :: string
  if_OrderId :: string
  if_RequestedQuantity :: int64
  if_AvailableQuantity :: int64
  if_Reason :: InventoryReservationFailed_FailureReason

text \<open>The \<open>proto.Message\<close> values handed to \<open>Publisher.Publish\<close>.\<close>

datatype inv_event =
    EvReserved InventoryReserved
  | EvUpdated InventoryUpdated
  | EvReservationFailed InventoryReservationFailed

subsection \<open>Subjects\<close>

definition Subject_ShipmentCreated :: string where
  "Subject_ShipmentCreated = ''shipment.created''"

definition Subject_ShipmentCancelled :: string where
  "Subject_ShipmentCancelled = ''shipment.cancelled''"

definition Subject_ShipmentDelivered :: string where
  "Subject_ShipmentDelivered = ''shipment.delivered''"

definition Subject_OrderPlaced :: string where
  "Subject_OrderPlaced = ''order.placed''"

definition Subject_OrderCanceled :: string where
  "Subject_OrderCanceled = ''order.cancelled''"

definition Subject_OrderShipped :: string where
  "Subject_OrderShipped = ''order.shipped''"

definition Subject_InventoryUpdated :: string where
  "Subject_InventoryUpdated = ''inventory.updated''"

definition Subject_InventoryReserved :: string where
  "Subject_InventoryReserved = ''inventory.reserved''"

definition Subject_InventoryReservationFailed :: string where
  "Subject_InventoryReservationFailed = ''inventory.reservation.failed''"

text \<open>The subjects that nothing in the repository publishes or consumes yet.\<close>

definition Subject_SaleCompleted :: string where
  "Subject_SaleCompleted = ''sale.completed''"

definition Subject_SaleRefunded :: string where
  "Subject_SaleRefunded = ''sale.refunded''"

definition Subject_DemandReorderTriggered :: string where
  "Subject_DemandReorderTriggered = ''demand.reorder.triggered''"

definition Subject_InventoryReservationReleased :: string where
  "Subject_InventoryReservationReleased = ''inventory.reservation.released''"

definition Subject_InventoryLowStock :: string where
  "Subject_InventoryLowStock = ''inventory.low.stock''"

definition Subject_InventoryOutOfStock :: string where
  "Subject_InventoryOutOfStock = ''inventory.out.of.stock''"

definition Subject_InventoryReallocated :: string where
  "Subject_InventoryReallocated = ''inventory.reallocated''"

definition Subject_InventoryTransferStarted :: string where
  "Subject_InventoryTransferStarted = ''inventory.transfer.started''"

definition Subject_InventoryTransferCompleted :: string where
  "Subject_InventoryTransferCompleted = ''inventory.transfer.completed''"

definition Subject_InventoryAdjusted :: string where
  "Subject_InventoryAdjusted = ''inventory.adjusted''"

definition Subject_InventoryShortageDetected :: string where
  "Subject_InventoryShortageDetected = ''inventory.shortage.detected''"

end
