(* ===== verification/Inv_Messaging.thy ===== *)
theory Inv_Messaging
  imports World Events
begin

section \<open>Messaging of the inventory service\<close>

text \<open>
  \<open>services/inventory/internal/messaging\<close>: the publisher and its dead letter queue, the
  Redis idempotency store and the \<open>WithIdempotency\<close> wrapper, the consumer callback of
  \<open>Subscriber.Consume\<close> with its panic recovery and settlement, and \<open>EnsureStream\<close>.
  The contract of an idempotency store is the locale \<open>idem_store\<close>; a Redis server that
  obeys its documentation gives it (\<open>sublocale redis_idem \<subseteq> idem_store\<close>).
\<close>

subsection \<open>Publisher\<close>

definition Publish ::
  "('c, 'm) env \<Rightarrow> string \<Rightarrow> 'm \<Rightarrow> (('c, 'x) world_scheme, goerr option) state" where
  [run_defs]: "Publish env subject msg =
     (case e_marshal env msg of
        Inl err \<Rightarrow> State_Monad.return (Some err)
      | Inr data \<Rightarrow>
          do {
            hdr \<leftarrow> inject_header env Map.empty;
            msgId \<leftarrow> uuid_NewString env;
            js_PublishMsg env
              \<lparr>pc_Subject = subject, pc_Data = data, pc_Header = hdr, pc_MsgId = msgId\<rparr>
          })"

text \<open>A message as the subscription delivers it; \<open>None\<close>: \<open>Metadata()\<close> failed.\<close>

record nats_msg =
  nm_Subject :: string
  nm_Data :: string
  nm_Header :: header
  nm_NumDelivered :: "nat option"

definition dlq_call :: "nats_msg \<Rightarrow> string \<Rightarrow> string \<Rightarrow> pub_call" where
  "dlq_call original reason msgId =
     \<lparr>pc_Subject = ''dlq.'' @ nm_Subject original,
      pc_Data = nm_Data original,
      pc_Header = (nm_Header original)
        (''dlq-reason'' \<mapsto> [reason], ''dlq-original-subject'' \<mapsto> [nm_Subject original]),
      pc_MsgId = msgId\<rparr>"

definition PublishDLQ ::
  "('c, 'm) env \<Rightarrow> nats_msg \<Rightarrow> string \<Rightarrow> (('c, 'x) world_scheme, goerr option) state" where
  [run_defs]: "PublishDLQ env original reason =
     do {
       msgId \<leftarrow> uuid_NewString env;
       js_PublishMsg env (dlq_call original reason msgId)
     }"

subsection \<open>Handlers and idempotency\<close>

type_synonym ('w, 'evt) Handler = "'evt \<Rightarrow> ('w, goerr option call) state"

record 'w RedisIdempotencyStore =
  Seen :: "string \<Rightarrow> ('w, bool \<times> goerr option) state"
  Mark :: "string \<Rightarrow> int \<Rightarrow> ('w, goerr option) state"

definition WithIdempotency ::
  "'w RedisIdempotencyStore \<Rightarrow> int \<Rightarrow> ('evt \<Rightarrow> string) \<Rightarrow> ('w, 'evt) Handler \<Rightarrow> ('w, 'evt) Handler" where
  [run_defs]: "WithIdempotency idem ttl extractID next evt =
     (let eid = extractID evt in
      if eid = [] then next evt
      else
        do {
          s \<leftarrow> Seen idem eid;
          if fst s then State_Monad.return (Returns None)
          else
            do {
              r \<leftarrow> next evt;
              case r of
                Panics p \<Rightarrow> State_Monad.return (Panics p)
              | Returns e \<Rightarrow>
                  (case e of
                     Some err \<Rightarrow> State_Monad.return (Returns (Some err))
                   | None \<Rightarrow> do { m \<leftarrow> Mark idem eid ttl; State_Monad.return (Returns m) })
            }
        })"

definition redis_Seen ::
  "('c, 'm) env \<Rightarrow> string \<Rightarrow> (('c, 'x) world_scheme, bool \<times> goerr option) state" where
  [run_defs]: "redis_Seen env eid =
     do {
       r \<leftarrow> on_redis (Exists (e_redis env) (''evt:'' @ eid));
       State_Monad.return (0 < fst r, snd r)
     }"

definition redis_Mark ::
  "('c, 'm) env \<Rightarrow> string \<Rightarrow> int \<Rightarrow> (('c, 'x) world_scheme, goerr option) state" where
  [run_defs]: "redis_Mark env eid ttl = on_redis (SetTTL (e_redis env) (''evt:'' @ eid) ''1'' ttl)"

definition redis_TryClaim ::
  "('c, 'm) env \<Rightarrow> string \<Rightarrow> int \<Rightarrow> (('c, 'x) world_scheme, bool \<times> goerr option) state" where
  [run_defs]: "redis_TryClaim env eid ttl = on_redis (SetNX (e_redis env) (''evt:'' @ eid) ''1'' ttl)"

definition redis_idem_store :: "('c, 'm) env \<Rightarrow> (('c, 'x) world_scheme) RedisIdempotencyStore" where
  "redis_idem_store env = \<lparr>Seen = redis_Seen env, Mark = redis_Mark env\<rparr>"

subsection \<open>The contract of an idempotency store\<close>

locale idem_store =
  fixes idem :: "'w RedisIdempotencyStore"
    and marked :: "'w \<Rightarrow> string \<Rightarrow> bool"
  assumes seen_pure: "marked (exec (Seen idem eid) w) = marked w"
    and seen_marked: "fst (result (Seen idem eid) w) \<Longrightarrow> marked w eid"
    and seen_ok: "snd (result (Seen idem eid) w) = None \<Longrightarrow> fst (result (Seen idem eid) w) = marked w eid"
    and mark_ok: "result (Mark idem eid ttl) w = None \<Longrightarrow> marked (exec (Mark idem eid ttl) w) eid"
    and mark_frame: "eid' \<noteq> eid \<Longrightarrow> marked (exec (Mark idem eid ttl) w) eid' = marked w eid'"
begin

text \<open>A marked event is acknowledged without running the handler.\<close>

lemma skip_marked:
  assumes "extractID evt \<noteq> []" and "marked w (extractID evt)"
    and "snd (result (Seen idem (extractID evt)) w) = None"
  shows "run_state (WithIdempotency idem ttl extractID h evt) w =
    (Returns None, exec (Seen idem (extractID evt)) w)"
  using assms seen_ok [of "extractID evt" w]
  by (simp add: WithIdempotency_def Let_def split_beta)

text \<open>An event that is not marked reaches the handler, and is marked when it succeeds.\<close>

lemma run_unmarked:
  assumes "extractID evt \<noteq> []" and "\<not> marked w (extractID evt)"
  shows "run_state (WithIdempotency idem ttl extractID h evt) w =
    (let w1 = exec (Seen idem (extractID evt)) w; r = result (h evt) w1; w2 = exec (h evt) w1 in
     if r = Returns None
     then (Returns (result (Mark idem (extractID evt) ttl) w2), exec (Mark idem (extractID evt) ttl) w2)
     else (r, w2))"
  using assms seen_marked [of "extractID evt" w]
  by (auto simp: WithIdempotency_def Let_def split_beta prod_eq_iff split: call.splits option.splits)

lemma success_marks:
  assumes "extractID evt \<noteq> []" and "result (WithIdempotency idem ttl extractID h evt) w = Returns None"
  shows "marked (exec (WithIdempotency idem ttl extractID h evt) w) (extractID evt)"
proof (cases "fst (result (Seen idem (extractID evt)) w)")
  case True
  then show ?thesis
    using assms seen_marked [of "extractID evt" w] seen_pure [of "extractID evt" w]
    by (simp add: WithIdempotency_def Let_def split_beta)
next
  case False
  then show ?thesis
    using assms mark_ok
    by (auto simp: WithIdempotency_def Let_def split_beta split: call.splits option.splits)
qed

end

definition marked_in ::
  "('c \<Rightarrow> string \<Rightarrow> redis_val option) \<Rightarrow> ('c, 'x) world_scheme \<Rightarrow> string \<Rightarrow> bool" where
  "marked_in view w eid \<longleftrightarrow> view (w_redis w) (''evt:'' @ eid) \<noteq> None"

locale redis_idem = redis_laws "e_redis env" view
  for env :: "('c, 'm) env" and view :: "'c \<Rightarrow> string \<Rightarrow> redis_val option"

sublocale redis_idem \<subseteq> store: idem_store "redis_idem_store env" "marked_in view"
proof unfold_locales
  fix eid eid' ttl w
  show "marked_in view (exec (Seen (redis_idem_store env) eid) w) = marked_in view w"
    by (simp add: redis_idem_store_def redis_Seen_def on_redis_def marked_in_def split_beta
        exists_pure fun_eq_iff)
  show "fst (result (Seen (redis_idem_store env) eid) w) \<Longrightarrow> marked_in view w eid"
    using exists_marked [of "''evt:'' @ eid" "w_redis w"]
    by (simp add: redis_idem_store_def redis_Seen_def on_redis_def marked_in_def split_beta)
  show "snd (result (Seen (redis_idem_store env) eid) w) = None \<Longrightarrow>
      fst (result (Seen (redis_idem_store env) eid) w) = marked_in view w eid"
    using exists_ok [of "''evt:'' @ eid" "w_redis w"
        "fst (fst (Exists (e_redis env) (''evt:'' @ eid) (w_redis w)))"]
    by (auto simp: redis_idem_store_def redis_Seen_def on_redis_def marked_in_def split_beta
        prod_eq_iff)
  show "result (Mark (redis_idem_store env) eid ttl) w = None \<Longrightarrow>
      marked_in view (exec (Mark (redis_idem_store env) eid ttl) w) eid"
    by (simp add: redis_idem_store_def redis_Mark_def on_redis_def marked_in_def split_beta set_ok)
  show "eid' \<noteq> eid \<Longrightarrow>
      marked_in view (exec (Mark (redis_idem_store env) eid ttl) w) eid' = marked_in view w eid'"
    by (simp add: redis_idem_store_def redis_Mark_def on_redis_def marked_in_def split_beta set_frame)
qed

context redis_idem
begin

lemma handled_marks:
  assumes "extractID evt \<noteq> []"
    and "result (WithIdempotency (redis_idem_store env) ttl extractID h evt) w = Returns None"
  shows "marked_in view (exec (WithIdempotency (redis_idem_store env) ttl extractID h evt) w) (extractID evt)"
  by (rule store.success_marks [OF assms])

lemma marked_skips:
  assumes "extractID evt \<noteq> []" and "marked_in view w (extractID evt)"
    and "snd (result (redis_Seen env (extractID evt)) w) = None"
  shows "run_state (WithIdempotency (redis_idem_store env) ttl extractID h evt) w =
    (Returns None, exec (redis_Seen env (extractID evt)) w)"
  using store.skip_marked [of extractID evt w ttl h] assms by (simp add: redis_idem_store_def)

lemma second_delivery:
  assumes "extractID evt \<noteq> []"
    and "result (WithIdempotency (redis_idem_store env) ttl extractID h evt) w = Returns None"
    and "w' = exec (WithIdempotency (redis_idem_store env) ttl extractID h evt) w"
    and "snd (result (redis_Seen env (extractID evt)) w') = None"
  shows "run_state (WithIdempotency (redis_idem_store env) ttl' extractID h' evt) w' =
    (Returns None, exec (redis_Seen env (extractID evt)) w')"
  unfolding assms(3)
  using marked_skips [of extractID evt w' ttl' h'] handled_marks [of extractID evt ttl h w] assms by simp

end

interpretation mem_idem: redis_idem "env\<lparr>e_redis := mem_api\<rparr>" mem_view
  by (simp add: redis_idem_def mem.redis_laws_axioms)

subsection \<open>The consumer callback\<close>

text \<open>
  The callback that \<open>Consume\<close> (and its twin \<open>Consumes\<close>) registers. The deferred
  recovery sends a message whose handler panicked to the dead letter queue.
\<close>

definition consume_msg ::
  "('c, 'm) env \<Rightarrow> (string \<Rightarrow> goerr + 'evt) \<Rightarrow> (('c, 'x) world_scheme, 'evt) Handler \<Rightarrow> nats_msg \<Rightarrow>
   (('c, 'x) world_scheme, unit) state" where
  [run_defs]: "consume_msg env Unmarshal handler msg =
     (case Unmarshal (nm_Data msg) of
        Inl _ \<Rightarrow> do { _ \<leftarrow> PublishDLQ env msg ''unmarshal_error''; settle Term }
      | Inr evt \<Rightarrow>
          do {
            r \<leftarrow> handler evt;
            case r of
              Panics p \<Rightarrow> do { _ \<leftarrow> PublishDLQ env msg ''panic''; settle Term }
            | Returns e \<Rightarrow>
                (case e of
                   None \<Rightarrow> settle Ack
                 | Some err \<Rightarrow>
                     (case nm_NumDelivered msg of
                        Some n \<Rightarrow>
                          if 5 \<le> n then do { _ \<leftarrow> PublishDLQ env msg (error_text err); settle Term }
                          else settle Nak
                      | None \<Rightarrow> settle Nak))
          })"

text \<open>
  The callback of the older method \<open>Consumes\<close>, which the service does not use, is the
  same function.
\<close>

definition consumes_msg ::
  "('c, 'm) env \<Rightarrow> (string \<Rightarrow> goerr + 'evt) \<Rightarrow> (('c, 'x) world_scheme, 'evt) Handler \<Rightarrow> nats_msg \<Rightarrow>
   (('c, 'x) world_scheme, unit) state" where
  "consumes_msg env Unmarshal handler msg =
     (case Unmarshal (nm_Data msg) of
        Inl _ \<Rightarrow> do { _ \<leftarrow> PublishDLQ env msg ''unmarshal_error''; settle Term }
      | Inr evt \<Rightarrow>
          do {
            r \<leftarrow> handler evt;
            case r of
              Panics p \<Rightarrow> do { _ \<leftarrow> PublishDLQ env msg ''panic''; settle Term }
            | Returns None \<Rightarrow> settle Ack
            | Returns (Some err) \<Rightarrow>
                (if nm_NumDelivered msg \<noteq> None \<and> 5 \<le> the (nm_NumDelivered msg)
                 then do { _ \<leftarrow> PublishDLQ env msg (error_text err); settle Term }
                 else settle Nak)
          })"

lemma consumes_msg_eq: "consumes_msg env U h msg = consume_msg env U h msg"
  by (auto simp: consumes_msg_def consume_msg_def split: sum.splits call.splits option.splits
      intro!: arg_cong2 [of _ _ _ _ State_Monad.bind])

subsection \<open>Subscriptions\<close>

text \<open>
  \<open>QueueSubscribe\<close> is the argument \<open>sb_js\<close> of a subscriber: it takes the subject, the
  queue, the callback and the options. The publisher acts on the environment, which stands
  for it. \<open>Consumes\<close> drops the subscription it gets.
\<close>

record consumer_options =
  co_Durable :: string
  co_ManualAck :: bool
  co_AckWait :: int
  co_MaxAckPending :: int

type_synonym ('w, 'sub) queue_subscribe =
  "string \<Rightarrow> string \<Rightarrow> (nats_msg \<Rightarrow> ('w, unit) state) \<Rightarrow> consumer_options \<Rightarrow> ('w, goerr + 'sub) state"

record ('w, 'sub, 'p) Subscriber =
  sb_js :: "('w, 'sub) queue_subscribe"
  sb_pub :: 'p

definition NewSubscriber :: "('w, 'sub) queue_subscribe \<Rightarrow> 'p \<Rightarrow> ('w, 'sub, 'p) Subscriber" where
  "NewSubscriber js pub = \<lparr>sb_js = js, sb_pub = pub\<rparr>"

definition consume_options :: "string \<Rightarrow> consumer_options" where
  "consume_options durable = \<lparr>co_Durable = durable, co_ManualAck = True, co_AckWait = 60 * 1000000000,
     co_MaxAckPending = 1024\<rparr>"

definition Subscriber_Consume ::
  "((('c, 'x) world_scheme), 'sub, ('c, 'm) env) Subscriber \<Rightarrow> string \<Rightarrow> string \<Rightarrow> string \<Rightarrow>
   (string \<Rightarrow> goerr + 'evt) \<Rightarrow> (('c, 'x) world_scheme, 'evt) Handler \<Rightarrow> (('c, 'x) world_scheme, goerr + 'sub) state" where
  "Subscriber_Consume s subject durable queue Unmarshal handler =
     sb_js s subject queue (consume_msg (sb_pub s) Unmarshal handler) (consume_options durable)"

definition Subscriber_Consumes ::
  "((('c, 'x) world_scheme), 'sub, ('c, 'm) env) Subscriber \<Rightarrow> string \<Rightarrow> string \<Rightarrow> string \<Rightarrow>
   (string \<Rightarrow> goerr + 'evt) \<Rightarrow> (('c, 'x) world_scheme, 'evt) Handler \<Rightarrow> (('c, 'x) world_scheme, goerr option) state" where
  "Subscriber_Consumes s subject durable queue Unmarshal handler =
     do {
       r \<leftarrow> sb_js s subject queue (consumes_msg (sb_pub s) Unmarshal handler) (consume_options durable);
       State_Monad.return (case r of Inl err \<Rightarrow> Some err | Inr _ \<Rightarrow> None)
     }"

text \<open>Both methods register the same callback with the same options.\<close>

lemma Subscriber_Consumes_eq:
  "Subscriber_Consumes s subject durable queue U h =
     do {
       r \<leftarrow> Subscriber_Consume s subject durable queue U h;
       State_Monad.return (case r of Inl err \<Rightarrow> Some err | Inr _ \<Rightarrow> None)
     }"
  by (simp add: Subscriber_Consumes_def Subscriber_Consume_def consumes_msg_eq [abs_def])

subsection \<open>Verdicts\<close>

text \<open>What the callback decides, as a function of the handler's outcome.\<close>

datatype verdict = VAck | VNak | VDeadLetter string

definition verdict_of ::
  "(string \<Rightarrow> goerr + 'evt) \<Rightarrow> (('c, 'x) world_scheme, 'evt) Handler \<Rightarrow> nats_msg \<Rightarrow>
   ('c, 'x) world_scheme \<Rightarrow> verdict" where
  "verdict_of Unmarshal handler msg w =
     (case Unmarshal (nm_Data msg) of
        Inl _ \<Rightarrow> VDeadLetter ''unmarshal_error''
      | Inr evt \<Rightarrow>
          (case result (handler evt) w of
             Panics p \<Rightarrow> VDeadLetter ''panic''
           | Returns None \<Rightarrow> VAck
           | Returns (Some err) \<Rightarrow>
               if nm_NumDelivered msg \<noteq> None \<and> 5 \<le> the (nm_NumDelivered msg)
               then VDeadLetter (error_text err) else VNak))"

definition handled ::
  "(string \<Rightarrow> goerr + 'evt) \<Rightarrow> (('c, 'x) world_scheme, 'evt) Handler \<Rightarrow> nats_msg \<Rightarrow>
   ('c, 'x) world_scheme \<Rightarrow> ('c, 'x) world_scheme" where
  "handled Unmarshal handler msg w =
     (case Unmarshal (nm_Data msg) of Inl _ \<Rightarrow> w | Inr evt \<Rightarrow> exec (handler evt) w)"

lemma consume_msg_run:
  "exec (consume_msg env Unmarshal handler msg) w =
     (let w1 = handled Unmarshal handler msg w in
      case verdict_of Unmarshal handler msg w of
        VAck \<Rightarrow> exec (settle Ack) w1
      | VNak \<Rightarrow> exec (settle Nak) w1
      | VDeadLetter reason \<Rightarrow> exec (settle Term) (exec (PublishDLQ env msg reason) w1))"
  by (simp add: consume_msg_def verdict_of_def handled_def split_beta Let_def
      split: sum.splits call.splits option.splits)

lemma settled_after:
  "w_settled (exec (settle s) w) = w_settled w @ [s]"
  "w_settled (exec (PublishDLQ env msg reason) w) = w_settled w"
  "w_pub (exec (settle s) w) = w_pub w"
  "w_pub (exec (PublishDLQ env msg reason) w) =
     w_pub w @ [dlq_call msg reason (e_uuid env (w_tick w))]"
  by (simp_all add: run_defs tick_def)

subsection \<open>Redelivery\<close>

text \<open>
  JetStream delivers a message that was answered with \<open>Nak\<close> again, with the next
  delivery count. The loop below runs the callback until the message is settled for good
  and returns the number of deliveries used.
\<close>

definition delivery :: "nats_msg \<Rightarrow> nat \<Rightarrow> nats_msg" where
  "delivery msg n = msg\<lparr>nm_NumDelivered := Some n\<rparr>"

lemma verdict_Nak_bound:
  "verdict_of Unmarshal handler (delivery msg n) w = VNak \<Longrightarrow> n < 5"
  by (auto simp: verdict_of_def delivery_def split: sum.splits call.splits option.splits if_splits)

function redeliver ::
  "('c, 'm) env \<Rightarrow> (string \<Rightarrow> goerr + 'evt) \<Rightarrow> (('c, 'x) world_scheme, 'evt) Handler \<Rightarrow> nats_msg \<Rightarrow>
   nat \<Rightarrow> ('c, 'x) world_scheme \<Rightarrow> nat \<times> ('c, 'x) world_scheme" where
  "redeliver env Unmarshal handler msg n w =
     (let w' = exec (consume_msg env Unmarshal handler (delivery msg n)) w in
      if verdict_of Unmarshal handler (delivery msg n) w = VNak
      then redeliver env Unmarshal handler msg (Suc n) w'
      else (n, w'))"
  by pat_completeness auto
termination
  by (relation "measure (\<lambda>(env, Unmarshal, handler, msg, n, w). 5 - n)")
    (auto dest: verdict_Nak_bound)

declare redeliver.simps [simp del]

subsection \<open>EnsureStream\<close>

datatype storage = FileStorage | MemoryStorage

record stream_config =
  str_Name :: string
  str_Subjects :: "string list"
  str_Storage :: storage
  str_MaxAge :: int

text \<open>The stream management calls of JetStream.\<close>

record 'w stream_admin =
  js_StreamInfo :: "string \<Rightarrow> ('w, goerr + stream_config) state"
  js_UpdateStream :: "stream_config \<Rightarrow> ('w, goerr option) state"
  js_AddStream :: "stream_config \<Rightarrow> ('w, goerr option) state"

definition three_days :: int where
  "three_days = 72 * 3600 * 1000000000"

definition events_stream :: "string \<Rightarrow> stream_config" where
  "events_stream env_name = \<lparr>str_Name = ''EVENTS'', str_Subjects = [env_name @ ''.>''],
     str_Storage = FileStorage, str_MaxAge = three_days\<rparr>"

definition EnsureStream :: "'w stream_admin \<Rightarrow> string \<Rightarrow> ('w, goerr option) state" where
  [run_defs]: "EnsureStream js env_name =
     do {
       info \<leftarrow> js_StreamInfo js ''EVENTS'';
       let cfg = events_stream env_name;
       case info of
         Inr config \<Rightarrow>
           if str_MaxAge config \<noteq> str_MaxAge cfg then js_UpdateStream js cfg
           else State_Monad.return None
       | Inl _ \<Rightarrow> js_AddStream js cfg
     }"

subsection \<open>Properties\<close>

text \<open>A handler that leaves the settlements of the world to the callback.\<close>

definition settles_nothing :: "(('c, 'x) world_scheme, 'evt) Handler \<Rightarrow> bool" where
  "settles_nothing h \<longleftrightarrow> (\<forall>evt w. w_settled (exec (h evt) w) = w_settled w)"

lemma handled_settled: "settles_nothing h \<Longrightarrow> w_settled (handled U h msg w) = w_settled w"
  by (simp add: handled_def settles_nothing_def split: sum.splits)

definition settlement_of :: "verdict \<Rightarrow> settlement" where
  "settlement_of v = (case v of VAck \<Rightarrow> Ack | VNak \<Rightarrow> Nak | VDeadLetter reason \<Rightarrow> Term)"

lemma consume_settled:
  assumes "settles_nothing h"
  shows "w_settled (exec (consume_msg env U h msg) w) = w_settled w @ [settlement_of (verdict_of U h msg w)]"
  by (simp add: consume_msg_run Let_def settled_after handled_settled [OF assms] settlement_of_def
      split: verdict.splits)

text \<open>
  C22: the consumer callback settles every message exactly once, on every path, a panicking
  handler included: Ack when the handler succeeded, Nak when it failed before the fifth
  delivery, Term otherwise; and it hands the message to the dead letter queue exactly when
  it answers Term, with the reason and under the subject \<open>dlq.\<close> and the original one.
\<close>

theorem consume_settles_once:
  assumes "settles_nothing h"
  shows "\<exists>s. w_settled (exec (consume_msg env U h msg) w) = w_settled w @ [s] \<and>
    (s = Ack \<longleftrightarrow> (\<exists>evt. U (nm_Data msg) = Inr evt \<and> result (h evt) w = Returns None)) \<and>
    (s = Nak \<longleftrightarrow> (\<exists>evt err. U (nm_Data msg) = Inr evt \<and> result (h evt) w = Returns (Some err) \<and>
      (\<forall>n. nm_NumDelivered msg = Some n \<longrightarrow> n < 5))) \<and>
    w_pub (exec (consume_msg env U h msg) w) = w_pub (handled U h msg w) @
      (case verdict_of U h msg w of
         VDeadLetter reason \<Rightarrow> [dlq_call msg reason (e_uuid env (w_tick (handled U h msg w)))]
       | _ \<Rightarrow> []) \<and>
    (s = Term \<longleftrightarrow> (\<exists>reason. verdict_of U h msg w = VDeadLetter reason))"
proof -
  let ?v = "verdict_of U h msg w"
  have "w_pub (exec (consume_msg env U h msg) w) = w_pub (handled U h msg w) @
      (case ?v of VDeadLetter reason \<Rightarrow> [dlq_call msg reason (e_uuid env (w_tick (handled U h msg w)))] | _ \<Rightarrow> [])"
    by (simp add: consume_msg_run Let_def settled_after split: verdict.splits)
  moreover have "settlement_of ?v = Ack \<longleftrightarrow>
      (\<exists>evt. U (nm_Data msg) = Inr evt \<and> result (h evt) w = Returns None)"
    by (auto simp: settlement_of_def verdict_of_def split: sum.splits call.splits option.splits)
  moreover have "settlement_of ?v = Nak \<longleftrightarrow>
      (\<exists>evt err. U (nm_Data msg) = Inr evt \<and> result (h evt) w = Returns (Some err) \<and>
        (\<forall>n. nm_NumDelivered msg = Some n \<longrightarrow> n < 5))"
    by (auto simp: settlement_of_def verdict_of_def split: sum.splits call.splits option.splits)
  moreover have "settlement_of ?v = Term \<longleftrightarrow> (\<exists>reason. ?v = VDeadLetter reason)"
    by (simp add: settlement_of_def split: verdict.splits)
  ultimately show ?thesis
    using consume_settled [OF assms, of env U msg w] by blast
qed

text \<open>A message, and handlers that fail and panic, for the concrete runs.\<close>

definition demo_msg :: nats_msg where
  "demo_msg = \<lparr>nm_Subject = ''order.placed'', nm_Data = [], nm_Header = Map.empty, nm_NumDelivered = Some 1\<rparr>"

definition failing_handler :: "(('c, 'x) world_scheme, unit) Handler" where
  "failing_handler evt = State_Monad.return (Returns (Some (ErrNew ''boom'')))"

lemma failing_settles_nothing: "settles_nothing failing_handler"
  by (simp add: settles_nothing_def failing_handler_def)

theorem consume_settles_once_witness:
  "\<exists>s. w_settled (exec (consume_msg quiet_env (\<lambda>_. Inr ()) failing_handler demo_msg)
    calm_world) = [s] \<and> s = Nak"
  using consume_settles_once [OF failing_settles_nothing, of quiet_env
      "\<lambda>_. Inr ()" demo_msg calm_world]
  by (auto simp: failing_handler_def demo_msg_def calm_world_def)

lemma redeliver_settled:
  assumes "settles_nothing h" and "n \<le> 5"
  shows "n \<le> fst (redeliver env U h msg n w) \<and> fst (redeliver env U h msg n w) \<le> 5 \<and>
    (\<exists>s. s \<noteq> Nak \<and> w_settled (snd (redeliver env U h msg n w)) =
      w_settled w @ replicate (fst (redeliver env U h msg n w) - n) Nak @ [s])"
  using assms
proof (induction env U h msg n w rule: redeliver.induct)
  case (1 env U h msg n w)
  let ?w' = "exec (consume_msg env U h (delivery msg n)) w"
  let ?r = "redeliver env U h msg (Suc n) ?w'"
  have set: "w_settled ?w' = w_settled w @ [settlement_of (verdict_of U h (delivery msg n) w)]"
    by (rule consume_settled [OF 1(2)])
  show ?case
  proof (cases "verdict_of U h (delivery msg n) w = VNak")
    case True
    then have "Suc n \<le> 5"
      using verdict_Nak_bound by fastforce
    from 1(1) [OF refl True 1(2) this] obtain s where ih: "Suc n \<le> fst ?r" "fst ?r \<le> 5" "s \<noteq> Nak"
      "w_settled (snd ?r) = w_settled ?w' @ replicate (fst ?r - Suc n) Nak @ [s]"
      by blast
    from ih(1) have "Nak # replicate (fst ?r - Suc n) Nak = replicate (fst ?r - n) Nak"
      by (simp add: Suc_diff_Suc flip: replicate_Suc)
    moreover have "redeliver env U h msg n w = ?r"
      using True by (subst redeliver.simps) (simp add: Let_def)
    ultimately show ?thesis
      using ih set True by (auto simp: settlement_of_def)
  next
    case False
    then have "redeliver env U h msg n w = (n, ?w')"
      by (subst redeliver.simps) (simp add: Let_def)
    moreover have "settlement_of (verdict_of U h (delivery msg n) w) \<noteq> Nak"
      using False by (simp add: settlement_of_def split: verdict.splits)
    ultimately show ?thesis
      using 1(3) set by simp
  qed
qed

text \<open>
  redelivery ends: a message is delivered at most five times, whatever the handler, the
  environment and the dead letter queue do, every delivery but the last is answered with
  Nak, and the last one with Ack or Term.
\<close>

theorem redeliver_ends:
  assumes "settles_nothing h"
  shows "fst (redeliver env U h msg 1 w) \<in> {1..5} \<and>
    (\<exists>s \<in> {Ack, Term}. w_settled (snd (redeliver env U h msg 1 w)) =
      w_settled w @ replicate (fst (redeliver env U h msg 1 w) - 1) Nak @ [s])"
proof -
  have "s \<noteq> Nak \<longleftrightarrow> s \<in> {Ack, Term}" for s
    by (cases s) simp_all
  then show ?thesis
    using redeliver_settled [OF assms, of 1 env U msg w] by auto
qed

theorem redeliver_ends_witness:
  "fst (redeliver quiet_env (\<lambda>_. Inr ()) failing_handler demo_msg 1 calm_world) \<in> {1..5}"
  using redeliver_ends [OF failing_settles_nothing, of quiet_env "\<lambda>_. Inr ()" demo_msg calm_world] by blast

text \<open>
  C21: effectively once: an event whose handling succeeded is acknowledged on every later
  delivery without running the handler again, as long as its mark is in Redis and Redis
  answers.
\<close>

theorem redelivered_event_skipped:
  assumes "redis_laws (e_redis env) view" and "extractID evt \<noteq> []"
    and "result (WithIdempotency (redis_idem_store env) ttl extractID h evt) w = Returns None"
    and "w' = exec (WithIdempotency (redis_idem_store env) ttl extractID h evt) w"
    and "snd (result (redis_Seen env (extractID evt)) w') = None"
  shows "run_state (WithIdempotency (redis_idem_store env) ttl' extractID h' evt) w' =
    (Returns None, exec (redis_Seen env (extractID evt)) w')"
  by (rule redis_idem.second_delivery [OF redis_idem.intro [OF assms(1)] assms(2-5)])

lemma quiet_redis_laws: "redis_laws (e_redis quiet_env) mem_view"
  by (simp add: mem.redis_laws_axioms)

text \<open>A handler that succeeds and publishes nothing.\<close>

definition succeeding_handler :: "(('c, 'x) world_scheme, string) Handler" where
  "succeeding_handler evt = State_Monad.return (Returns None)"

lemma demo_first_delivery:
  "run_state (WithIdempotency (redis_idem_store quiet_env) 1 id succeeding_handler ''O1'') calm_world =
    (Returns None, calm_world\<lparr>w_redis := [''evt:O1'' \<mapsto> MString ''1'']\<rparr>)"
  by (simp add: run_defs succeeding_handler_def redis_idem_store_def mem_api_def calm_world_def
      Let_def)

theorem redelivered_event_skipped_witness:
  "result (WithIdempotency (redis_idem_store quiet_env) 1 id (\<lambda>_. failing_handler ()) ''O1'')
    (calm_world\<lparr>w_redis := [''evt:O1'' \<mapsto> MString ''1'']\<rparr>) = Returns None"
  by (subst redelivered_event_skipped [OF quiet_redis_laws, where ttl = 1 and h = succeeding_handler
      and w = calm_world])
    (simp_all add: demo_first_delivery redis_Seen_def on_redis_def mem_api_def split_beta)

end
