(* ===== verification/Inv_Service.thy ===== *)
theory Inv_Service
  imports Inv_Cache Inv_Messaging
begin

section \<open>The event handlers of the inventory service\<close>

text \<open>
  \<open>services/inventory/internal/service/handlers.go\<close>. A handler is the read of the row
  followed by what the code does with the row; the second half is a definition of its own
  (\<open>..._after_read\<close>), so that two handlers can also be run interleaved. The locale
  \<open>inv_service\<close> proves, for any store that keeps the contract of writes, that every
  handler keeps all rows within the schema's constraints and refines the integer-level
  specification of the stock operations.
\<close>

definition newMetadata :: "('c, 'm) env \<Rightarrow> string \<Rightarrow> (('c, 'x) world_scheme, EventMetadata) state" where
  [run_defs]: "newMetadata env eventType =
     do {
       eventId \<leftarrow> uuid_NewString env;
       t \<leftarrow> time_Now env;
       State_Monad.return \<lparr>md_EventId = eventId, md_EventType = eventType, md_OccurredAt = Some t,
         md_Producer = ''inventory-service'', md_TenantId = [], md_SchemaVersion = 1\<rparr>
     }"

text \<open>The \<open>InventoryUpdated\<close> message every handler builds from the row it ends with.\<close>

definition updated_event ::
  "EventMetadata \<Rightarrow> Inventory \<Rightarrow> InventoryUpdated_UpdateReason \<Rightarrow> inv_event" where
  "updated_event md updated reason = EvUpdated
     \<lparr>iu_Metadata = Some md, iu_WarehouseId = inv_LocationID updated, iu_Sku = inv_SKU updated,
      iu_QuantityAvailable = inv_OnHand updated - inv_Reserved updated,
      iu_QuantityReserved = inv_Reserved updated, iu_QuantityIncoming = inv_Incoming updated,
      iu_Reason = reason\<rparr>"

definition publish_updated ::
  "('c, inv_event) env \<Rightarrow> Inventory \<Rightarrow> InventoryUpdated_UpdateReason \<Rightarrow>
   (('c, 'x) world_scheme, goerr option) state" where
  [run_defs]: "publish_updated env updated reason =
     do {
       md \<leftarrow> newMetadata env Subject_InventoryUpdated;
       Publish env Subject_InventoryUpdated (updated_event md updated reason)
     }"

subsection \<open>Orders\<close>

definition orderPlaced_after_read ::
  "('c, inv_event) env \<Rightarrow> (('c, 'x) world_scheme) Storer \<Rightarrow> OrderPlaced \<Rightarrow> Inventory \<Rightarrow>
   (('c, 'x) world_scheme, goerr option) state" where
  [run_defs]: "orderPlaced_after_read env storer evt iv =
     (let available = inv_OnHand iv - inv_Reserved iv in
      if int64_less available (op_Quantity evt) then
        do {
          md \<leftarrow> newMetadata env Subject_InventoryReservationFailed;
          Publish env Subject_InventoryReservationFailed (EvReservationFailed
            \<lparr>if_Metadata = Some md, if_WarehouseId = op_WarehouseId evt, if_Sku = op_Sku evt,
             if_OrderId = op_OrderId evt, if_RequestedQuantity = op_Quantity evt,
             if_AvailableQuantity = available,
             if_Reason = InventoryReservationFailed_INSUFFICIENT_STOCK\<rparr>)
        }
      else
        do {
          u \<leftarrow> bus_UpdateInventory (time_Now env) storer iv
                 (no_update\<lparr>upd_Reserved := Some (inv_Reserved iv + op_Quantity evt)\<rparr>);
          case u of
            Inl err \<Rightarrow> State_Monad.return (Some err)
          | Inr updated \<Rightarrow>
              do {
                reservationID \<leftarrow> uuid_NewString env;
                md \<leftarrow> newMetadata env Subject_InventoryReserved;
                p \<leftarrow> Publish env Subject_InventoryReserved (EvReserved
                  \<lparr>ir_Metadata = Some md, ir_WarehouseId = op_WarehouseId evt, ir_Sku = op_Sku evt,
                   ir_ReservationId = reservationID, ir_OrderId = op_OrderId evt,
                   ir_ReservedQuantity = op_Quantity evt,
                   ir_QuantityAvailableAfter = inv_OnHand updated - inv_Reserved updated,
                   ir_QuantityReservedAfter = inv_Reserved updated\<rparr>);
                case p of
                  Some err \<Rightarrow> State_Monad.return (Some err)
                | None \<Rightarrow> publish_updated env updated InventoryUpdated_RESERVATION
              }
        })"

definition handleOrderPlaced ::
  "('c, inv_event) env \<Rightarrow> (('c, 'x) world_scheme) Storer \<Rightarrow> OrderPlaced \<Rightarrow>
   (('c, 'x) world_scheme, goerr option) state" where
  [run_defs]: "handleOrderPlaced env storer evt =
     do {
       r \<leftarrow> bus_GetInventory storer (op_WarehouseId evt) (op_Sku evt);
       case r of
         Inl err \<Rightarrow> State_Monad.return (Some err)
       | Inr iv \<Rightarrow> orderPlaced_after_read env storer evt iv
     }"

text \<open>The tail shared by the remaining writing handlers: update the row, publish the row.\<close>

definition update_and_publish ::
  "('c, inv_event) env \<Rightarrow> (('c, 'x) world_scheme) Storer \<Rightarrow> Inventory \<Rightarrow> UpdatedInventory \<Rightarrow>
   InventoryUpdated_UpdateReason \<Rightarrow> (('c, 'x) world_scheme, goerr option) state" where
  [run_defs]: "update_and_publish env storer iv uinv reason =
     do {
       u \<leftarrow> bus_UpdateInventory (time_Now env) storer iv uinv;
       case u of
         Inl err \<Rightarrow> State_Monad.return (Some err)
       | Inr updated \<Rightarrow> publish_updated env updated reason
     }"

definition orderCancelled_after_read ::
  "('c, inv_event) env \<Rightarrow> (('c, 'x) world_scheme) Storer \<Rightarrow> OrderCancelled \<Rightarrow> Inventory \<Rightarrow>
   (('c, 'x) world_scheme, goerr option) state" where
  [run_defs]: "orderCancelled_after_read env storer evt iv =
     (if inv_Reserved iv = 0 then State_Monad.return None
      else
        let releaseQty = (if int64_less (inv_Reserved iv) (oc_Quantity evt)
                          then inv_Reserved iv else oc_Quantity evt)
        in update_and_publish env storer iv
             (no_update\<lparr>upd_Reserved := Some (inv_Reserved iv - releaseQty)\<rparr>)
             InventoryUpdated_RELEASE)"

definition handleOrderCancelled ::
  "('c, inv_event) env \<Rightarrow> (('c, 'x) world_scheme) Storer \<Rightarrow> OrderCancelled \<Rightarrow>
   (('c, 'x) world_scheme, goerr option) state" where
  [run_defs]: "handleOrderCancelled env storer evt =
     do {
       r \<leftarrow> bus_GetInventory storer (oc_WarehouseId evt) (oc_Sku evt);
       case r of
         Inl err \<Rightarrow> State_Monad.return (Some err)
       | Inr iv \<Rightarrow> orderCancelled_after_read env storer evt iv
     }"

definition orderShipped_after_read ::
  "('c, inv_event) env \<Rightarrow> (('c, 'x) world_scheme) Storer \<Rightarrow> OrderShipped \<Rightarrow> Inventory \<Rightarrow>
   (('c, 'x) world_scheme, goerr option) state" where
  [run_defs]: "orderShipped_after_read env storer evt iv =
     (if inv_Reserved iv = 0 then State_Monad.return None
      else
        let q1 = os_Quantity evt;
            q2 = (if int64_less (inv_Reserved iv) q1 then inv_Reserved iv else q1);
            shipQty = (if int64_less (inv_OnHand iv) q2 then inv_OnHand iv else q2)
        in update_and_publish env storer iv
             (no_update\<lparr>upd_Reserved := Some (inv_Reserved iv - shipQty),
                        upd_OnHand := Some (inv_OnHand iv - shipQty)\<rparr>)
             InventoryUpdated_SHIPMENT_DISPATCHED)"

definition handleOrderShipped ::
  "('c, inv_event) env \<Rightarrow> (('c, 'x) world_scheme) Storer \<Rightarrow> OrderShipped \<Rightarrow>
   (('c, 'x) world_scheme, goerr option) state" where
  [run_defs]: "handleOrderShipped env storer evt =
     do {
       r \<leftarrow> bus_GetInventory storer (os_WarehouseId evt) (os_Sku evt);
       case r of
         Inl err \<Rightarrow> State_Monad.return (Some err)
       | Inr iv \<Rightarrow> orderShipped_after_read env storer evt iv
     }"

subsection \<open>Shipments\<close>

definition handleShipmentCreated ::
  "('c, inv_event) env \<Rightarrow> (('c, 'x) world_scheme) Storer \<Rightarrow> ShipmentCreated \<Rightarrow>
   (('c, 'x) world_scheme, goerr option) state" where
  [run_defs]: "handleShipmentCreated env storer evt =
     do {
       r \<leftarrow> bus_GetInventory storer (sc_WarehouseId evt) (sc_Sku evt);
       case r of
         Inl err \<Rightarrow> State_Monad.return (Some err)
       | Inr iv \<Rightarrow>
           if int64_less (inv_Reserved iv) (sc_Quantity evt) then State_Monad.return None
           else publish_updated env iv InventoryUpdated_SHIPMENT_CREATED
     }"

definition shipmentCancelled_after_read ::
  "('c, inv_event) env \<Rightarrow> (('c, 'x) world_scheme) Storer \<Rightarrow> ShipmentCancelled \<Rightarrow> Inventory \<Rightarrow>
   (('c, 'x) world_scheme, goerr option) state" where
  [run_defs]: "shipmentCancelled_after_read env storer evt iv =
     (let restoreQty = sx_Quantity evt in
      if \<not> int64_less 0 restoreQty then State_Monad.return None
      else update_and_publish env storer iv
             (no_update\<lparr>upd_OnHand := Some (inv_OnHand iv + restoreQty)\<rparr>)
             InventoryUpdated_SHIPMENT_CANCELLED)"

definition handleShipmentCancelled ::
  "('c, inv_event) env \<Rightarrow> (('c, 'x) world_scheme) Storer \<Rightarrow> ShipmentCancelled \<Rightarrow>
   (('c, 'x) world_scheme, goerr option) state" where
  [run_defs]: "handleShipmentCancelled env storer evt =
     do {
       r \<leftarrow> bus_GetInventory storer (sx_WarehouseId evt) (sx_Sku evt);
       case r of
         Inl err \<Rightarrow> State_Monad.return (Some err)
       | Inr iv \<Rightarrow> shipmentCancelled_after_read env storer evt iv
     }"

definition handleShipmentDelivered ::
  "('c, inv_event) env \<Rightarrow> (('c, 'x) world_scheme) Storer \<Rightarrow> ShipmentDelivered \<Rightarrow>
   (('c, 'x) world_scheme, goerr option) state" where
  [run_defs]: "handleShipmentDelivered env storer evt =
     do {
       r \<leftarrow> bus_GetInventory storer (sd_WarehouseId evt) (sd_Sku evt);
       case r of
         Inl err \<Rightarrow> State_Monad.return (Some err)
       | Inr iv \<Rightarrow> publish_updated env iv InventoryUpdated_SHIPMENT_DELIVERED
     }"

subsection \<open>Stock levels and what each handler means to do to them\<close>

text \<open>A row's quantities as integers, and the integer-level operations.\<close>

record stock =
  on_hand :: int
  reserved :: int
  incoming :: int

definition stock_of :: "Inventory \<Rightarrow> stock" where
  "stock_of iv = \<lparr>on_hand = sint (inv_OnHand iv), reserved = sint (inv_Reserved iv),
     incoming = sint (inv_Incoming iv)\<rparr>"

definition spec_reserve :: "int \<Rightarrow> stock \<Rightarrow> stock" where
  "spec_reserve q s = s\<lparr>reserved := reserved s + q\<rparr>"

definition spec_release :: "int \<Rightarrow> stock \<Rightarrow> stock" where
  "spec_release q s = s\<lparr>reserved := reserved s - min q (reserved s)\<rparr>"

definition spec_ship :: "int \<Rightarrow> stock \<Rightarrow> stock" where
  "spec_ship q s = (let n = min (min q (reserved s)) (on_hand s) in
     s\<lparr>reserved := reserved s - n, on_hand := on_hand s - n\<rparr>)"

definition spec_restore :: "int \<Rightarrow> stock \<Rightarrow> stock" where
  "spec_restore q s = s\<lparr>on_hand := on_hand s + q\<rparr>"

definition spec_available :: "stock \<Rightarrow> int" where
  "spec_available s = on_hand s - reserved s"

text \<open>
  A sum or difference that the schema accepts did not wrap: the other candidates of the
  wrapped value are far outside the \<open>INTEGER\<close> range.
\<close>

lemma sint_int64_minus_fits:
  fixes a b :: int64
  assumes "0 \<le> sint a" "sint a < 2 ^ 31" "0 \<le> sint (a - b)" "sint (a - b) < 2 ^ 31"
  shows "sint (a - b) = sint a - sint b"
proof (cases "sint a - sint b \<le> 9223372036854775807")
  case True
  then show ?thesis
    using assms(1) sint_int64_bounds [of b] by (intro sint_int64_minus) simp_all
next
  case False
  let ?v = "sint a - sint b - 2 ^ 64"
  have "sint (a - b) = signed_take_bit 63 (sint a - sint b)"
    by (simp add: sint_word_ariths)
  also have "\<dots> = signed_take_bit 63 ?v"
  proof -
    have "signed_take_bit 63 (?v + 2 ^ 64) = signed_take_bit 63 ?v"
      by (simp only: signed_take_bit_eq_iff_take_bit_eq) (simp add: take_bit_eq_mod)
    then show ?thesis by simp
  qed
  also have "\<dots> = ?v"
    using assms(1,2) False sint_int64_bounds [of b] by (intro signed_take_bit_int64) simp_all
  finally have "sint (a - b) < 0"
    using assms(2) sint_int64_bounds [of b] by simp
  with assms(3) show ?thesis by simp
qed

lemma sint_int64_plus_fits:
  fixes a b :: int64
  assumes "0 \<le> sint a" "sint a < 2 ^ 31" "0 \<le> sint (a + b)" "sint (a + b) < 2 ^ 31"
  shows "sint (a + b) = sint a + sint b"
proof -
  have "sint (a + b - b) = sint (a + b) - sint b"
    using assms by (intro sint_int64_minus_fits) simp_all
  then show ?thesis by simp
qed

subsection \<open>The handlers over any store\<close>

text \<open>
  A store the service can run on: one that keeps the contract of writes and whose rows are
  not touched by the clock, by UUIDs or by publishing.
\<close>

locale inv_service = inv_writer S view stored ok
  for S :: "(('c, 'x) world_scheme) Storer" and view stored ok +
  fixes env :: "('c, inv_event) env"
  assumes view_tick: "view (w\<lparr>w_tick := n\<rparr>) = view w"
    and view_pub: "view (w\<lparr>w_pub := p\<rparr>) = view w"
begin

lemma view_now [simp]: "view (exec (time_Now env) w) = view w"
  by (simp add: time_Now_def tick_def view_tick)

lemma view_uuid [simp]: "view (exec (uuid_NewString env) w) = view w"
  by (simp add: uuid_NewString_def tick_def view_tick)

lemma view_metadata [simp]: "view (exec (newMetadata env t) w) = view w"
  by (simp add: newMetadata_def split_beta)

lemma view_publish [simp]: "view (exec (Publish env subj m) w) = view w"
  by (simp add: Publish_def inject_header_def js_PublishMsg_def uuid_NewString_def tick_def
      split_beta view_tick view_pub split: sum.splits)

lemma view_publish_updated [simp]: "view (exec (publish_updated env iv reason) w) = view w"
  by (simp add: publish_updated_def split_beta)

lemma keeps_if_view: "(\<And>w. view (exec m w) = view w) \<Longrightarrow> keeps all_ok m"
  by (rule keepsI) (rule all_ok_view)

lemmas outside_keeps =
  keeps_if_view [OF view_now] keeps_if_view [OF view_uuid] keeps_if_view [OF view_metadata]
  keeps_if_view [OF view_publish] keeps_if_view [OF view_publish_updated]

lemmas handler_keeps_intros = keeps_bind keeps_case_sum keeps_case_option keeps_if keeps_return
  bus_get_keeps bus_update_keeps outside_keeps

lemma update_and_publish_keeps: "keeps all_ok (update_and_publish env S iv u reason)"
  unfolding update_and_publish_def by (intro handler_keeps_intros)

lemma handleOrderPlaced_keeps: "keeps all_ok (handleOrderPlaced env S evt)"
  unfolding handleOrderPlaced_def orderPlaced_after_read_def Let_def
  by (intro handler_keeps_intros)

lemma handleOrderCancelled_keeps: "keeps all_ok (handleOrderCancelled env S evt)"
  unfolding handleOrderCancelled_def orderCancelled_after_read_def Let_def
  by (intro handler_keeps_intros update_and_publish_keeps)

lemma handleOrderShipped_keeps: "keeps all_ok (handleOrderShipped env S evt)"
  unfolding handleOrderShipped_def orderShipped_after_read_def Let_def
  by (intro handler_keeps_intros update_and_publish_keeps)

lemma handleShipmentCreated_keeps: "keeps all_ok (handleShipmentCreated env S evt)"
  unfolding handleShipmentCreated_def by (intro handler_keeps_intros)

lemma handleShipmentCancelled_keeps: "keeps all_ok (handleShipmentCancelled env S evt)"
  unfolding handleShipmentCancelled_def shipmentCancelled_after_read_def Let_def
  by (intro handler_keeps_intros update_and_publish_keeps)

lemma handleShipmentDelivered_keeps: "keeps all_ok (handleShipmentDelivered env S evt)"
  unfolding handleShipmentDelivered_def by (intro handler_keeps_intros)

lemmas handlers_keep = handleOrderPlaced_keeps handleOrderCancelled_keeps handleOrderShipped_keeps
  handleShipmentCreated_keeps handleShipmentCancelled_keeps handleShipmentDelivered_keeps

text \<open>
  A run that went through the update: the row under the read key is the merged row, every
  other row is untouched, and the row satisfies the schema.
\<close>

lemma update_and_publish_ok:
  assumes "result (update_and_publish env S iv u reason) w = None"
    and "view w (inv_key iv) \<noteq> None"
  shows "\<exists>t. view (exec (update_and_publish env S iv u reason) w) =
      (view w)(inv_key iv \<mapsto> stored ((apply_update iv u)\<lparr>inv_UpdatedAt := t\<rparr>))"
proof -
  let ?m = "bus_UpdateInventory (time_Now env) S iv u"
  obtain updated where upd: "result ?m w = Inr updated"
    using assms(1) by (cases "result ?m w") (simp_all add: update_and_publish_def split_beta)
  then have "updated = (apply_update iv u)\<lparr>inv_UpdatedAt := result (time_Now env) w\<rparr>"
    by (auto simp: bus_UpdateInventory_def Let_def split_beta split: option.splits)
  moreover have "view (exec ?m w) = (view w)(inv_key iv \<mapsto> stored updated)"
    by (rule bus_update_stored [OF upd]) (simp_all add: assms(2))
  ultimately show ?thesis
    using upd by (auto simp: update_and_publish_def split_beta)
qed

text \<open>A handler that reports success on a row it could read, row by row.\<close>

definition same_elsewhere :: "(inv_key \<Rightarrow> Inventory option) \<Rightarrow> (inv_key \<Rightarrow> Inventory option) \<Rightarrow>
    inv_key \<Rightarrow> bool" where
  "same_elsewhere v v' k \<longleftrightarrow> (\<forall>k'. k' \<noteq> k \<longrightarrow> v' k' = v k')"

lemma same_elsewhere_upd [simp]: "same_elsewhere v (v(k \<mapsto> x)) k"
  by (simp add: same_elsewhere_def)

lemma same_elsewhere_refl [simp]: "same_elsewhere v v k"
  by (simp add: same_elsewhere_def)

lemma bus_get_Inr:
  assumes "result (st_GetInventory S l k) w = Inr iv"
  shows "run_state (bus_GetInventory S l k) w = (Inr iv, exec (st_GetInventory S l k) w)"
  using assms by (simp add: bus_GetInventory_def split_beta)

end

text \<open>
  Stock levels: a store whose accepted rows have the schema's bounds and whose stored row
  has the levels that were written.
\<close>

locale inv_stock = inv_service S view stored ok env
  for S :: "(('c, 'x) world_scheme) Storer" and view stored ok and env :: "('c, inv_event) env" +
  assumes stored_stock: "stock_of (stored iv) = stock_of iv"
    and ok_bounds: "ok iv \<Longrightarrow> 0 \<le> reserved (stock_of iv) \<and>
      reserved (stock_of iv) \<le> on_hand (stock_of iv) \<and> on_hand (stock_of iv) < 2 ^ 31"
begin

lemma bus_update_ok:
  assumes "result (bus_UpdateInventory (time_Now env) S iv u) w = Inr updated"
    and "all_ok w" and "view w (inv_key iv) \<noteq> None"
  shows "view (exec (bus_UpdateInventory (time_Now env) S iv u) w) =
      (view w)(inv_key iv \<mapsto> stored updated) \<and>
    ok updated \<and> stock_of updated = stock_of (apply_update iv u)"
proof -
  have upd: "updated = (apply_update iv u)\<lparr>inv_UpdatedAt := result (time_Now env) w\<rparr>"
    using assms(1) by (auto simp: bus_UpdateInventory_def Let_def split_beta split: option.splits)
  have row: "view (exec (bus_UpdateInventory (time_Now env) S iv u) w) =
      (view w)(inv_key iv \<mapsto> stored updated)"
    by (rule bus_update_stored [OF assms(1)]) (simp_all add: assms(3))
  have "all_ok (exec (bus_UpdateInventory (time_Now env) S iv u) w)"
    using assms(2) by (rule keepsD [OF bus_update_keeps [OF keeps_if_view [OF view_now]]])
  then have "ok (stored updated)"
    unfolding all_ok_def row by (metis fun_upd_same)
  then have "ok updated"
    by (simp only: stored_ok)
  moreover have "stock_of updated = stock_of (apply_update iv u)"
    by (simp add: upd stock_of_def)
  ultimately show ?thesis
    using row by blast
qed

text \<open>What the shared tail does to the row it was given.\<close>

lemma update_and_publish_stock:
  assumes "result (update_and_publish env S iv u reason) w = None"
    and "all_ok w" and "view w (inv_key iv) \<noteq> None"
  shows "\<exists>iv'. view (exec (update_and_publish env S iv u reason) w) = (view w)(inv_key iv \<mapsto> iv') \<and>
    ok iv' \<and> stock_of iv' = stock_of (apply_update iv u)"
proof -
  let ?m = "bus_UpdateInventory (time_Now env) S iv u"
  obtain updated where upd: "result ?m w = Inr updated"
    using assms(1) by (cases "result ?m w") (simp_all add: update_and_publish_def split_beta)
  have "view (exec (update_and_publish env S iv u reason) w) = view (exec ?m w)"
    using upd by (simp add: update_and_publish_def split_beta)
  with bus_update_ok [OF upd assms(2,3)] show ?thesis
    by (auto simp: stored_ok stored_stock)
qed

text \<open>
  The row that a handler reads: \<open>reads l k iv w\<close> says that the store answers the read
  with the row that is stored.
\<close>

definition reads :: "string \<Rightarrow> string \<Rightarrow> Inventory \<Rightarrow> (('c, 'x) world_scheme) \<Rightarrow> bool" where
  "reads l k iv w \<longleftrightarrow> result (st_GetInventory S l k) w = Inr iv \<and> view w (l, k) = Some iv \<and> all_ok w"

lemma reads_after:
  assumes "reads l k iv w"
  shows "all_ok (exec (st_GetInventory S l k) w)"
    and "view (exec (st_GetInventory S l k) w) (inv_key iv) \<noteq> None"
    and "inv_key iv = (l, k)" and "ok iv"
  using assms keepsD [OF get_keeps] by (auto simp: reads_def get_view all_ok_def)

lemma bounds_of_ok:
  "ok iv \<Longrightarrow> 0 \<le> sint (inv_Reserved iv) \<and> sint (inv_Reserved iv) \<le> sint (inv_OnHand iv) \<and>
    sint (inv_OnHand iv) < 2 ^ 31"
  using ok_bounds [of iv] by (simp add: stock_of_def)

lemma available_exact:
  assumes "ok iv"
  shows "sint (inv_OnHand iv - inv_Reserved iv) = sint (inv_OnHand iv) - sint (inv_Reserved iv)"
  using bounds_of_ok [OF assms] by (intro sint_int64_minus) simp_all

lemma stock_of_update:
  "stock_of (apply_update iv u) = \<lparr>on_hand = sint (case_option (inv_OnHand iv) id (upd_OnHand u)),
     reserved = sint (case_option (inv_Reserved iv) id (upd_Reserved u)),
     incoming = sint (case_option (inv_Incoming iv) id (upd_Incoming u))\<rparr>"
  by (simp add: stock_of_def)

theorem orderPlaced_stock:
  assumes "reads (op_WarehouseId evt) (op_Sku evt) iv w"
    and "result (handleOrderPlaced env S evt) w = None"
  shows "if spec_available (stock_of iv) < sint (op_Quantity evt)
    then view (exec (handleOrderPlaced env S evt) w) = view w
    else \<exists>iv'. view (exec (handleOrderPlaced env S evt) w) = (view w)(inv_key iv \<mapsto> iv') \<and> ok iv' \<and>
      stock_of iv' = spec_reserve (sint (op_Quantity evt)) (stock_of iv)"
proof -
  let ?w1 = "exec (st_GetInventory S (op_WarehouseId evt) (op_Sku evt)) w"
  let ?u = "no_update\<lparr>upd_Reserved := Some (inv_Reserved iv + op_Quantity evt)\<rparr>"
  let ?m = "bus_UpdateInventory (time_Now env) S iv ?u"
  note after = reads_after [OF assms(1)]
  have got: "result (st_GetInventory S (op_WarehouseId evt) (op_Sku evt)) w = Inr iv"
    using assms(1) by (simp add: reads_def)
  have run: "run_state (handleOrderPlaced env S evt) w = run_state (orderPlaced_after_read env S evt iv) ?w1"
    by (simp add: handleOrderPlaced_def bus_get_Inr [OF got])
  have avail: "sint (inv_OnHand iv - inv_Reserved iv) = spec_available (stock_of iv)"
    by (simp add: available_exact [OF after(4)] spec_available_def stock_of_def)
  show ?thesis
  proof (cases "spec_available (stock_of iv) < sint (op_Quantity evt)")
    case True
    then show ?thesis
      by (simp add: run orderPlaced_after_read_def Let_def avail split_beta get_view)
  next
    case False
    obtain updated where upd: "result ?m ?w1 = Inr updated"
      using assms(2) False
      by (cases "result ?m ?w1") (simp_all add: run orderPlaced_after_read_def Let_def avail split_beta)
    have row: "view (exec (handleOrderPlaced env S evt) w) = view (exec ?m ?w1)"
      using False upd
      by (simp add: run orderPlaced_after_read_def Let_def avail split_beta split: option.splits)
    have ok: "ok updated" and st: "stock_of updated = stock_of (apply_update iv ?u)"
      and v: "view (exec ?m ?w1) = (view w)(inv_key iv \<mapsto> stored updated)"
      using bus_update_ok [OF upd after(1,2)] by (simp_all add: get_view)
    have "sint (inv_Reserved iv + op_Quantity evt) = sint (inv_Reserved iv) + sint (op_Quantity evt)"
      using bounds_of_ok [OF after(4)] ok_bounds [OF ok] st
      by (intro sint_int64_plus_fits) (simp_all add: stock_of_def no_update_def)
    then have "stock_of updated = spec_reserve (sint (op_Quantity evt)) (stock_of iv)"
      by (simp only: st stock_of_update) (simp add: spec_reserve_def no_update_def stock_of_def)
    with False row v ok show ?thesis
      by (auto simp: stored_ok stored_stock)
  qed
qed

text \<open>The remaining writing handlers: a guard, then the shared tail.\<close>

lemma tail_stock:
  assumes "reads l k iv w" and "h = update_and_publish env S iv u reason"
    and "result h (exec (st_GetInventory S l k) w) = None"
  shows "\<exists>iv'. view (exec h (exec (st_GetInventory S l k) w)) = (view w)(inv_key iv \<mapsto> iv') \<and>
    ok iv' \<and> stock_of iv' = stock_of (apply_update iv u)"
  using update_and_publish_stock [of iv u reason "exec (st_GetInventory S l k) w"] assms(2,3)
    reads_after [OF assms(1)] by (auto simp: get_view)

lemma orderCancelled_run:
  assumes "reads (oc_WarehouseId evt) (oc_Sku evt) iv w"
  shows "run_state (handleOrderCancelled env S evt) w =
    run_state (orderCancelled_after_read env S evt iv)
      (exec (st_GetInventory S (oc_WarehouseId evt) (oc_Sku evt)) w)"
  using assms by (simp add: handleOrderCancelled_def bus_get_Inr reads_def)

theorem orderCancelled_stock:
  assumes "reads (oc_WarehouseId evt) (oc_Sku evt) iv w"
    and "result (handleOrderCancelled env S evt) w = None"
  shows "if reserved (stock_of iv) = 0
    then view (exec (handleOrderCancelled env S evt) w) = view w
    else \<exists>iv'. view (exec (handleOrderCancelled env S evt) w) = (view w)(inv_key iv \<mapsto> iv') \<and> ok iv' \<and>
      stock_of iv' = spec_release (sint (oc_Quantity evt)) (stock_of iv)"
proof (cases "inv_Reserved iv = 0")
  case True
  then show ?thesis
    by (simp add: orderCancelled_run [OF assms(1)] orderCancelled_after_read_def stock_of_def get_view)
next
  case False
  then have nz: "sint (inv_Reserved iv) \<noteq> 0"
    using sint_int64_inject [of "inv_Reserved iv" 0] by auto
  let ?q = "if sint (inv_Reserved iv) < sint (oc_Quantity evt) then inv_Reserved iv else oc_Quantity evt"
  let ?u = "no_update\<lparr>upd_Reserved := Some (inv_Reserved iv - ?q)\<rparr>"
  have "orderCancelled_after_read env S evt iv =
      update_and_publish env S iv ?u InventoryUpdated_RELEASE"
    using False by (simp add: orderCancelled_after_read_def Let_def)
  from tail_stock [OF assms(1) this] assms(2) obtain iv' where
    v: "view (exec (handleOrderCancelled env S evt) w) = (view w)(inv_key iv \<mapsto> iv')"
    and ok: "ok iv'" and st: "stock_of iv' = stock_of (apply_update iv ?u)"
    unfolding orderCancelled_run [OF assms(1)] by blast
  have "sint (inv_Reserved iv - ?q) = sint (inv_Reserved iv) - sint ?q"
    using bounds_of_ok [OF reads_after(4) [OF assms(1)]] ok_bounds [OF ok] st
    by (intro sint_int64_minus_fits) (simp_all only: stock_of_def stock.simps apply_update_fields
        no_update_def UpdatedInventory.simps option.case id_apply, simp_all)
  then have "stock_of iv' = spec_release (sint (oc_Quantity evt)) (stock_of iv)"
    by (simp only: st stock_of_update) (simp add: spec_release_def no_update_def stock_of_def min_def)
  with v ok nz show ?thesis by (auto simp: stock_of_def)
qed

lemma orderShipped_run:
  assumes "reads (os_WarehouseId evt) (os_Sku evt) iv w"
  shows "run_state (handleOrderShipped env S evt) w =
    run_state (orderShipped_after_read env S evt iv)
      (exec (st_GetInventory S (os_WarehouseId evt) (os_Sku evt)) w)"
  using assms by (simp add: handleOrderShipped_def bus_get_Inr reads_def)

theorem orderShipped_stock:
  assumes "reads (os_WarehouseId evt) (os_Sku evt) iv w"
    and "result (handleOrderShipped env S evt) w = None"
  shows "if reserved (stock_of iv) = 0
    then view (exec (handleOrderShipped env S evt) w) = view w
    else \<exists>iv'. view (exec (handleOrderShipped env S evt) w) = (view w)(inv_key iv \<mapsto> iv') \<and> ok iv' \<and>
      stock_of iv' = spec_ship (sint (os_Quantity evt)) (stock_of iv)"
proof (cases "inv_Reserved iv = 0")
  case True
  then show ?thesis
    by (simp add: orderShipped_run [OF assms(1)] orderShipped_after_read_def stock_of_def get_view)
next
  case False
  then have nz: "sint (inv_Reserved iv) \<noteq> 0"
    using sint_int64_inject [of "inv_Reserved iv" 0] by auto
  let ?q2 = "if sint (inv_Reserved iv) < sint (os_Quantity evt) then inv_Reserved iv else os_Quantity evt"
  let ?q = "if sint (inv_OnHand iv) < sint ?q2 then inv_OnHand iv else ?q2"
  let ?u = "no_update\<lparr>upd_Reserved := Some (inv_Reserved iv - ?q),
      upd_OnHand := Some (inv_OnHand iv - ?q)\<rparr>"
  have "orderShipped_after_read env S evt iv =
      update_and_publish env S iv ?u InventoryUpdated_SHIPMENT_DISPATCHED"
    using False by (simp add: orderShipped_after_read_def Let_def)
  from tail_stock [OF assms(1) this] assms(2) obtain iv' where
    v: "view (exec (handleOrderShipped env S evt) w) = (view w)(inv_key iv \<mapsto> iv')"
    and ok: "ok iv'" and st: "stock_of iv' = stock_of (apply_update iv ?u)"
    unfolding orderShipped_run [OF assms(1)] by blast
  have st': "stock_of iv' = \<lparr>on_hand = sint (inv_OnHand iv - ?q),
      reserved = sint (inv_Reserved iv - ?q), incoming = sint (inv_Incoming iv)\<rparr>"
    by (simp only: st stock_of_update) (simp add: no_update_def)
  have bounds: "0 \<le> sint (inv_Reserved iv - ?q)" "sint (inv_Reserved iv - ?q) \<le> sint (inv_OnHand iv - ?q)"
      "sint (inv_OnHand iv - ?q) < 2 ^ 31"
    using ok_bounds [OF ok] by (simp_all only: st' stock.simps)
  note read = bounds_of_ok [OF reads_after(4) [OF assms(1)]]
  have r: "sint (inv_Reserved iv - ?q) = sint (inv_Reserved iv) - sint ?q"
    using read bounds by (intro sint_int64_minus_fits) linarith+
  have h: "sint (inv_OnHand iv - ?q) = sint (inv_OnHand iv) - sint ?q"
    using read bounds by (intro sint_int64_minus_fits) linarith+
  have "stock_of iv' = spec_ship (sint (os_Quantity evt)) (stock_of iv)"
    by (simp only: st' r h) (simp add: spec_ship_def stock_of_def min_def Let_def)
  with v ok nz show ?thesis by (auto simp: stock_of_def)
qed

lemma shipmentCancelled_run:
  assumes "reads (sx_WarehouseId evt) (sx_Sku evt) iv w"
  shows "run_state (handleShipmentCancelled env S evt) w =
    run_state (shipmentCancelled_after_read env S evt iv)
      (exec (st_GetInventory S (sx_WarehouseId evt) (sx_Sku evt)) w)"
  using assms by (simp add: handleShipmentCancelled_def bus_get_Inr reads_def)

theorem shipmentCancelled_stock:
  assumes "reads (sx_WarehouseId evt) (sx_Sku evt) iv w"
    and "result (handleShipmentCancelled env S evt) w = None"
  shows "if sint (sx_Quantity evt) \<le> 0
    then view (exec (handleShipmentCancelled env S evt) w) = view w
    else \<exists>iv'. view (exec (handleShipmentCancelled env S evt) w) = (view w)(inv_key iv \<mapsto> iv') \<and> ok iv' \<and>
      stock_of iv' = spec_restore (sint (sx_Quantity evt)) (stock_of iv)"
proof (cases "sint (sx_Quantity evt) \<le> 0")
  case True
  then show ?thesis
    by (simp add: shipmentCancelled_run [OF assms(1)] shipmentCancelled_after_read_def get_view)
next
  case False
  let ?u = "no_update\<lparr>upd_OnHand := Some (inv_OnHand iv + sx_Quantity evt)\<rparr>"
  have "shipmentCancelled_after_read env S evt iv =
      update_and_publish env S iv ?u InventoryUpdated_SHIPMENT_CANCELLED"
    using False by (simp add: shipmentCancelled_after_read_def Let_def)
  from tail_stock [OF assms(1) this] assms(2) obtain iv' where
    v: "view (exec (handleShipmentCancelled env S evt) w) = (view w)(inv_key iv \<mapsto> iv')"
    and ok: "ok iv'" and st: "stock_of iv' = stock_of (apply_update iv ?u)"
    unfolding shipmentCancelled_run [OF assms(1)] by blast
  have st': "stock_of iv' = \<lparr>on_hand = sint (inv_OnHand iv + sx_Quantity evt),
      reserved = sint (inv_Reserved iv), incoming = sint (inv_Incoming iv)\<rparr>"
    by (simp only: st stock_of_update) (simp add: no_update_def)
  have "sint (inv_OnHand iv + sx_Quantity evt) = sint (inv_OnHand iv) + sint (sx_Quantity evt)"
    using bounds_of_ok [OF reads_after(4) [OF assms(1)]] ok_bounds [OF ok] st'
    by (intro sint_int64_plus_fits) simp_all
  then have "stock_of iv' = spec_restore (sint (sx_Quantity evt)) (stock_of iv)"
    by (simp only: st') (simp add: spec_restore_def stock_of_def)
  with False v ok show ?thesis by auto
qed

text \<open>The two handlers that only report never change a row.\<close>

lemma handleShipmentCreated_view: "view (exec (handleShipmentCreated env S evt) w) = view w"
  by (simp add: handleShipmentCreated_def bus_GetInventory_def split_beta get_view split: sum.splits)

lemma handleShipmentDelivered_view: "view (exec (handleShipmentDelivered env S evt) w) = view w"
  by (simp add: handleShipmentDelivered_def bus_GetInventory_def split_beta get_view split: sum.splits)

end

lemma inv_stored_stock: "stock_of (inv_stored env iv) = stock_of iv"
  by (simp add: inv_stored_def stock_of_def)

lemma inv_ok_bounds: "inv_ok iv \<Longrightarrow> 0 \<le> reserved (stock_of iv) \<and>
    reserved (stock_of iv) \<le> on_hand (stock_of iv) \<and> on_hand (stock_of iv) < 2 ^ 31"
  by (simp add: inv_ok_iff stock_of_def)

interpretation invdb_service: inv_stock "invdb_Store env" inv_rows "inv_stored env" inv_ok env
  by unfold_locales (simp_all only: inv_rows_tick inv_rows_pub inv_stored_stock inv_ok_bounds)

interpretation invcache_service:
  inv_stock "invcache_Store env (invdb_Store env)" inv_rows "inv_stored env" inv_ok env
  by unfold_locales (simp_all only: inv_rows_tick inv_rows_pub inv_stored_stock inv_ok_bounds)

subsection \<open>Runs without faults\<close>

definition faultless :: "('c, 'm) env \<Rightarrow> bool" where
  "faultless env \<longleftrightarrow> (\<forall>n. e_db env n = NoFault) \<and> (\<forall>n. e_publish env n = None) \<and>
     (\<forall>msg. \<exists>data. e_marshal env msg = Inr data)"

text \<open>The database answers every call, whatever the broker does.\<close>

definition db_up :: "('c, 'm) env \<Rightarrow> bool" where
  "db_up env \<longleftrightarrow> (\<forall>n. e_db env n = NoFault)"

lemma db_upD: "db_up env \<Longrightarrow> e_db env n = NoFault"
  by (simp add: db_up_def)

lemma faultless_up: "faultless env \<Longrightarrow> db_up env"
  by (simp add: faultless_def db_up_def)

lemma faultless_db: "faultless env \<Longrightarrow> e_db env n = NoFault"
  by (simp add: faultless_def)

lemma faultless_calm: "faultless calm_env"
  by (simp add: faultless_def)

text \<open>A published message: its subject, and a payload that is the encoding of the event.\<close>

definition carries :: "('c, inv_event) env \<Rightarrow> pub_call \<Rightarrow> string \<Rightarrow> inv_event \<Rightarrow> bool" where
  "carries env call subj evt \<longleftrightarrow> pc_Subject call = subj \<and> e_marshal env evt = Inr (pc_Data call)"

lemma publish_faultless:
  assumes "faultless env"
  shows "result (Publish env subj evt) w = None \<and>
    (\<exists>call. w_pub (exec (Publish env subj evt) w) = w_pub w @ [call] \<and> carries env call subj evt)"
proof -
  obtain data where "e_marshal env evt = Inr data"
    using assms unfolding faultless_def by blast
  then show ?thesis
    using assms by (simp add: faultless_def carries_def run_defs tick_def)
qed

lemma pub_metadata [simp]: "w_pub (exec (newMetadata env t) w) = w_pub w"
  by (simp add: run_defs tick_def)

lemma pub_uuid [simp]: "w_pub (exec (uuid_NewString env) w) = w_pub w"
  by (simp add: run_defs tick_def)

lemma pub_apply_stmt [simp]: "w_pub (snd (apply_stmt stmt w)) = w_pub w"
  by (simp add: apply_stmt_def split: sum.splits)

lemma pub_invdb_get [simp]: "w_pub (exec (invdb_GetInventory env l s) w) = w_pub w"
  by (simp add: get_exec)

lemma pub_invdb_update [simp]: "w_pub (exec (invdb_UpdateInventory env iv) w) = w_pub w"
  by (simp add: update_run exec_pg Let_def split: db_fault.splits)

lemma publish_updated_faultless:
  assumes "faultless env"
  shows "result (publish_updated env iv reason) w = None \<and>
    (\<exists>call md. w_pub (exec (publish_updated env iv reason) w) = w_pub w @ [call] \<and>
      carries env call Subject_InventoryUpdated (updated_event md iv reason))"
proof -
  let ?md = "newMetadata env Subject_InventoryUpdated"
  let ?p = "Publish env Subject_InventoryUpdated (updated_event (result ?md w) iv reason)"
  have "run_state (publish_updated env iv reason) w = run_state ?p (exec ?md w)"
    by (simp add: publish_updated_def split_beta)
  then show ?thesis
    using publish_faultless [OF assms, of Subject_InventoryUpdated
        "updated_event (result ?md w) iv reason" "exec ?md w"] by auto
qed

text \<open>An update of a stored row to one that satisfies the constraints succeeds.\<close>

lemma bus_update_db_up:
  assumes "\<And>n. e_db env n = NoFault" and "inv_ok (apply_update iv u)" and "inv_rows w (inv_key iv) \<noteq> None"
  shows "\<exists>iv'. result (bus_UpdateInventory (time_Now env) (invdb_Store env) iv u) w = Inr iv' \<and>
    stock_of iv' = stock_of (apply_update iv u) \<and> inv_key iv' = inv_key iv \<and> inv_ok iv' \<and>
    w_pub (exec (bus_UpdateInventory (time_Now env) (invdb_Store env) iv u) w) = w_pub w \<and>
    inv_rows (exec (bus_UpdateInventory (time_Now env) (invdb_Store env) iv u) w) =
      (inv_rows w)(inv_key iv \<mapsto> inv_stored env iv')"
proof -
  let ?iv = "(apply_update iv u)\<lparr>inv_UpdatedAt := e_now env (w_tick w)\<rparr>"
  have ok: "inv_ok ?iv"
    using assms(2) by (simp add: inv_ok_iff)
  then have upd: "result (invdb_UpdateInventory env ?iv) (w\<lparr>w_tick := Suc (w_tick w)\<rparr>) = None"
    using assms(1) by (auto simp: update_run result_pg_None update_succeeds inv_ok_parts)
  then have run: "result (bus_UpdateInventory (time_Now env) (invdb_Store env) iv u) w = Inr ?iv"
    "exec (bus_UpdateInventory (time_Now env) (invdb_Store env) iv u) w =
      exec (invdb_UpdateInventory env ?iv) (w\<lparr>w_tick := Suc (w_tick w)\<rparr>)"
    by (simp_all add: bus_UpdateInventory_def time_Now_def tick_def Let_def split_beta invdb_Store_def)
  have "inv_rows (exec (invdb_UpdateInventory env ?iv) (w\<lparr>w_tick := Suc (w_tick w)\<rparr>)) =
      (inv_rows w)(inv_key iv \<mapsto> inv_stored env ?iv)"
    using ok assms(1,3) by (auto simp: invdb_runs)
  then show ?thesis
    using run ok by (auto simp: stock_of_def)
qed

lemmas bus_update_faultless = bus_update_db_up [OF faultless_db]

lemma read_stored:
  assumes "e_db env (w_tick w) = NoFault" and "inv_rows w (l, s) = Some iv"
  shows "run_state (bus_GetInventory (invdb_Store env) l s) w = (Inr iv, w\<lparr>w_tick := Suc (w_tick w)\<rparr>)"
  using assms by (simp add: bus_GetInventory_def split_beta invdb_Store_def get_result_cases get_exec)

subsection \<open>Properties\<close>

text \<open>The two branches of an order, when nothing outside fails.\<close>

definition reservation_failed :: "EventMetadata \<Rightarrow> OrderPlaced \<Rightarrow> Inventory \<Rightarrow> inv_event" where
  "reservation_failed md evt iv = EvReservationFailed
     \<lparr>if_Metadata = Some md, if_WarehouseId = op_WarehouseId evt, if_Sku = op_Sku evt,
      if_OrderId = op_OrderId evt, if_RequestedQuantity = op_Quantity evt,
      if_AvailableQuantity = inv_OnHand iv - inv_Reserved iv,
      if_Reason = InventoryReservationFailed_INSUFFICIENT_STOCK\<rparr>"

definition reserved_event :: "EventMetadata \<Rightarrow> string \<Rightarrow> OrderPlaced \<Rightarrow> Inventory \<Rightarrow> inv_event" where
  "reserved_event md rid evt updated = EvReserved
     \<lparr>ir_Metadata = Some md, ir_WarehouseId = op_WarehouseId evt, ir_Sku = op_Sku evt,
      ir_ReservationId = rid, ir_OrderId = op_OrderId evt, ir_ReservedQuantity = op_Quantity evt,
      ir_QuantityAvailableAfter = inv_OnHand updated - inv_Reserved updated,
      ir_QuantityReservedAfter = inv_Reserved updated\<rparr>"

lemma after_read_rejects:
  assumes "faultless env" and "int64_less (inv_OnHand iv - inv_Reserved iv) (op_Quantity evt)"
  shows "result (orderPlaced_after_read env S evt iv) w = None \<and>
    (\<exists>call md. w_pub (exec (orderPlaced_after_read env S evt iv) w) = w_pub w @ [call] \<and>
      carries env call Subject_InventoryReservationFailed (reservation_failed md evt iv))"
proof -
  let ?md = "newMetadata env Subject_InventoryReservationFailed"
  let ?p = "Publish env Subject_InventoryReservationFailed (reservation_failed (result ?md w) evt iv)"
  have "run_state (orderPlaced_after_read env S evt iv) w = run_state ?p (exec ?md w)"
    using assms(2) by (simp add: orderPlaced_after_read_def split_beta reservation_failed_def)
  then show ?thesis
    using publish_faultless [OF assms(1), of Subject_InventoryReservationFailed
        "reservation_failed (result ?md w) evt iv" "exec ?md w"] by auto
qed

lemma after_read_publishes:
  assumes "faultless env" and "\<not> int64_less (inv_OnHand iv - inv_Reserved iv) (op_Quantity evt)"
    and "run_state (bus_UpdateInventory (time_Now env) S iv
      (no_update\<lparr>upd_Reserved := Some (inv_Reserved iv + op_Quantity evt)\<rparr>)) w = (Inr iv', w')"
  shows "result (orderPlaced_after_read env S evt iv) w = None \<and>
    (\<exists>c1 c2 md md' rid. w_pub (exec (orderPlaced_after_read env S evt iv) w) = w_pub w' @ [c1, c2] \<and>
      carries env c1 Subject_InventoryReserved (reserved_event md rid evt iv') \<and>
      carries env c2 Subject_InventoryUpdated (updated_event md' iv' InventoryUpdated_RESERVATION))"
proof -
  let ?u = "uuid_NewString env" and ?md = "newMetadata env Subject_InventoryReserved"
  let ?w1 = "exec ?md (exec ?u w')"
  let ?e = "reserved_event (result ?md (exec ?u w')) (result ?u w') evt iv'"
  let ?p = "Publish env Subject_InventoryReserved ?e"
  have p: "result ?p ?w1 = None" and "\<exists>call. w_pub (exec ?p ?w1) = w_pub ?w1 @ [call] \<and>
      carries env call Subject_InventoryReserved ?e"
    using publish_faultless [OF assms(1), of Subject_InventoryReserved ?e ?w1] by simp_all
  then obtain c1 where c1: "w_pub (exec ?p ?w1) = w_pub w' @ [c1]" "carries env c1 Subject_InventoryReserved ?e"
    by auto
  have "run_state (orderPlaced_after_read env S evt iv) w =
      run_state (publish_updated env iv' InventoryUpdated_RESERVATION) (exec ?p ?w1)"
    using assms(2,3) p by (simp add: orderPlaced_after_read_def split_beta reserved_event_def)
  with publish_updated_faultless [OF assms(1), of iv' InventoryUpdated_RESERVATION "exec ?p ?w1"]
  obtain c2 md' where "result (orderPlaced_after_read env S evt iv) w = None"
    "w_pub (exec (orderPlaced_after_read env S evt iv) w) = w_pub (exec ?p ?w1) @ [c2]"
    "carries env c2 Subject_InventoryUpdated (updated_event md' iv' InventoryUpdated_RESERVATION)"
    by auto
  with c1 show ?thesis
    by (intro conjI exI [where x = c1] exI [where x = c2]) auto
qed

text \<open>An order within the available quantity reserves it in the row that was read.\<close>

lemma reserve_ok:
  assumes "inv_ok iv" and "0 \<le> sint q" and "sint q \<le> spec_available (stock_of iv)"
  shows "stock_of (apply_update iv (no_update\<lparr>upd_Reserved := Some (inv_Reserved iv + q)\<rparr>)) =
      spec_reserve (sint q) (stock_of iv)"
    and "inv_ok (apply_update iv (no_update\<lparr>upd_Reserved := Some (inv_Reserved iv + q)\<rparr>))"
proof -
  note b = invdb_service.bounds_of_ok [OF assms(1)]
  have sum: "sint (inv_Reserved iv + q) = sint (inv_Reserved iv) + sint q"
    using b assms(2,3) by (intro sint_int64_plus) (simp_all add: spec_available_def stock_of_def)
  then show "stock_of (apply_update iv (no_update\<lparr>upd_Reserved := Some (inv_Reserved iv + q)\<rparr>)) =
      spec_reserve (sint q) (stock_of iv)"
    by (simp add: stock_of_def spec_reserve_def no_update_def)
  show "inv_ok (apply_update iv (no_update\<lparr>upd_Reserved := Some (inv_Reserved iv + q)\<rparr>))"
    using sum b assms by (simp add: inv_ok_iff no_update_def spec_available_def stock_of_def)
qed

definition demo_order :: "int64 \<Rightarrow> OrderPlaced" where
  "demo_order q = \<lparr>op_Metadata = None, op_OrderId = ''O1'', op_WarehouseId = ''JHB'', op_Sku = ''S1'',
     op_Quantity = q\<rparr>"

lemma demo_rows_ok: "rows_ok demo_world"
  using demo_row_ok by (simp add: rows_ok_def demo_rows)

abbreviation demo_env :: "(mem_redis, inv_event) env" where
  "demo_env \<equiv> calm_env"

lemma demo_order_rejected:
  "result (handleOrderPlaced demo_env (invdb_Store demo_env) (demo_order 9)) demo_world = None"
  by (simp add: handleOrderPlaced_def read_stored demo_rows after_read_rejects faultless_calm
      demo_order_def bus_of_row_def demo_row_def)

definition demo_cancel :: "int64 \<Rightarrow> OrderCancelled" where
  "demo_cancel q = \<lparr>oc_Metadata = None, oc_OrderId = ''O1'', oc_WarehouseId = ''JHB'', oc_Sku = ''S1'',
     oc_Quantity = q\<rparr>"

definition demo_shipped :: "int64 \<Rightarrow> OrderShipped" where
  "demo_shipped q = \<lparr>os_Metadata = None, os_OrderId = ''O1'', os_WarehouseId = ''JHB'', os_Sku = ''S1'',
     os_Quantity = q\<rparr>"

definition demo_shipment_cancelled :: "int64 \<Rightarrow> ShipmentCancelled" where
  "demo_shipment_cancelled q = ShipmentCancelled_zero
     \<lparr>sx_WarehouseId := ''JHB'', sx_Sku := ''S1'', sx_Quantity := q\<rparr>"

text \<open>
  \<open>ShipmentCreated\<close> and \<open>ShipmentDelivered\<close> never change a row, behind the cached
  store of the running service too; a \<open>ShipmentCreated\<close> of more than is reserved
  publishes nothing and succeeds when the row can be read.
\<close>

theorem shipment_reports_only:
  "inv_rows (exec (handleShipmentCreated env (invcache_Store env (invdb_Store env)) evt) w) = inv_rows w \<and>
   inv_rows (exec (handleShipmentDelivered env (invcache_Store env (invdb_Store env)) del) w) = inv_rows w \<and>
   (result (bus_GetInventory S (sc_WarehouseId evt) (sc_Sku evt)) v = Inr iv \<and>
     sint (inv_Reserved iv) < sint (sc_Quantity evt) \<longrightarrow>
     run_state (handleShipmentCreated env S evt) v =
       (None, exec (bus_GetInventory S (sc_WarehouseId evt) (sc_Sku evt)) v))"
  by (intro conjI impI invcache_service.handleShipmentCreated_view
      invcache_service.handleShipmentDelivered_view)
    (simp add: handleShipmentCreated_def split_beta)

theorem shipment_reports_only_witness:
  "result (handleShipmentCreated demo_env (invdb_Store demo_env)
    (ShipmentCreated_zero\<lparr>sc_WarehouseId := ''JHB'', sc_Sku := ''S1'', sc_Quantity := 3\<rparr>)) demo_world = None"
proof -
  have "result (bus_GetInventory (invdb_Store demo_env) ''JHB'' ''S1'') demo_world = Inr (bus_of_row demo_row)"
    by (simp add: read_stored demo_rows)
  then show ?thesis
    using shipment_reports_only [of demo_env
        "ShipmentCreated_zero\<lparr>sc_WarehouseId := ''JHB'', sc_Sku := ''S1'', sc_Quantity := 3\<rparr>" demo_world
        ShipmentDelivered_zero "invdb_Store demo_env" demo_world "bus_of_row demo_row"]
    by (simp add: bus_of_row_def demo_row_def)
qed

end
