(* ===== verification/Inv_Consumers.thy ===== *)
theory Inv_Consumers
  imports Inv_Service
begin

section \<open>Starting, running and stopping the inventory service\<close>

text \<open>
  \<open>services/inventory/internal/service/service.go\<close>: the six subscriptions that
  \<open>Start\<close> opens, the callback behind each of them, the running service as a step relation
  over worlds, and \<open>Stop\<close> with its drain goroutine racing against the context.
\<close>

subsection \<open>The consumers\<close>

text \<open>\<open>proto.Unmarshal\<close> into each of the consumed message types.\<close>

record decoders =
  dec_OrderPlaced :: "string \<Rightarrow> goerr + OrderPlaced"
  dec_OrderCancelled :: "string \<Rightarrow> goerr + OrderCancelled"
  dec_OrderShipped :: "string \<Rightarrow> goerr + OrderShipped"
  dec_ShipmentCreated :: "string \<Rightarrow> goerr + ShipmentCreated"
  dec_ShipmentDelivered :: "string \<Rightarrow> goerr + ShipmentDelivered"
  dec_ShipmentCancelled :: "string \<Rightarrow> goerr + ShipmentCancelled"

definition returning :: "('evt \<Rightarrow> ('w, goerr option) state) \<Rightarrow> ('w, 'evt) Handler" where
  [run_defs]: "returning h evt = do { e \<leftarrow> h evt; State_Monad.return (Returns e) }"

definition one_day :: int where
  "one_day = 24 * 3600 * 1000000000"

definition orderPlaced_handler ::
  "('c, inv_event) env \<Rightarrow> (('c, 'x) world_scheme) Storer \<Rightarrow> (('c, 'x) world_scheme, OrderPlaced) Handler" where
  "orderPlaced_handler env storer =
     WithIdempotency (redis_idem_store env) one_day op_OrderId (returning (handleOrderPlaced env storer))"

definition orderCancelled_handler ::
  "('c, inv_event) env \<Rightarrow> (('c, 'x) world_scheme) Storer \<Rightarrow> (('c, 'x) world_scheme, OrderCancelled) Handler" where
  "orderCancelled_handler env storer =
     WithIdempotency (redis_idem_store env) one_day oc_OrderId (returning (handleOrderCancelled env storer))"

definition orderShipped_handler ::
  "('c, inv_event) env \<Rightarrow> (('c, 'x) world_scheme) Storer \<Rightarrow> (('c, 'x) world_scheme, OrderShipped) Handler" where
  "orderShipped_handler env storer =
     WithIdempotency (redis_idem_store env) one_day os_OrderId (returning (handleOrderShipped env storer))"

definition shipmentCreated_handler ::
  "('c, inv_event) env \<Rightarrow> (('c, 'x) world_scheme) Storer \<Rightarrow> (('c, 'x) world_scheme, ShipmentCreated) Handler" where
  "shipmentCreated_handler env storer =
     WithIdempotency (redis_idem_store env) one_day sc_ShipmentId (returning (handleShipmentCreated env storer))"

definition shipmentDelivered_handler ::
  "('c, inv_event) env \<Rightarrow> (('c, 'x) world_scheme) Storer \<Rightarrow> (('c, 'x) world_scheme, ShipmentDelivered) Handler" where
  "shipmentDelivered_handler env storer =
     WithIdempotency (redis_idem_store env) one_day sd_ShipmentId (returning (handleShipmentDelivered env storer))"

definition shipmentCancelled_handler ::
  "('c, inv_event) env \<Rightarrow> (('c, 'x) world_scheme) Storer \<Rightarrow> (('c, 'x) world_scheme, ShipmentCancelled) Handler" where
  "shipmentCancelled_handler env storer =
     WithIdempotency (redis_idem_store env) one_day sx_ShipmentId (returning (handleShipmentCancelled env storer))"

datatype consumer = COrderPlaced | COrderCancelled | COrderShipped
  | CShipmentCreated | CShipmentDelivered | CShipmentCancelled

definition consumer_subject :: "consumer \<Rightarrow> string" where
  "consumer_subject c = (case c of
       COrderPlaced \<Rightarrow> Subject_OrderPlaced
     | COrderCancelled \<Rightarrow> Subject_OrderCanceled
     | COrderShipped \<Rightarrow> Subject_OrderShipped
     | CShipmentCreated \<Rightarrow> Subject_ShipmentCreated
     | CShipmentDelivered \<Rightarrow> Subject_ShipmentDelivered
     | CShipmentCancelled \<Rightarrow> Subject_ShipmentCancelled)"

definition consumer_durable :: "consumer \<Rightarrow> string" where
  "consumer_durable c = (case c of
       COrderPlaced \<Rightarrow> ''inventory-order-placed''
     | COrderCancelled \<Rightarrow> ''inventory-order-cancelled''
     | COrderShipped \<Rightarrow> ''inventory-order-shipped''
     | CShipmentCreated \<Rightarrow> ''inventory-shipment-created''
     | CShipmentDelivered \<Rightarrow> ''inventory-shipment-delivered''
     | CShipmentCancelled \<Rightarrow> ''inventory-shipment-cancelled'')"

definition callback ::
  "('c, inv_event) env \<Rightarrow> (('c, 'x) world_scheme) Storer \<Rightarrow> decoders \<Rightarrow> consumer \<Rightarrow> nats_msg \<Rightarrow>
   (('c, 'x) world_scheme, unit) state" where
  "callback env storer dcs c msg = (case c of
       COrderPlaced \<Rightarrow> consume_msg env (dec_OrderPlaced dcs) (orderPlaced_handler env storer) msg
     | COrderCancelled \<Rightarrow> consume_msg env (dec_OrderCancelled dcs) (orderCancelled_handler env storer) msg
     | COrderShipped \<Rightarrow> consume_msg env (dec_OrderShipped dcs) (orderShipped_handler env storer) msg
     | CShipmentCreated \<Rightarrow> consume_msg env (dec_ShipmentCreated dcs) (shipmentCreated_handler env storer) msg
     | CShipmentDelivered \<Rightarrow>
         consume_msg env (dec_ShipmentDelivered dcs) (shipmentDelivered_handler env storer) msg
     | CShipmentCancelled \<Rightarrow>
         consume_msg env (dec_ShipmentCancelled dcs) (shipmentCancelled_handler env storer) msg)"

subsection \<open>Start\<close>

text \<open>
  \<open>subscribe c subject durable queue\<close> is the subscription for the consumer \<open>c\<close>, with
  its decoder and handler. The first failing subscription ends \<open>Start\<close>; the ones opened before it stay in \<open>s.subs\<close>.
\<close>

fun subscribe_all ::
  "(consumer \<Rightarrow> string \<Rightarrow> string \<Rightarrow> string \<Rightarrow> ('w, goerr + 'sub) state) \<Rightarrow> consumer list \<Rightarrow> 'sub list \<Rightarrow>
   ('w, goerr option \<times> 'sub list) state" where
  "subscribe_all subscribe [] subs = State_Monad.return (None, subs)"
| "subscribe_all subscribe (c # cs) subs =
     do {
       r \<leftarrow> subscribe c (consumer_subject c) (consumer_durable c) ''inventory'';
       case r of
         Inl err \<Rightarrow> State_Monad.return (Some err, subs)
       | Inr sub \<Rightarrow> subscribe_all subscribe cs (subs @ [sub])
     }"

definition start_order :: "consumer list" where
  "start_order = [COrderPlaced, COrderCancelled, COrderShipped,
     CShipmentCreated, CShipmentDelivered, CShipmentCancelled]"

definition Start ::
  "(consumer \<Rightarrow> string \<Rightarrow> string \<Rightarrow> string \<Rightarrow> ('w, goerr + 'sub) state) \<Rightarrow> 'sub list \<Rightarrow>
   ('w, goerr option \<times> 'sub list) state" where
  "Start subscribe subs = subscribe_all subscribe start_order subs"

lemma subscribe_all_length:
  assumes "result (subscribe_all subscribe cs subs) w = (e, subs')"
  shows "take (length subs) subs' = subs \<and> length subs' \<le> length subs + length cs \<and>
    (e = None \<longleftrightarrow> length subs' = length subs + length cs)"
  using assms
proof (induction cs arbitrary: subs w)
  case Nil
  then show ?case by auto
next
  case (Cons c cs)
  let ?m = "subscribe c (consumer_subject c) (consumer_durable c) ''inventory''"
  show ?case
  proof (cases "result ?m w")
    case (Inl err)
    with Cons.prems show ?thesis by (auto simp: split_beta)
  next
    case (Inr sub)
    with Cons.prems have "result (subscribe_all subscribe cs (subs @ [sub])) (exec ?m w) = (e, subs')"
      by (simp add: split_beta)
    from Cons.IH [OF this] have ih: "take (Suc (length subs)) subs' = subs @ [sub]"
      "length subs' \<le> length subs + length (c # cs)"
      "e = None \<longleftrightarrow> length subs' = length subs + length (c # cs)"
      by simp_all
    have "take (length subs) subs' = take (length subs) (take (Suc (length subs)) subs')"
      by (simp add: min_def)
    with ih show ?thesis by simp
  qed
qed

text \<open>
  The service value. The publisher and the idempotency store act on the environment, which
  stands for both; \<open>sv_js\<close> is \<open>QueueSubscribe\<close>.
\<close>

record ('l, 'w, 'c, 'sub) Service =
  sv_log :: 'l
  sv_invBus :: "('l, 'w) Business"
  sv_js :: "('w, 'sub) queue_subscribe"
  sv_env :: "('c, inv_event) env"
  sv_subs :: "'sub list"

definition NewInventoryService ::
  "'l \<Rightarrow> ('l, 'w) Business \<Rightarrow> ('w, 'sub) queue_subscribe \<Rightarrow> ('c, inv_event) env \<Rightarrow> ('l, 'w, 'c, 'sub) Service" where
  "NewInventoryService logger invBus js env =
     \<lparr>sv_log = logger, sv_invBus = invBus, sv_js = js, sv_env = env, sv_subs = []\<rparr>"

definition consume ::
  "('l, ('c, 'x) world_scheme, 'c, 'sub) Service \<Rightarrow> string \<Rightarrow> string \<Rightarrow> string \<Rightarrow> (string \<Rightarrow> goerr + 'evt) \<Rightarrow>
   (('c, 'x) world_scheme, 'evt) Handler \<Rightarrow> (('c, 'x) world_scheme, goerr + 'sub) state" where
  "consume s subject durable queue Unmarshal handler =
     Subscriber_Consume (NewSubscriber (sv_js s) (sv_env s)) subject durable queue Unmarshal handler"

definition service_subscribe ::
  "('l, ('c, 'x) world_scheme, 'c, 'sub) Service \<Rightarrow> decoders \<Rightarrow> consumer \<Rightarrow> string \<Rightarrow> string \<Rightarrow> string \<Rightarrow>
   (('c, 'x) world_scheme, goerr + 'sub) state" where
  "service_subscribe s dcs c subject durable queue =
     (let env = sv_env s; storer = biz_storer (sv_invBus s) in
      case c of
        COrderPlaced \<Rightarrow> consume s subject durable queue (dec_OrderPlaced dcs) (orderPlaced_handler env storer)
      | COrderCancelled \<Rightarrow> consume s subject durable queue (dec_OrderCancelled dcs) (orderCancelled_handler env storer)
      | COrderShipped \<Rightarrow> consume s subject durable queue (dec_OrderShipped dcs) (orderShipped_handler env storer)
      | CShipmentCreated \<Rightarrow> consume s subject durable queue (dec_ShipmentCreated dcs) (shipmentCreated_handler env storer)
      | CShipmentDelivered \<Rightarrow>
          consume s subject durable queue (dec_ShipmentDelivered dcs) (shipmentDelivered_handler env storer)
      | CShipmentCancelled \<Rightarrow>
          consume s subject durable queue (dec_ShipmentCancelled dcs) (shipmentCancelled_handler env storer))"

definition Service_Start ::
  "decoders \<Rightarrow> ('l, ('c, 'x) world_scheme, 'c, 'sub) Service \<Rightarrow>
   (('c, 'x) world_scheme, goerr option \<times> ('l, ('c, 'x) world_scheme, 'c, 'sub) Service) state" where
  "Service_Start dcs s =
     do {
       r \<leftarrow> Start (service_subscribe s dcs) (sv_subs s);
       State_Monad.return (fst r, s\<lparr>sv_subs := snd r\<rparr>)
     }"

text \<open>What \<open>Start\<close> registers for a consumer is its \<open>callback\<close>.\<close>

lemma service_subscribe_callback:
  "service_subscribe s dcs c subject durable queue =
     sv_js s subject queue (callback (sv_env s) (biz_storer (sv_invBus s)) dcs c) (consume_options durable)"
  by (cases c; simp add: service_subscribe_def consume_def Subscriber_Consume_def NewSubscriber_def Let_def;
      rule arg_cong [of _ _ "\<lambda>cb. sv_js s subject queue cb (consume_options durable)"]; rule ext;
      simp add: callback_def)

subsection \<open>The running service\<close>

text \<open>
  A step of the running service: one delivery of any message to one of the consumers, or
  a change of the Redis server that the service did not ask for (an expired key, another
  client). Messages are handled one at a time here; \<open>Inv_Concurrent\<close> lets the callbacks
  of all consumers overlap.
\<close>

inductive svc_step ::
  "('c, inv_event) env \<Rightarrow> (('c, 'x) world_scheme) Storer \<Rightarrow> decoders \<Rightarrow>
   ('c, 'x) world_scheme \<Rightarrow> ('c, 'x) world_scheme \<Rightarrow> bool"
  for env storer dcs where
  deliver: "svc_step env storer dcs w (exec (callback env storer dcs c msg) w)"
| redis_moves: "svc_step env storer dcs w (w\<lparr>w_redis := c\<rparr>)"

inductive_cases svc_stepE: "svc_step env storer dcs w w'"

text \<open>The states the service can be in when it started in \<open>w0\<close>.\<close>

inductive reachable ::
  "('c, inv_event) env \<Rightarrow> (('c, 'x) world_scheme) Storer \<Rightarrow> decoders \<Rightarrow>
   ('c, 'x) world_scheme \<Rightarrow> ('c, 'x) world_scheme \<Rightarrow> bool"
  for env storer dcs w0 where
  start: "reachable env storer dcs w0 w0"
| step: "reachable env storer dcs w0 w \<Longrightarrow> svc_step env storer dcs w w' \<Longrightarrow>
    reachable env storer dcs w0 w'"

text \<open>The rest of a consumer, around the handler, keeps what does not see its bookkeeping.\<close>

lemma keeps_consume_msg:
  assumes "\<And>evt. keeps I (h evt)" and "\<And>r. keeps I (PublishDLQ env msg r)" and "\<And>s. keeps I (settle s)"
  shows "keeps I (consume_msg env U h msg)"
  unfolding consume_msg_def
  by (intro keeps_case_sum keeps_bind keeps_case_call keeps_case_option keeps_if assms)

lemma keeps_WithIdempotency:
  assumes "\<And>evt. keeps I (h evt)" and "\<And>i. keeps I (Seen idem i)" and "\<And>i t. keeps I (Mark idem i t)"
  shows "keeps I (WithIdempotency idem ttl ex h evt)"
  unfolding WithIdempotency_def Let_def
  by (intro keeps_bind keeps_case_call keeps_case_option keeps_if keeps_return assms)

lemma keeps_returning: "keeps I (h evt) \<Longrightarrow> keeps I (returning h evt)"
  unfolding returning_def by (intro keeps_bind keeps_return)

lemma rows_ok_redis [simp]: "rows_ok (w\<lparr>w_redis := c\<rparr>) = rows_ok w"
  by (simp add: rows_ok_def)

lemma keeps_rows_settle: "keeps rows_ok (settle s)"
  by (rule keepsI) (simp add: settle_def rows_ok_def inv_rows_def)

lemma keeps_rows_dlq: "keeps rows_ok (PublishDLQ env msg r)"
  by (rule keepsI)
    (simp add: PublishDLQ_def uuid_NewString_def js_PublishMsg_def tick_def rows_ok_def)

lemma keeps_rows_idem:
  "keeps rows_ok (Seen (redis_idem_store env) i)" "keeps rows_ok (Mark (redis_idem_store env) i t)"
  by (rule keepsI; simp add: redis_idem_store_def redis_Seen_def redis_Mark_def on_redis_def split_beta)+

lemma keeps_callback:
  assumes "\<And>e. keeps I (handleOrderPlaced env S e)"
    and "\<And>e. keeps I (handleOrderCancelled env S e)"
    and "\<And>e. keeps I (handleOrderShipped env S e)"
    and "\<And>e. keeps I (handleShipmentCreated env S e)"
    and "\<And>e. keeps I (handleShipmentDelivered env S e)"
    and "\<And>e. keeps I (handleShipmentCancelled env S e)"
    and "\<And>s. keeps I (settle s)" and "\<And>r. keeps I (PublishDLQ env msg r)"
    and "\<And>i. keeps I (Seen (redis_idem_store env) i)" and "\<And>i t. keeps I (Mark (redis_idem_store env) i t)"
  shows "keeps I (callback env S dcs c msg)"
  unfolding callback_def orderPlaced_handler_def orderCancelled_handler_def orderShipped_handler_def
    shipmentCreated_handler_def shipmentDelivered_handler_def shipmentCancelled_handler_def
  by (cases c) (simp_all add: keeps_consume_msg keeps_WithIdempotency keeps_returning assms)

lemma reachable_keeps:
  assumes "reachable env S dcs w0 w" and "I w0"
    and "\<And>c msg. keeps I (callback env S dcs c msg)" and "\<And>w c. I w \<Longrightarrow> I (w\<lparr>w_redis := c\<rparr>)"
  shows "I w"
  using assms(1)
proof (induction rule: reachable.induct)
  case start
  show ?case by (rule assms(2))
next
  case (step w w')
  from step.hyps(2) step.IH show ?case
    by (cases rule: svc_stepE) (auto intro: keepsD [OF assms(3)] assms(4))
qed

subsection \<open>Stop\<close>

text \<open>
  The drain goroutine walks over the subscriptions while \<open>Stop\<close> waits for it or for the
  context. \<open>so_next\<close> is the goroutine's position, \<open>so_unsubscribed\<close> the positions on
  which \<open>Unsubscribe\<close> was called, \<open>so_return\<close> what \<open>Stop\<close> returned, once it did.
\<close>

record 'sub stop_state =
  so_subs :: "'sub option list"
  so_field :: "'sub option list"
  so_next :: nat
  so_done :: bool
  so_unsubscribed :: "nat set"
  so_return :: "goerr option option"

definition stop_init :: "'sub option list \<Rightarrow> 'sub stop_state" where
  "stop_init subs = \<lparr>so_subs = subs, so_field = subs, so_next = 0, so_done = False,
     so_unsubscribed = {}, so_return = (if subs = [] then Some None else None)\<rparr>"

definition live_positions :: "'sub option list \<Rightarrow> nat set" where
  "live_positions subs = {i. i < length subs \<and> subs ! i \<noteq> None}"

text \<open>
  Whether \<open>Drain\<close> fails or not, the goroutine calls \<open>Unsubscribe\<close> on the
  subscription; a nil subscription is skipped.
\<close>

inductive stop_step :: "goerr \<Rightarrow> 'sub stop_state \<Rightarrow> 'sub stop_state \<Rightarrow> bool" for ctx_err where
  drain_nil: "so_next s < length (so_subs s) \<Longrightarrow> so_subs s ! so_next s = None \<Longrightarrow> so_subs s \<noteq> [] \<Longrightarrow>
    stop_step ctx_err s (s\<lparr>so_next := Suc (so_next s)\<rparr>)"
| drain_sub: "so_next s < length (so_subs s) \<Longrightarrow> so_subs s ! so_next s = Some sub \<Longrightarrow>
    stop_step ctx_err s (s\<lparr>so_next := Suc (so_next s),
      so_unsubscribed := insert (so_next s) (so_unsubscribed s)\<rparr>)"
| close_done: "so_next s = length (so_subs s) \<Longrightarrow> so_subs s \<noteq> [] \<Longrightarrow>
    stop_step ctx_err s (s\<lparr>so_done := True\<rparr>)"
| select_done: "so_done s \<Longrightarrow> so_return s = None \<Longrightarrow>
    stop_step ctx_err s (s\<lparr>so_field := [], so_return := Some None\<rparr>)"
| select_ctx: "so_return s = None \<Longrightarrow>
    stop_step ctx_err s (s\<lparr>so_unsubscribed := so_unsubscribed s \<union> live_positions (so_field s),
      so_return := Some (Some ctx_err)\<rparr>)"

inductive stop_reachable :: "goerr \<Rightarrow> 'sub option list \<Rightarrow> 'sub stop_state \<Rightarrow> bool" for ctx_err subs where
  stop_start: "stop_reachable ctx_err subs (stop_init subs)"
| stop_more: "stop_reachable ctx_err subs s \<Longrightarrow> stop_step ctx_err s t \<Longrightarrow> stop_reachable ctx_err subs t"

text \<open>
  The invariant: the goroutine has unsubscribed every live subscription it has passed, the
  field still holds the subscriptions until \<open>Stop\<close> returned nil, and a returned
  \<open>Stop\<close> leaves no live subscription behind.
\<close>

definition stop_inv :: "'sub option list \<Rightarrow> 'sub stop_state \<Rightarrow> bool" where
  "stop_inv subs s \<longleftrightarrow>
     so_subs s = subs \<and>
     so_next s \<le> length subs \<and>
     (\<forall>i \<in> live_positions subs. i < so_next s \<longrightarrow> i \<in> so_unsubscribed s) \<and>
     (so_done s \<longrightarrow> so_next s = length subs) \<and>
     (so_return s \<noteq> Some None \<longrightarrow> so_field s = subs) \<and>
     (so_return s = Some None \<longrightarrow> so_field s = []) \<and>
     (so_return s \<noteq> None \<longrightarrow> live_positions subs \<subseteq> so_unsubscribed s)"

lemma stop_inv_init: "stop_inv subs (stop_init subs)"
  by (auto simp: stop_inv_def stop_init_def live_positions_def)

lemma stop_inv_step:
  assumes "stop_step ctx_err s t" and "stop_inv subs s"
  shows "stop_inv subs t"
  using assms
proof (cases rule: stop_step.cases)
  case drain_nil
  with assms(2) show ?thesis
    by (auto simp: stop_inv_def live_positions_def less_Suc_eq)
next
  case (drain_sub sub)
  with assms(2) show ?thesis
    by (auto simp: stop_inv_def live_positions_def less_Suc_eq)
next
  case close_done
  with assms(2) show ?thesis by (auto simp: stop_inv_def)
next
  case select_done
  with assms(2) show ?thesis by (auto simp: stop_inv_def live_positions_def)
next
  case select_ctx
  with assms(2) show ?thesis by (auto simp: stop_inv_def)
qed

lemma stop_reachable_inv: "stop_reachable ctx_err subs s \<Longrightarrow> stop_inv subs s"
  by (induction rule: stop_reachable.induct) (auto intro: stop_inv_init stop_inv_step)

subsection \<open>Properties\<close>

lemma stop_returns_ctx_err:
  "stop_reachable ctx_err subs s \<Longrightarrow> so_return s = Some (Some e) \<Longrightarrow> e = ctx_err"
proof (induction rule: stop_reachable.induct)
  case stop_start
  then show ?case by (simp add: stop_init_def split: if_splits)
next
  case (stop_more s t)
  from stop_more.hyps(2) stop_more.IH stop_more.prems show ?case
    by (cases rule: stop_step.cases) auto
qed

lemma cached_callback_keeps:
  "keeps rows_ok (callback env (invcache_Store env (invdb_Store env)) dcs c msg)"
  by (intro keeps_callback keeps_rows_settle keeps_rows_dlq keeps_rows_idem
      invcache_service.handlers_keep [unfolded all_ok_rows_ok])

text \<open>
  in every state the running service can reach, over the cached store, whatever messages
  arrive in whatever order and number, whatever the clock, NATS, Redis and the database
  answer and whatever happens to Redis in between, every row satisfies the constraints:
  the reserved quantity is not negative and never exceeds the quantity on hand, and the
  row is stored under its own key.
\<close>

theorem service_never_oversells:
  assumes "reachable env (invcache_Store env (invdb_Store env)) dcs w0 w" and "rows_ok w0"
    and "inv_rows w k = Some iv"
  shows "0 \<le> sint (inv_Reserved iv) \<and> sint (inv_Reserved iv) \<le> sint (inv_OnHand iv) \<and>
    sint (inv_OnHand iv) < 2 ^ 31 \<and> 0 \<le> sint (inv_Incoming iv) \<and> inv_key iv = k"
proof -
  have "rows_ok w"
    using assms(1,2) by (rule reachable_keeps) (simp_all add: cached_callback_keeps)
  with assms(3) have "inv_ok iv" "inv_key iv = k"
    unfolding rows_ok_def by blast+
  then show ?thesis
    by (simp add: inv_ok_iff)
qed

definition demo_decoders :: decoders where
  "demo_decoders = \<lparr>dec_OrderPlaced = (\<lambda>s. Inr (demo_order 3)),
     dec_OrderCancelled = (\<lambda>s. Inl (ErrMsg [])), dec_OrderShipped = (\<lambda>s. Inl (ErrMsg [])),
     dec_ShipmentCreated = (\<lambda>s. Inl (ErrMsg [])), dec_ShipmentDelivered = (\<lambda>s. Inl (ErrMsg [])),
     dec_ShipmentCancelled = (\<lambda>s. Inl (ErrMsg []))\<rparr>"

lemma demo_reachable:
  "reachable demo_env (invcache_Store demo_env (invdb_Store demo_env)) demo_decoders demo_world
    (demo_world\<lparr>w_redis := [''k'' \<mapsto> MString ''v'']\<rparr>)"
  by (rule reachable.step [OF reachable.start svc_step.redis_moves])

theorem service_never_oversells_witness:
  "sint (inv_Reserved (bus_of_row demo_row)) \<le> sint (inv_OnHand (bus_of_row demo_row))"
  using service_never_oversells [OF demo_reachable demo_rows_ok, of "(''JHB'', ''S1'')" "bus_of_row demo_row"]
  by (simp add: demo_rows)

text \<open>
  \<open>Start\<close> opens the six subscriptions in order and reports success exactly when all six
  were opened; when one fails, the ones opened before it, and nothing else, have been added
  to the service's list, so that \<open>Stop\<close> can still find them.
\<close>

theorem Start_subscribes:
  assumes "result (Start subscribe subs) w = (e, subs')"
  shows "take (length subs) subs' = subs \<and> length subs' \<le> length subs + 6 \<and>
    (e = None \<longleftrightarrow> length subs' = length subs + 6)"
proof -
  have "length start_order = 6"
    by (simp add: start_order_def)
  then show ?thesis
    using subscribe_all_length [of subscribe start_order subs w e subs'] assms
    by (simp add: Start_def)
qed

definition third_fails :: "consumer \<Rightarrow> string \<Rightarrow> string \<Rightarrow> string \<Rightarrow> (nat, goerr + nat) state" where
  "third_fails c subj durable queue = State (\<lambda>n. if n = 2 then (Inl (ErrMsg ''down''), n) else (Inr n, Suc n))"

lemma third_fails_run: "result (Start third_fails []) 0 = (Some (ErrMsg ''down''), [0, 1])"
  by (simp add: Start_def start_order_def third_fails_def)

theorem Start_subscribes_witness: "length (snd (result (Start third_fails []) 0)) \<le> 6"
  using Start_subscribes [OF third_fails_run] by (simp add: third_fails_run)

text \<open>
  C39: \<open>Stop\<close>: however the drain goroutine and the expiry of the context interleave, once
  \<open>Stop\<close> has returned, every live subscription has been unsubscribed; it returns nil only
  after it emptied the list, and the context's error otherwise.
\<close>

theorem Stop_unsubscribes:
  assumes "stop_reachable ctx_err subs s" and "so_return s = Some r"
  shows "live_positions subs \<subseteq> so_unsubscribed s \<and> (r = None \<longrightarrow> so_field s = []) \<and>
    (r \<noteq> None \<longrightarrow> r = Some ctx_err)"
  using stop_reachable_inv [OF assms(1)] stop_returns_ctx_err [OF assms(1)] assms(2)
  by (cases r) (auto simp: stop_inv_def)

lemma demo_stop: "stop_reachable (ErrMsg ''deadline'') [Some (1::nat), None]
    ((stop_init [Some 1, None])\<lparr>so_unsubscribed := {0}, so_return := Some (Some (ErrMsg ''deadline''))\<rparr>)"
proof -
  have "live_positions [Some (1::nat), None] = {0}"
    by (auto simp: live_positions_def less_Suc_eq)
  then show ?thesis
    using stop_more [OF stop_start select_ctx, of "[Some (1::nat), None]" "ErrMsg ''deadline''"]
    by (simp add: stop_init_def)
qed

theorem Stop_unsubscribes_witness: "live_positions [Some (1::nat), None] \<subseteq> {0}"
  using Stop_unsubscribes [OF demo_stop] by simp

end
