(* ===== verification/Inv_Typing.thy ===== *)
theory Inv_Typing
  imports Inv_Consumers
begin

section \<open>What the inventory service puts on the wire\<close>

text \<open>
  A typing invariant of the running service: every message it has handed to JetStream is
  the encoding of an event whose metadata names the subject it was published on, or a dead
  letter that names the subject of its original.
\<close>

primrec event_subject :: "inv_event \<Rightarrow> string" where
  "event_subject (EvReserved e) = Subject_InventoryReserved"
| "event_subject (EvUpdated e) = Subject_InventoryUpdated"
| "event_subject (EvReservationFailed e) = Subject_InventoryReservationFailed"

primrec event_metadata :: "inv_event \<Rightarrow> EventMetadata option" where
  "event_metadata (EvReserved e) = ir_Metadata e"
| "event_metadata (EvUpdated e) = iu_Metadata e"
| "event_metadata (EvReservationFailed e) = if_Metadata e"

definition typed_metadata :: "string \<Rightarrow> EventMetadata \<Rightarrow> bool" where
  "typed_metadata subject md \<longleftrightarrow> md_EventType md = subject \<and> md_Producer md = ''inventory-service'' \<and>
     md_SchemaVersion md = 1 \<and> md_OccurredAt md \<noteq> None"

definition announced :: "('c, inv_event) env \<Rightarrow> pub_call \<Rightarrow> bool" where
  "announced env call \<longleftrightarrow> (\<exists>ev md. e_marshal env ev = Inr (pc_Data call) \<and>
     pc_Subject call = event_subject ev \<and> event_metadata ev = Some md \<and>
     typed_metadata (event_subject ev) md)"

definition dead_letter :: "pub_call \<Rightarrow> bool" where
  "dead_letter call \<longleftrightarrow> (\<exists>subject reason. pc_Subject call = ''dlq.'' @ subject \<and>
     pc_Header call ''dlq-original-subject'' = Some [subject] \<and> pc_Header call ''dlq-reason'' = Some [reason])"

definition wire_ok :: "('c, inv_event) env \<Rightarrow> ('c, 'x) world_scheme \<Rightarrow> bool" where
  "wire_ok env w \<longleftrightarrow> (\<forall>call \<in> set (w_pub w). announced env call \<or> dead_letter call)"

subsection \<open>Operations that publish nothing\<close>

lemma wire_ok_same: "w_pub w' = w_pub w \<Longrightarrow> wire_ok env w \<Longrightarrow> wire_ok env w'"
  by (simp add: wire_ok_def)

lemma silent_keeps: "(\<And>w. w_pub (exec m w) = w_pub w) \<Longrightarrow> keeps (wire_ok env) m"
  by (rule keepsI) (rule wire_ok_same)

lemma pub_now [simp]: "w_pub (exec (time_Now env) w) = w_pub w"
  by (simp add: time_Now_def tick_def)

lemma pub_on_redis [simp]: "w_pub (exec (on_redis cmd) w) = w_pub w"
  by (simp add: on_redis_def split_beta)

lemma pub_cache [simp]:
  "w_pub (exec (deleteCache env l k) w) = w_pub w" "w_pub (exec (writeCache env iv) w) = w_pub w"
  by (simp_all add: deleteCache_def writeCache_def)

lemma pub_settle [simp]: "w_pub (exec (settle s) w) = w_pub w"
  by (simp add: settle_def)

lemmas silent = silent_keeps [OF pub_now] silent_keeps [OF pub_uuid] silent_keeps [OF pub_on_redis]
  silent_keeps [OF pub_settle] silent_keeps [OF pub_metadata] silent_keeps [OF pub_invdb_get]
  silent_keeps [OF pub_invdb_update] silent_keeps [OF pub_cache(1)] silent_keeps [OF pub_cache(2)]

lemmas wire_intros = keeps_bind keeps_case_sum keeps_case_option keeps_if keeps_return silent

subsection \<open>Publishing\<close>

lemma wire_dlq: "keeps (wire_ok env) (PublishDLQ env msg reason)"
proof (rule keepsI)
  fix w :: "('a, 'b) world_scheme"
  assume "wire_ok env w"
  then show "wire_ok env (exec (PublishDLQ env msg reason) w)"
    by (simp add: wire_ok_def PublishDLQ_def uuid_NewString_def js_PublishMsg_def tick_def dead_letter_def
        dlq_call_def)
qed

lemma wire_publish:
  assumes "event_metadata ev = Some md" and "typed_metadata (event_subject ev) md"
  shows "keeps (wire_ok env) (Publish env (event_subject ev) ev)"
proof (rule keepsI)
  fix w :: "('a, 'b) world_scheme"
  assume "wire_ok env w"
  then show "wire_ok env (exec (Publish env (event_subject ev) ev) w)"
    using assms
    by (cases "e_marshal env ev")
      (auto simp: wire_ok_def Publish_def inject_header_def uuid_NewString_def js_PublishMsg_def tick_def
        announced_def)
qed

text \<open>An event with fresh metadata for the subject it goes to.\<close>

lemma wire_publish_fresh:
  assumes "\<And>md. event_subject (mk md) = subject" and "\<And>md. event_metadata (mk md) = Some md"
    and "\<And>r. keeps (wire_ok env) (rest r)"
  shows "keeps (wire_ok env) (State_Monad.bind (newMetadata env subject) (\<lambda>md.
    State_Monad.bind (Publish env subject (mk md)) rest))"
proof (rule keepsI)
  fix w :: "('a, 'b) world_scheme"
  assume w: "wire_ok env w"
  let ?md = "result (newMetadata env subject) w" and ?w1 = "exec (newMetadata env subject) w"
  have "typed_metadata subject ?md"
    by (simp add: newMetadata_def typed_metadata_def split_beta)
  then have p: "keeps (wire_ok env) (Publish env (event_subject (mk ?md)) (mk ?md))"
    using assms by (intro wire_publish) simp_all
  have "wire_ok env ?w1"
    using w by (rule wire_ok_same [OF pub_metadata])
  with p have "wire_ok env (exec (Publish env subject (mk ?md)) ?w1)"
    unfolding assms(1) by (rule keepsD)
  then show "wire_ok env (exec (State_Monad.bind (newMetadata env subject) (\<lambda>md.
      State_Monad.bind (Publish env subject (mk md)) rest)) w)"
    using assms(3) by (simp add: split_beta keeps_def)
qed

lemma bind_return_right: "State_Monad.bind m State_Monad.return = m"
  by simp

lemma wire_updated [intro]: "keeps (wire_ok env) (publish_updated env iv reason)"
  unfolding publish_updated_def
  by (subst bind_return_right [symmetric, of "Publish env Subject_InventoryUpdated _"])
    (rule wire_publish_fresh; simp add: updated_event_def keeps_return)

lemma wire_reserved [intro]:
  assumes "\<And>r. keeps (wire_ok env) (rest r)"
  shows "keeps (wire_ok env) (State_Monad.bind (newMetadata env Subject_InventoryReserved) (\<lambda>md.
    State_Monad.bind (Publish env Subject_InventoryReserved (EvReserved
      \<lparr>ir_Metadata = Some md, ir_WarehouseId = a, ir_Sku = b, ir_ReservationId = c, ir_OrderId = d,
       ir_ReservedQuantity = e, ir_QuantityAvailableAfter = f, ir_QuantityReservedAfter = g\<rparr>)) rest))"
  by (rule wire_publish_fresh) (simp_all add: assms)

lemma wire_failed [intro]:
  "keeps (wire_ok env) (State_Monad.bind (newMetadata env Subject_InventoryReservationFailed) (\<lambda>md.
    Publish env Subject_InventoryReservationFailed (EvReservationFailed
      \<lparr>if_Metadata = Some md, if_WarehouseId = a, if_Sku = b, if_OrderId = c, if_RequestedQuantity = d,
       if_AvailableQuantity = e, if_Reason = f\<rparr>)))"
  by (subst bind_return_right [symmetric, of "Publish env Subject_InventoryReservationFailed _"])
    (rule wire_publish_fresh; simp add: keeps_return)

subsection \<open>The handlers over the cached store\<close>

abbreviation cached_store :: "('c, inv_event) env \<Rightarrow> (('c, 'x) inv_world_scheme) Storer" where
  "cached_store env \<equiv> invcache_Store env (invdb_Store env)"

lemma wire_get [intro]: "keeps (wire_ok env) (bus_GetInventory (cached_store env) l k)"
  unfolding bus_GetInventory_def
  by (simp add: invcache_Store_def invcache_GetInventory_def readCache_def invdb_Store_def)
    (intro wire_intros)

lemma wire_update [intro]: "keeps (wire_ok env) (bus_UpdateInventory (time_Now env) (cached_store env) iv u)"
  unfolding bus_UpdateInventory_def Let_def
  by (simp add: invcache_Store_def invcache_UpdateInventory_def invdb_Store_def)
    (intro wire_intros)

lemma wire_tail [intro]: "keeps (wire_ok env) (update_and_publish env (cached_store env) iv u reason)"
  unfolding update_and_publish_def by (intro wire_intros wire_update wire_updated)

lemmas handler_wire = wire_intros wire_get wire_update wire_updated wire_tail

lemma wire_handlers:
  "keeps (wire_ok env) (handleOrderPlaced env (cached_store env) e1)"
  "keeps (wire_ok env) (handleOrderCancelled env (cached_store env) e2)"
  "keeps (wire_ok env) (handleOrderShipped env (cached_store env) e3)"
  "keeps (wire_ok env) (handleShipmentCreated env (cached_store env) e4)"
  "keeps (wire_ok env) (handleShipmentDelivered env (cached_store env) e5)"
  "keeps (wire_ok env) (handleShipmentCancelled env (cached_store env) e6)"
  unfolding handleOrderPlaced_def orderPlaced_after_read_def handleOrderCancelled_def orderCancelled_after_read_def
    handleOrderShipped_def orderShipped_after_read_def handleShipmentCreated_def handleShipmentDelivered_def
    handleShipmentCancelled_def shipmentCancelled_after_read_def Let_def
  by (intro wire_failed wire_reserved handler_wire)+

lemma wire_callback: "keeps (wire_ok env) (callback env (cached_store env) dcs c msg)"
  by (intro keeps_callback wire_handlers wire_dlq silent)
    (simp_all add: redis_idem_store_def redis_Seen_def redis_Mark_def silent wire_intros)

subsection \<open>Properties\<close>

text \<open>
  whatever happens to the running inventory service, every message it has published is
  well typed: it is the encoding of an event that belongs on its subject, with metadata that
  gives that subject as the event type, this service as the producer, schema version 1 and a
  time; or it is a dead letter on \<open>dlq.\<close> and the subject of its original, which its headers
  name together with a reason.
\<close>

theorem published_events_typed:
  assumes "reachable env (cached_store env) dcs w0 w" and "w_pub w0 = []" and "call \<in> set (w_pub w)"
  shows "(\<exists>ev md. e_marshal env ev = Inr (pc_Data call) \<and> pc_Subject call = event_subject ev \<and>
      event_metadata ev = Some md \<and> md_EventType md = event_subject ev \<and>
      md_Producer md = ''inventory-service'' \<and> md_SchemaVersion md = 1 \<and> md_OccurredAt md \<noteq> None) \<or>
    (\<exists>subject reason. pc_Subject call = ''dlq.'' @ subject \<and>
      pc_Header call ''dlq-original-subject'' = Some [subject] \<and> pc_Header call ''dlq-reason'' = Some [reason])"
proof -
  have "wire_ok env w0"
    by (simp add: wire_ok_def assms(2))
  with assms(1) have "wire_ok env w"
    by (rule reachable_keeps) (rule wire_callback, simp add: wire_ok_def)
  with assms(3) show ?thesis
    by (auto simp: wire_ok_def announced_def typed_metadata_def dead_letter_def)
qed

text \<open>A cancellation that cannot be decoded: the one message published is its dead letter.\<close>

definition bad_msg :: nats_msg where
  "bad_msg = \<lparr>nm_Subject = ''order.cancelled'', nm_Data = ''x'', nm_Header = Map.empty, nm_NumDelivered = Some 1\<rparr>"

lemma bad_msg_reachable:
  "reachable demo_env (cached_store demo_env) demo_decoders demo_world
    (exec (callback demo_env (cached_store demo_env) demo_decoders COrderCancelled bad_msg) demo_world)"
  by (rule reachable.step [OF reachable.start svc_step.deliver])

lemma bad_msg_published:
  "w_pub (exec (callback demo_env (cached_store demo_env) demo_decoders COrderCancelled bad_msg) demo_world) =
    [dlq_call bad_msg ''unmarshal_error'' (FormatInt 0)]"
  by (simp add: callback_def consume_msg_def demo_decoders_def demo_world_def PublishDLQ_def uuid_NewString_def
      js_PublishMsg_def settle_def tick_def)

theorem published_events_typed_witness:
  "(\<exists>ev. pc_Subject (dlq_call bad_msg ''unmarshal_error'' (FormatInt 0)) = event_subject ev) \<or>
    (\<exists>subject reason. pc_Subject (dlq_call bad_msg ''unmarshal_error'' (FormatInt 0)) = ''dlq.'' @ subject \<and>
      pc_Header (dlq_call bad_msg ''unmarshal_error'' (FormatInt 0)) ''dlq-reason'' = Some [reason])"
  using published_events_typed [OF bad_msg_reachable, of "dlq_call bad_msg ''unmarshal_error'' (FormatInt 0)"]
  unfolding bad_msg_published by (auto simp: demo_world_def)

end
