(* ===== verification/Programs.thy ===== *)
theory Programs
  imports World
begin

section \<open>Programs that can be interrupted\<close>

text \<open>
  A goroutine as a program of one step per outside call, the pool of running goroutines of
  all replicas, and what the proofs about pools share: a program run without interruption,
  invariants that every step of a program keeps, bounds on the number of its calls, and
  that a pool without new tasks comes to rest.
\<close>

subsection \<open>Programs\<close>

datatype ('w, 'a) prog = Ret 'a | Step "('w, ('w, 'a) prog) state"

primrec bindp :: "('w, 'a) prog \<Rightarrow> ('a \<Rightarrow> ('w, 'b) prog) \<Rightarrow> ('w, 'b) prog" where
  "bindp (Ret a) f = f a"
| "bindp (Step m) f = Step (map_state (\<lambda>p. bindp p f) m)"

definition atom :: "('w, 'a) state \<Rightarrow> ('w, 'a) prog" where
  "atom m = Step (map_state Ret m)"

text \<open>The program run to its end without interruption.\<close>

primrec collapse :: "('w, 'a) prog \<Rightarrow> ('w, 'a) state" where
  "collapse (Ret a) = State_Monad.return a"
| "collapse (Step m) = State_Monad.bind (map_state collapse m) id"

lemma run_map_state [simp]: "run_state (map_state f m) w = map_prod f id (run_state m w)"
  by (cases m) (simp add: fun_eq_iff)

lemma state_eqI: "(\<And>w. run_state m w = run_state n w) \<Longrightarrow> m = n"
  by (rule state.expand) (simp add: fun_eq_iff)

lemma collapse_Step_run:
  "run_state (collapse (Step m)) w = run_state (collapse (result m w)) (exec m w)"
  by (simp add: split_beta)

lemma collapse_atom [simp]: "collapse (atom m) = m"
  by (rule state_eqI) (simp add: atom_def split_beta)

lemma result_in_set: "result m w \<in> set_state m"
  by (cases m) (auto intro: fsts.intros)

lemma collapse_bindp [simp]:
  "collapse (bindp p f) = State_Monad.bind (collapse p) (\<lambda>a. collapse (f a))"
proof (induction p)
  case (Ret a)
  show ?case by simp
next
  case (Step m)
  have "run_state (collapse (bindp (Step m) f)) w =
      run_state (State_Monad.bind (collapse (Step m)) (\<lambda>a. collapse (f a))) w" for w
    using Step.IH [OF result_in_set, of w] by (simp add: split_beta)
  then show ?case by (rule state_eqI)
qed

lemma bindp_assoc: "bindp (bindp p f) g = bindp p (\<lambda>a. bindp (f a) g)"
proof (induction p)
  case (Step m)
  then show ?case
    by (simp add: state.map_comp o_def cong: state.map_cong)
qed simp

lemmas collapse_cases = if_distrib [of collapse] option.case_distrib [of collapse]
  sum.case_distrib [of collapse] call.case_distrib [of collapse] Let_def

lemmas case_congs = if_cong option.case_cong sum.case_cong call.case_cong

lemmas bindp_cases = option.case_distrib [of "\<lambda>p. bindp p f" for f] sum.case_distrib [of "\<lambda>p. bindp p f" for f]

lemma bindp_atom: "bindp (atom m) f = Step (map_state f m)"
  by (simp add: atom_def state.map_comp o_def)

lemma bindp_Ret: "bindp p Ret = p"
proof (induction p)
  case (Step m)
  then show ?case
    by (simp add: state.map_ident_strong)
qed simp

subsection \<open>Tasks\<close>

datatype 'w task = Running "('w, unit) prog" | Killed

text \<open>The tasks that have run to their end.\<close>

definition finished :: "'w task \<Rightarrow> bool" where
  "finished t \<longleftrightarrow> (case t of Running (Ret _) \<Rightarrow> True | _ \<Rightarrow> False)"

lemma finished_simps [simp]:
  "finished (Running (Ret a))" "\<not> finished (Running (Step m))" "\<not> finished Killed"
  by (simp_all add: finished_def)

lemma count_update:
  assumes "i < length ts" and "\<not> P (ts ! i)"
  shows "length (filter P (ts[i := t])) = length (filter P ts) + (if P t then 1 else 0)"
  using assms
proof (induction ts arbitrary: i)
  case Nil
  then show ?case by simp
next
  case (Cons x xs)
  then show ?case by (cases i) simp_all
qed

text \<open>One outside call of one task.\<close>

inductive call_step :: "'w \<times> 'w task list \<Rightarrow> 'w \<times> 'w task list \<Rightarrow> bool" where
  call: "i < length ts \<Longrightarrow> ts ! i = Running (Step m) \<Longrightarrow>
    call_step (w, ts) (exec m w, ts[i := Running (result m w)])"

subsection \<open>Running one task to its end\<close>

lemma call_prefix:
  assumes "i < length ts"
  shows "call_step\<^sup>*\<^sup>* (w, ts[i := Running (bindp p f)])
    (exec (collapse p) w, ts[i := Running (f (result (collapse p) w))])"
proof (induction p arbitrary: w)
  case (Ret a)
  show ?case by simp
next
  case (Step m)
  let ?p = "result m w" and ?ts = "ts[i := Running (bindp (Step m) f)]"
  have "call_step (w, ?ts) (exec m w, ?ts[i := Running (bindp ?p f)])"
    using call [of i ?ts "map_state (\<lambda>p. bindp p f) m" w] assms by simp
  moreover have "call_step\<^sup>*\<^sup>* (exec m w, ts[i := Running (bindp ?p f)])
      (exec (collapse ?p) (exec m w), ts[i := Running (f (result (collapse ?p) (exec m w)))])"
    by (rule Step.IH [OF result_in_set])
  ultimately show ?case
    by (simp add: split_beta converse_rtranclp_into_rtranclp)
qed

subsection \<open>Rules for invariants of programs\<close>

text \<open>
  \<open>keeps_p I Q p\<close>: every step of \<open>p\<close> that starts in a world of \<open>I\<close> ends in one, and
  what \<open>p\<close> returns satisfies \<open>Q\<close>. Since the other tasks keep \<open>I\<close> too, \<open>p\<close> may be
  interrupted anywhere.
\<close>

inductive keeps_p :: "('w \<Rightarrow> bool) \<Rightarrow> ('a \<Rightarrow> bool) \<Rightarrow> ('w, 'a) prog \<Rightarrow> bool" for I Q where
  keeps_Ret: "Q a \<Longrightarrow> keeps_p I Q (Ret a)"
| keeps_Step: "(\<And>w. I w \<Longrightarrow> I (exec m w)) \<Longrightarrow> (\<And>w. I w \<Longrightarrow> keeps_p I Q (result m w)) \<Longrightarrow>
    keeps_p I Q (Step m)"

inductive_cases keeps_StepE: "keeps_p I Q (Step m)"

lemma keeps_atom: "(\<And>w. I w \<Longrightarrow> I (exec m w) \<and> Q (result m w)) \<Longrightarrow> keeps_p I Q (atom m)"
  unfolding atom_def by (rule keeps_Step) (auto intro: keeps_Ret)

lemma keeps_bindp:
  assumes "keeps_p I Q p" and "\<And>a. Q a \<Longrightarrow> keeps_p I R (f a)"
  shows "keeps_p I R (bindp p f)"
  using assms(1)
proof induction
  case (keeps_Ret a)
  then show ?case by (simp add: assms(2))
next
  case (keeps_Step m)
  then show ?case
    by (auto intro!: keeps_p.keeps_Step)
qed

abbreviation any :: "'a \<Rightarrow> bool" where
  "any \<equiv> \<lambda>_. True"

abbreviation none :: "'a \<Rightarrow> bool" where
  "none \<equiv> \<lambda>_. False"

lemmas keeps_seq = keeps_bindp [where Q = any]

lemma keeps_case:
  "(\<And>e. keeps_p I Q (f e)) \<Longrightarrow> (\<And>x. keeps_p I Q (g x)) \<Longrightarrow> keeps_p I Q (case r of Inl e \<Rightarrow> f e | Inr x \<Rightarrow> g x)"
  "(\<And>e. keeps_p I Q (f e)) \<Longrightarrow> keeps_p I Q q \<Longrightarrow> keeps_p I Q (case s of None \<Rightarrow> q | Some e \<Rightarrow> f e)"
  by (cases r; simp) (cases s; simp)

subsection \<open>Pools\<close>

text \<open>
  A step of a pool is the start of a task whose program is one of \<open>N\<close>, one outside call
  of one task, the death of one task with its process, or a change of the world that no
  task made (\<open>E\<close>).
\<close>

inductive task_step ::
  "(('w, unit) prog \<Rightarrow> bool) \<Rightarrow> ('w \<Rightarrow> 'w \<Rightarrow> bool) \<Rightarrow> 'w \<times> 'w task list \<Rightarrow> 'w \<times> 'w task list \<Rightarrow> bool"
  for N E where
  task_start: "N p \<Longrightarrow> task_step N E (w, ts) (w, ts @ [Running p])"
| task_call: "i < length ts \<Longrightarrow> ts ! i = Running (Step m) \<Longrightarrow>
    task_step N E (w, ts) (exec m w, ts[i := Running (result m w)])"
| task_crash: "i < length ts \<Longrightarrow> ts ! i = Running (Step m) \<Longrightarrow>
    task_step N E (w, ts) (w, ts[i := Killed])"
| task_other: "E w w' \<Longrightarrow> task_step N E (w, ts) (w', ts)"

definition task_reachable ::
  "(('w, unit) prog \<Rightarrow> bool) \<Rightarrow> ('w \<Rightarrow> 'w \<Rightarrow> bool) \<Rightarrow> 'w \<Rightarrow> 'w \<times> 'w task list \<Rightarrow> bool" where
  "task_reachable N E w0 s \<longleftrightarrow> (task_step N E)\<^sup>*\<^sup>* (w0, []) s"

lemma task_calls: "call_step\<^sup>*\<^sup>* s s' \<Longrightarrow> (task_step N E)\<^sup>*\<^sup>* s s'"
  by (induction rule: rtranclp_induct)
    (auto elim!: call_step.cases intro: rtranclp.rtrancl_into_rtrancl task_call)

lemma task_started:
  assumes "N p"
  shows "(task_step N E)\<^sup>*\<^sup>* (w, ts) (exec (collapse p) w, ts @ [Running (Ret (result (collapse p) w))])"
proof -
  have "task_step N E (w, ts) (w, ts @ [Running p])"
    using assms by (rule task_start)
  also have "(task_step N E)\<^sup>*\<^sup>* (w, ts @ [Running p])
      (exec (collapse p) w, ts @ [Running (Ret (result (collapse p) w))])"
    using task_calls [OF call_prefix [of "length ts" "ts @ [Running p]" w p Ret]] by (simp add: bindp_Ret)
  finally show ?thesis .
qed

lemma tasks_reachable: "task_reachable N E w0 s \<Longrightarrow> call_step\<^sup>*\<^sup>* s s' \<Longrightarrow> task_reachable N E w0 s'"
  unfolding task_reachable_def by (blast intro: rtranclp_trans task_calls)

lemma task_reachable_start:
  "task_reachable N E w0 (w, ts) \<Longrightarrow> N p \<Longrightarrow> task_reachable N E w0 (w, ts @ [Running p])"
  unfolding task_reachable_def by (blast intro: rtranclp.rtrancl_into_rtrancl task_start)

lemma task_reachable_init: "task_reachable N E w0 (w0, [])"
  by (simp add: task_reachable_def)

lemma run_whole:
  "i < length ts \<Longrightarrow> ts ! i = Running p \<Longrightarrow>
    call_step\<^sup>*\<^sup>* (w, ts) (exec (collapse p) w, ts[i := Running (Ret (result (collapse p) w))])"
  using call_prefix [of i ts w p Ret] by (metis bindp_Ret list_update_id)

text \<open>
  The induction all properties of pools use: \<open>I\<close> of the world and \<open>P\<close> of every
  running program.
\<close>

lemma task_rule:
  assumes "task_reachable N E w0 (w, ts)" and "I w0"
    and start: "\<And>p. N p \<Longrightarrow> P p"
    and run: "\<And>m w. I w \<Longrightarrow> P (Step m) \<Longrightarrow> I (exec m w) \<and> P (result m w)"
    and other: "\<And>w w'. E w w' \<Longrightarrow> I w \<Longrightarrow> I w'"
  shows "I w \<and> (\<forall>p. Running p \<in> set ts \<longrightarrow> P p)"
  using assms(1) [unfolded task_reachable_def]
proof (induction rule: rtranclp_induct2)
  case refl
  then show ?case by (simp add: assms(2))
next
  case (step w1 ts1 w2 ts2)
  from step.hyps(2) show ?case
  proof (cases rule: task_step.cases)
    case (task_start p)
    with step.IH start show ?thesis by auto
  next
    case (task_call i m)
    then have "Running (Step m) \<in> set ts1"
      by (metis nth_mem)
    with step.IH run have "I (exec m w1)" "P (result m w1)"
      by blast+
    with step.IH task_call show ?thesis
      by (auto dest: set_update_subset_insert [THEN subsetD])
  next
    case (task_crash i m)
    with step.IH show ?thesis
      by (auto dest: set_update_subset_insert [THEN subsetD])
  next
    case task_other
    with step.IH other show ?thesis by auto
  qed
qed

text \<open>An invariant that every program of the pool keeps at each of its calls holds at every moment.\<close>

lemma task_invariant_rule:
  assumes "task_reachable N E w0 (w, ts)" and "I w0"
    and "\<And>p. N p \<Longrightarrow> keeps_p I any p" and "\<And>w w'. E w w' \<Longrightarrow> I w \<Longrightarrow> I w'"
  shows "I w"
  using task_rule [OF assms(1), of I "keeps_p I any"] assms(2-4) by (blast elim: keeps_StepE)

subsection \<open>Bounds on the calls of a task\<close>

text \<open>\<open>steps_le n p\<close>: the program \<open>p\<close> returns after at most \<open>n\<close> outside calls.\<close>

inductive steps_le :: "nat \<Rightarrow> ('w, 'a) prog \<Rightarrow> bool" where
  le_Ret: "steps_le n (Ret a)"
| le_Step: "(\<And>w. steps_le n (result m w)) \<Longrightarrow> steps_le (Suc n) (Step m)"

inductive_cases steps_le_StepE: "steps_le n (Step m)"

lemma steps_le_mono: "steps_le n p \<Longrightarrow> n \<le> k \<Longrightarrow> steps_le k p"
proof (induction arbitrary: k rule: steps_le.induct)
  case (le_Ret n a)
  show ?case by (rule steps_le.le_Ret)
next
  case (le_Step n m)
  then show ?case by (cases k) (auto intro: steps_le.le_Step)
qed

lemma steps_result: "steps_le n (Step m) \<Longrightarrow> steps_le n (result m w)"
  by (auto elim!: steps_le_StepE intro: steps_le_mono)

lemma steps_atom: "steps_le 1 (atom m)"
  using le_Step [of 0 "map_state Ret m"] by (simp add: atom_def le_Ret)

lemma steps_bindp:
  assumes "steps_le n p" and "\<And>a. steps_le k (f a)" and "n + k \<le> l"
  shows "steps_le l (bindp p f)"
proof -
  from assms(1) have "steps_le (n + k) (bindp p f)"
  proof induction
    case (le_Ret n a)
    show ?case
      by (simp add: steps_le_mono [OF assms(2)])
  next
    case (le_Step n m)
    then show ?case by (auto intro: steps_le.le_Step)
  qed
  then show ?thesis
    using assms(3) by (rule steps_le_mono)
qed

lemma steps_Suc_atom: "steps_le (Suc n) (atom m)"
  by (rule steps_le_mono [OF steps_atom]) simp

lemma steps_call:
  assumes "\<And>a. steps_le k (f a)"
  shows "steps_le (Suc k) (bindp (atom m) f)"
  by (rule steps_bindp [OF steps_atom assms]) simp

lemmas steps_rules = steps_call steps_Suc_atom le_Ret

subsection \<open>Coming to rest\<close>

definition within :: "nat list \<Rightarrow> 'w task list \<Rightarrow> bool" where
  "within ks ts \<longleftrightarrow> list_all2 (\<lambda>k t. \<forall>p. t = Running p \<longrightarrow> steps_le k p) ks ts"

definition at_rest :: "'w task list \<Rightarrow> bool" where
  "at_rest ts \<longleftrightarrow> (\<forall>t \<in> set ts. finished t \<or> t = Killed)"

lemma call_within:
  assumes "call_step (w, ts) (w', ts')" and "within ks ts"
  shows "\<exists>ks'. within ks' ts' \<and> sum_list ks = Suc (sum_list ks')"
  using assms(1)
proof (cases rule: call_step.cases)
  case (call i m)
  have i: "i < length ks" "steps_le (ks ! i) (Step m)"
    using assms(2) call by (auto simp: within_def list_all2_conv_all_nth)
  from i(2) obtain k where k: "ks ! i = Suc k" "steps_le k (result m w)"
    by (auto elim: steps_le_StepE)
  have "within (ks[i := k]) ts'"
    using assms(2) call k(2) unfolding within_def by (auto intro: list_all2_update_cong)
  moreover have "ks ! i \<le> sum_list ks"
    using i(1) by (intro elem_le_sum_list)
  then have "sum_list ks = Suc (sum_list (ks[i := k]))"
    using i(1) k(1) by (simp add: sum_list_update)
  ultimately show ?thesis by blast
qed

lemma calls_bound: "(call_step ^^ n) (w, ts) s \<Longrightarrow> within ks ts \<Longrightarrow> n \<le> sum_list ks"
proof (induction n arbitrary: w ts ks)
  case 0
  show ?case by simp
next
  case (Suc n)
  obtain w' ts' where step: "call_step (w, ts) (w', ts')" and rest: "(call_step ^^ n) (w', ts') s"
    using relpowp_Suc_D2 [OF Suc.prems(1)] by fastforce
  from call_within [OF step Suc.prems(2)] obtain ks' where
    "within ks' ts'" "sum_list ks = Suc (sum_list ks')"
    by blast
  with Suc.IH [OF rest] show ?case by simp
qed

lemma rest_or_call: "at_rest ts \<or> (\<exists>w' ts'. call_step (w, ts) (w', ts'))"
proof (rule disjCI)
  assume none: "\<nexists>w' ts'. call_step (w, ts) (w', ts')"
  show "at_rest ts"
    unfolding at_rest_def
  proof
    fix t
    assume "t \<in> set ts"
    then obtain i where i: "i < length ts" "ts ! i = t"
      by (auto simp: in_set_conv_nth)
    show "finished t \<or> t = Killed"
    proof (cases t)
      case (Running p)
      then show ?thesis
        using none i by (cases p) (auto intro: call)
    qed simp
  qed
qed

lemma call_length: "call_step (w, ts) (w', ts') \<Longrightarrow> length ts' = length ts"
  by (auto elim: call_step.cases)

lemma comes_to_rest:
  "within ks ts \<Longrightarrow> \<exists>w' ts'. call_step\<^sup>*\<^sup>* (w, ts) (w', ts') \<and> at_rest ts' \<and> length ts' = length ts"
proof (induction "sum_list ks" arbitrary: ks w ts)
  case 0
  have "\<not> call_step (w, ts) (w', ts')" for w' ts'
  proof
    assume "call_step (w, ts) (w', ts')"
    from call_within [OF this 0(2)] 0(1) show False by auto
  qed
  then have "at_rest ts"
    using rest_or_call [of ts w] by blast
  then show ?case by blast
next
  case (Suc n)
  show ?case
  proof (cases "at_rest ts")
    case True
    then show ?thesis by blast
  next
    case False
    then obtain w1 ts1 where step: "call_step (w, ts) (w1, ts1)"
      using rest_or_call [of ts w] by blast
    then obtain ks1 where ks1: "within ks1 ts1" "sum_list ks = Suc (sum_list ks1)"
      using call_within [OF _ Suc.prems] by blast
    with Suc.hyps(2) obtain w' ts' where
      "call_step\<^sup>*\<^sup>* (w1, ts1) (w', ts')" "at_rest ts'" "length ts' = length ts1"
      using Suc.hyps(1) [of ks1 ts1 w1] by auto
    then show ?thesis
      using step call_length [OF step] by (metis converse_rtranclp_into_rtranclp)
  qed
qed

end
