(* ===== verification/Inv_Tasks.thy ===== *)
theory Inv_Tasks
  imports Inv_Typing Programs
begin

section \<open>The callbacks as programs that can be interrupted\<close>

text \<open>
  Go runs the callbacks of the subscriptions in goroutines of their own, and the queue
  group spreads a subscription over the replicas of the service: callbacks overlap. Between
  two calls to the outside (the clock, a UUID, Redis, PostgreSQL, JetStream) a callback only
  touches its own variables, so a callback is a program whose atomic steps are these
  calls. This theory writes every callback of the inventory service as such a program, with
  the branches of \<open>handlers.go\<close>, \<open>cache.go\<close>, \<open>publisher.go\<close>,
  \<open>idempotency.go\<close> and \<open>subscriber.go\<close> in their order, and proves that the program,
  run without interruption, is the callback of the sequential model.
\<close>

subsection \<open>Publishing\<close>

definition newMetadata_p :: "('c, 'm) env \<Rightarrow> string \<Rightarrow> (('c, 'x) world_scheme, EventMetadata) prog" where
  "newMetadata_p env eventType =
     bindp (atom (uuid_NewString env)) (\<lambda>eventId.
     bindp (atom (time_Now env)) (\<lambda>t.
       Ret \<lparr>md_EventId = eventId, md_EventType = eventType, md_OccurredAt = Some t,
         md_Producer = ''inventory-service'', md_TenantId = [], md_SchemaVersion = 1\<rparr>))"

definition Publish_p ::
  "('c, 'm) env \<Rightarrow> string \<Rightarrow> 'm \<Rightarrow> (('c, 'x) world_scheme, goerr option) prog" where
  "Publish_p env subject msg =
     (case e_marshal env msg of
        Inl err \<Rightarrow> Ret (Some err)
      | Inr data \<Rightarrow>
          bindp (atom (inject_header env Map.empty)) (\<lambda>hdr.
          bindp (atom (uuid_NewString env)) (\<lambda>msgId.
            atom (js_PublishMsg env
              \<lparr>pc_Subject = subject, pc_Data = data, pc_Header = hdr, pc_MsgId = msgId\<rparr>))))"

definition PublishDLQ_p ::
  "('c, 'm) env \<Rightarrow> nats_msg \<Rightarrow> string \<Rightarrow> (('c, 'x) world_scheme, goerr option) prog" where
  "PublishDLQ_p env original reason =
     bindp (atom (uuid_NewString env)) (\<lambda>msgId. atom (js_PublishMsg env (dlq_call original reason msgId)))"

definition publish_updated_p ::
  "('c, inv_event) env \<Rightarrow> Inventory \<Rightarrow> InventoryUpdated_UpdateReason \<Rightarrow>
   (('c, 'x) world_scheme, goerr option) prog" where
  "publish_updated_p env updated reason =
     bindp (newMetadata_p env Subject_InventoryUpdated) (\<lambda>md.
       Publish_p env Subject_InventoryUpdated (updated_event md updated reason))"

lemma collapse_newMetadata [simp]: "collapse (newMetadata_p env t) = newMetadata env t"
  by (simp add: newMetadata_p_def newMetadata_def)

lemma collapse_Publish [simp]: "collapse (Publish_p env s m) = Publish env s m"
  by (simp add: Publish_p_def Publish_def collapse_cases cong: case_congs)

lemma collapse_PublishDLQ [simp]: "collapse (PublishDLQ_p env m r) = PublishDLQ env m r"
  by (simp add: PublishDLQ_p_def PublishDLQ_def)

lemma collapse_publish_updated [simp]: "collapse (publish_updated_p env iv r) = publish_updated env iv r"
  by (simp add: publish_updated_p_def publish_updated_def)

subsection \<open>The cached store\<close>

text \<open>
  A read of the cached store is up to three calls (the cache entry, the row, the new
  entry), an update up to two (the row, the entry).
\<close>

definition cached_get_p ::
  "('c, 'm) env \<Rightarrow> string \<Rightarrow> string \<Rightarrow> (('c, 'x) inv_world_scheme, goerr + Inventory) prog" where
  "cached_get_p env locationID sku =
     bindp (atom (readCache env locationID sku)) (\<lambda>c.
       case c of
         Inr iv \<Rightarrow> Ret (Inr Inventory_zero)
       | Inl _ \<Rightarrow>
           bindp (atom (invdb_GetInventory env locationID sku)) (\<lambda>r.
             case r of
               Inl err \<Rightarrow> Ret (Inl err)
             | Inr dbInv \<Rightarrow> bindp (atom (writeCache env dbInv)) (\<lambda>_. Ret (Inr dbInv))))"

definition cached_update_p ::
  "('c, 'm) env \<Rightarrow> Inventory \<Rightarrow> (('c, 'x) inv_world_scheme, goerr option) prog" where
  "cached_update_p env iv =
     bindp (atom (invdb_UpdateInventory env iv)) (\<lambda>r.
       case r of
         Some err \<Rightarrow> Ret (Some err)
       | None \<Rightarrow> atom (deleteCache env (inv_LocationID iv) (inv_SKU iv)))"

definition bus_get_p ::
  "('c, 'm) env \<Rightarrow> string \<Rightarrow> string \<Rightarrow> (('c, 'x) inv_world_scheme, goerr + Inventory) prog" where
  "bus_get_p env locationID sku =
     bindp (cached_get_p env locationID sku) (\<lambda>r.
       case r of
         Inl err \<Rightarrow> Ret (Inl (ErrWrap
           (''query inventory: locationID['' @ locationID @ ''], SKU['' @ sku @ '']: '') err))
       | Inr iv \<Rightarrow> Ret (Inr iv))"

definition bus_update_p ::
  "('c, 'm) env \<Rightarrow> Inventory \<Rightarrow> UpdatedInventory \<Rightarrow> (('c, 'x) inv_world_scheme, goerr + Inventory) prog" where
  "bus_update_p env iv uinv =
     bindp (atom (time_Now env)) (\<lambda>t.
       let iv' = (apply_update iv uinv)\<lparr>inv_UpdatedAt := t\<rparr> in
       bindp (cached_update_p env iv') (\<lambda>r.
         case r of
           Some err \<Rightarrow> Ret (Inl (ErrWrap ''update inventory: '' err))
         | None \<Rightarrow> Ret (Inr iv')))"

lemma collapse_cached_get [simp]:
  "collapse (cached_get_p env l k) = st_GetInventory (cached_store env) l k"
  by (simp add: cached_get_p_def invcache_Store_def invcache_GetInventory_def invdb_Store_def collapse_cases cong: case_congs)

lemma collapse_cached_update [simp]:
  "collapse (cached_update_p env iv) = st_UpdateInventory (cached_store env) iv"
  by (simp add: cached_update_p_def invcache_Store_def invcache_UpdateInventory_def invdb_Store_def collapse_cases cong: case_congs)

lemma collapse_bus_get [simp]: "collapse (bus_get_p env l k) = bus_GetInventory (cached_store env) l k"
  by (simp add: bus_get_p_def bus_GetInventory_def collapse_cases cong: case_congs)

lemma collapse_bus_update [simp]:
  "collapse (bus_update_p env iv u) = bus_UpdateInventory (time_Now env) (cached_store env) iv u"
  by (simp add: bus_update_p_def bus_UpdateInventory_def collapse_cases cong: case_congs)

subsection \<open>The handlers\<close>

definition orderPlaced_rest_p ::
  "('c, inv_event) env \<Rightarrow> OrderPlaced \<Rightarrow> Inventory \<Rightarrow> (('c, 'x) inv_world_scheme, goerr option) prog" where
  "orderPlaced_rest_p env evt iv =
     (let available = inv_OnHand iv - inv_Reserved iv in
      if int64_less available (op_Quantity evt) then
        bindp (newMetadata_p env Subject_InventoryReservationFailed) (\<lambda>md.
          Publish_p env Subject_InventoryReservationFailed (reservation_failed md evt iv))
      else
        bindp (bus_update_p env iv (no_update\<lparr>upd_Reserved := Some (inv_Reserved iv + op_Quantity evt)\<rparr>))
          (\<lambda>u. case u of
             Inl err \<Rightarrow> Ret (Some err)
           | Inr updated \<Rightarrow>
               bindp (atom (uuid_NewString env)) (\<lambda>reservationID.
               bindp (newMetadata_p env Subject_InventoryReserved) (\<lambda>md.
               bindp (Publish_p env Subject_InventoryReserved (reserved_event md reservationID evt updated))
                 (\<lambda>p. case p of
                    Some err \<Rightarrow> Ret (Some err)
                  | None \<Rightarrow> publish_updated_p env updated InventoryUpdated_RESERVATION)))))"

definition handleOrderPlaced_p ::
  "('c, inv_event) env \<Rightarrow> OrderPlaced \<Rightarrow> (('c, 'x) inv_world_scheme, goerr option) prog" where
  "handleOrderPlaced_p env evt =
     bindp (bus_get_p env (op_WarehouseId evt) (op_Sku evt)) (\<lambda>r.
       case r of Inl err \<Rightarrow> Ret (Some err) | Inr iv \<Rightarrow> orderPlaced_rest_p env evt iv)"

definition update_and_publish_p ::
  "('c, inv_event) env \<Rightarrow> Inventory \<Rightarrow> UpdatedInventory \<Rightarrow> InventoryUpdated_UpdateReason \<Rightarrow>
   (('c, 'x) inv_world_scheme, goerr option) prog" where
  "update_and_publish_p env iv uinv reason =
     bindp (bus_update_p env iv uinv) (\<lambda>u.
       case u of Inl err \<Rightarrow> Ret (Some err) | Inr updated \<Rightarrow> publish_updated_p env updated reason)"

definition handleOrderCancelled_p ::
  "('c, inv_event) env \<Rightarrow> OrderCancelled \<Rightarrow> (('c, 'x) inv_world_scheme, goerr option) prog" where
  "handleOrderCancelled_p env evt =
     bindp (bus_get_p env (oc_WarehouseId evt) (oc_Sku evt)) (\<lambda>r.
       case r of
         Inl err \<Rightarrow> Ret (Some err)
       | Inr iv \<Rightarrow>
           if inv_Reserved iv = 0 then Ret None
           else
             let releaseQty = (if int64_less (inv_Reserved iv) (oc_Quantity evt)
                               then inv_Reserved iv else oc_Quantity evt)
             in update_and_publish_p env iv
                  (no_update\<lparr>upd_Reserved := Some (inv_Reserved iv - releaseQty)\<rparr>)
                  InventoryUpdated_RELEASE)"

definition handleOrderShipped_p ::
  "('c, inv_event) env \<Rightarrow> OrderShipped \<Rightarrow> (('c, 'x) inv_world_scheme, goerr option) prog" where
  "handleOrderShipped_p env evt =
     bindp (bus_get_p env (os_WarehouseId evt) (os_Sku evt)) (\<lambda>r.
       case r of
         Inl err \<Rightarrow> Ret (Some err)
       | Inr iv \<Rightarrow>
           if inv_Reserved iv = 0 then Ret None
           else
             let q1 = os_Quantity evt;
                 q2 = (if int64_less (inv_Reserved iv) q1 then inv_Reserved iv else q1);
                 shipQty = (if int64_less (inv_OnHand iv) q2 then inv_OnHand iv else q2)
             in update_and_publish_p env iv
                  (no_update\<lparr>upd_Reserved := Some (inv_Reserved iv - shipQty),
                             upd_OnHand := Some (inv_OnHand iv - shipQty)\<rparr>)
                  InventoryUpdated_SHIPMENT_DISPATCHED)"

definition handleShipmentCreated_p ::
  "('c, inv_event) env \<Rightarrow> ShipmentCreated \<Rightarrow> (('c, 'x) inv_world_scheme, goerr option) prog" where
  "handleShipmentCreated_p env evt =
     bindp (bus_get_p env (sc_WarehouseId evt) (sc_Sku evt)) (\<lambda>r.
       case r of
         Inl err \<Rightarrow> Ret (Some err)
       | Inr iv \<Rightarrow>
           if int64_less (inv_Reserved iv) (sc_Quantity evt) then Ret None
           else publish_updated_p env iv InventoryUpdated_SHIPMENT_CREATED)"

definition handleShipmentCancelled_p ::
  "('c, inv_event) env \<Rightarrow> ShipmentCancelled \<Rightarrow> (('c, 'x) inv_world_scheme, goerr option) prog" where
  "handleShipmentCancelled_p env evt =
     bindp (bus_get_p env (sx_WarehouseId evt) (sx_Sku evt)) (\<lambda>r.
       case r of
         Inl err \<Rightarrow> Ret (Some err)
       | Inr iv \<Rightarrow>
           let restoreQty = sx_Quantity evt in
           if \<not> int64_less 0 restoreQty then Ret None
           else update_and_publish_p env iv
                  (no_update\<lparr>upd_OnHand := Some (inv_OnHand iv + restoreQty)\<rparr>)
                  InventoryUpdated_SHIPMENT_CANCELLED)"

definition handleShipmentDelivered_p ::
  "('c, inv_event) env \<Rightarrow> ShipmentDelivered \<Rightarrow> (('c, 'x) inv_world_scheme, goerr option) prog" where
  "handleShipmentDelivered_p env evt =
     bindp (bus_get_p env (sd_WarehouseId evt) (sd_Sku evt)) (\<lambda>r.
       case r of
         Inl err \<Rightarrow> Ret (Some err)
       | Inr iv \<Rightarrow> publish_updated_p env iv InventoryUpdated_SHIPMENT_DELIVERED)"

lemma collapse_orderPlaced_rest [simp]:
  "collapse (orderPlaced_rest_p env evt iv) = orderPlaced_after_read env (cached_store env) evt iv"
  by (simp add: orderPlaced_rest_p_def orderPlaced_after_read_def reservation_failed_def reserved_event_def
      collapse_cases cong: case_congs)

lemma collapse_update_and_publish [simp]:
  "collapse (update_and_publish_p env iv u reason) = update_and_publish env (cached_store env) iv u reason"
  by (simp add: update_and_publish_p_def update_and_publish_def collapse_cases cong: case_congs)

lemma collapse_handlers [simp]:
  "collapse (handleOrderPlaced_p env e1) = handleOrderPlaced env (cached_store env) e1"
  "collapse (handleOrderCancelled_p env e2) = handleOrderCancelled env (cached_store env) e2"
  "collapse (handleOrderShipped_p env e3) = handleOrderShipped env (cached_store env) e3"
  "collapse (handleShipmentCreated_p env e4) = handleShipmentCreated env (cached_store env) e4"
  "collapse (handleShipmentCancelled_p env e5) = handleShipmentCancelled env (cached_store env) e5"
  "collapse (handleShipmentDelivered_p env e6) = handleShipmentDelivered env (cached_store env) e6"
  by (simp_all add: handleOrderPlaced_p_def handleOrderPlaced_def
      handleOrderCancelled_p_def handleOrderCancelled_def orderCancelled_after_read_def
      handleOrderShipped_p_def handleOrderShipped_def orderShipped_after_read_def
      handleShipmentCreated_p_def handleShipmentCreated_def
      handleShipmentCancelled_p_def handleShipmentCancelled_def shipmentCancelled_after_read_def
      handleShipmentDelivered_p_def handleShipmentDelivered_def collapse_cases cong: case_congs)

subsection \<open>The consumer callback\<close>

type_synonym ('w, 'evt) handler_p = "'evt \<Rightarrow> ('w, goerr option) prog"

text \<open>
  \<open>WithIdempotency\<close> around a handler that does not panic: the check, the handler and the
  mark are separate calls.
\<close>

definition WithIdempotency_p ::
  "('c, 'm) env \<Rightarrow> int \<Rightarrow> ('evt \<Rightarrow> string) \<Rightarrow> (('c, 'x) world_scheme, 'evt) handler_p \<Rightarrow>
   (('c, 'x) world_scheme, 'evt) handler_p" where
  "WithIdempotency_p env ttl extractID next evt =
     (let eid = extractID evt in
      if eid = [] then next evt
      else
        bindp (atom (redis_Seen env eid)) (\<lambda>s.
          if fst s then Ret None
          else
            bindp (next evt) (\<lambda>e.
              case e of
                Some err \<Rightarrow> Ret (Some err)
              | None \<Rightarrow> atom (redis_Mark env eid ttl))))"

definition consume_p ::
  "('c, 'm) env \<Rightarrow> (string \<Rightarrow> goerr + 'evt) \<Rightarrow> (('c, 'x) world_scheme, 'evt) handler_p \<Rightarrow> nats_msg \<Rightarrow>
   (('c, 'x) world_scheme, unit) prog" where
  "consume_p env Unmarshal handler msg =
     (case Unmarshal (nm_Data msg) of
        Inl _ \<Rightarrow> bindp (PublishDLQ_p env msg ''unmarshal_error'') (\<lambda>_. atom (settle Term))
      | Inr evt \<Rightarrow>
          bindp (handler evt) (\<lambda>e.
            case e of
              None \<Rightarrow> atom (settle Ack)
            | Some err \<Rightarrow>
                (case nm_NumDelivered msg of
                   Some n \<Rightarrow>
                     if 5 \<le> n then bindp (PublishDLQ_p env msg (error_text err)) (\<lambda>_. atom (settle Term))
                     else atom (settle Nak)
                 | None \<Rightarrow> atom (settle Nak))))"

definition callback_p ::
  "('c, inv_event) env \<Rightarrow> decoders \<Rightarrow> consumer \<Rightarrow> nats_msg \<Rightarrow> (('c, 'x) inv_world_scheme, unit) prog" where
  "callback_p env dcs c msg = (case c of
       COrderPlaced \<Rightarrow> consume_p env (dec_OrderPlaced dcs)
         (WithIdempotency_p env one_day op_OrderId (handleOrderPlaced_p env)) msg
     | COrderCancelled \<Rightarrow> consume_p env (dec_OrderCancelled dcs)
         (WithIdempotency_p env one_day oc_OrderId (handleOrderCancelled_p env)) msg
     | COrderShipped \<Rightarrow> consume_p env (dec_OrderShipped dcs)
         (WithIdempotency_p env one_day os_OrderId (handleOrderShipped_p env)) msg
     | CShipmentCreated \<Rightarrow> consume_p env (dec_ShipmentCreated dcs)
         (WithIdempotency_p env one_day sc_ShipmentId (handleShipmentCreated_p env)) msg
     | CShipmentDelivered \<Rightarrow> consume_p env (dec_ShipmentDelivered dcs)
         (WithIdempotency_p env one_day sd_ShipmentId (handleShipmentDelivered_p env)) msg
     | CShipmentCancelled \<Rightarrow> consume_p env (dec_ShipmentCancelled dcs)
         (WithIdempotency_p env one_day sx_ShipmentId (handleShipmentCancelled_p env)) msg)"

text \<open>The handlers of the sequential model return: only \<open>returning\<close> wraps them.\<close>

lemma collapse_WithIdempotency:
  "WithIdempotency (redis_idem_store env) ttl ex (returning (\<lambda>e. collapse (h e))) evt =
    returning (\<lambda>e. collapse (WithIdempotency_p env ttl ex h e)) evt"
  by (simp add: WithIdempotency_def WithIdempotency_p_def returning_def redis_idem_store_def collapse_cases
      cong: case_congs)
    (auto intro!: arg_cong2 [of _ _ _ _ State_Monad.bind] simp: fun_eq_iff split: option.splits)

lemma collapse_consume:
  "collapse (consume_p env U h msg) = consume_msg env U (returning (\<lambda>e. collapse (h e))) msg"
  by (simp add: consume_p_def consume_msg_def returning_def collapse_cases cong: case_congs)

text \<open>
  The program of a callback, run without interruption, is the callback of the sequential
  model over the cached store, for each of the six consumers, every message and every
  environment: the two models agree on every branch, and everything proved of the one holds
  of the uninterrupted runs of the other.
\<close>

lemma callback_program:
  "collapse (callback_p env dcs c msg) = callback env (cached_store env) dcs c msg"
proof -
  have eta: "(\<lambda>e. collapse (h e)) = g \<Longrightarrow>
      collapse (consume_p env U (WithIdempotency_p env one_day ex h) msg) =
      consume_msg env U (WithIdempotency (redis_idem_store env) one_day ex (returning g)) msg"
    for U :: "string \<Rightarrow> goerr + 'evt" and ex h g
  proof -
    assume g: "(\<lambda>e. collapse (h e)) = g"
    have "WithIdempotency (redis_idem_store env) one_day ex (returning g) =
        returning (\<lambda>e. collapse (WithIdempotency_p env one_day ex h e))"
      unfolding g [symmetric] by (rule ext) (rule collapse_WithIdempotency)
    then show ?thesis
      by (simp only: collapse_consume)
  qed
  show ?thesis
    by (cases c) (simp_all add: callback_p_def callback_def orderPlaced_handler_def
        orderCancelled_handler_def orderShipped_handler_def shipmentCreated_handler_def
        shipmentDelivered_handler_def shipmentCancelled_handler_def eta)
qed

end
