(* ===== verification/Inv_Concurrent.thy ===== *)
theory Inv_Concurrent
  imports Inv_Tasks
begin

section \<open>The inventory service with overlapping callbacks\<close>

text \<open>
  The replicas of the service as a pool of running callbacks over one world. A step of the
  pool is a delivery (a callback starts), one outside call of one callback, the death of a
  callback with its process, or a change of Redis that no callback made. The locale
  \<open>task_invariant\<close> proves once, for any predicate on worlds that the outside calls keep,
  that it holds at every moment of every interleaving; its three interpretations give the
  bounds on stock, the typing of the published messages and the isolation of rows.
\<close>

subsection \<open>The pool\<close>

text \<open>
  \<open>D c msg\<close>: the message \<open>msg\<close> may be delivered to the consumer \<open>c\<close>;
  \<open>R c c'\<close>: Redis may go from \<open>c\<close> to \<open>c'\<close> by itself (an expired key, another
  client).
\<close>

inductive pool_step ::
  "('c, inv_event) env \<Rightarrow> decoders \<Rightarrow> (consumer \<Rightarrow> nats_msg \<Rightarrow> bool) \<Rightarrow>
   ('c \<Rightarrow> 'c \<Rightarrow> bool) \<Rightarrow> ('c, 'x) inv_world_scheme \<times> (('c, 'x) inv_world_scheme) task list \<Rightarrow>
   ('c, 'x) inv_world_scheme \<times> (('c, 'x) inv_world_scheme) task list \<Rightarrow> bool"
  for env dcs D R where
  pool_deliver: "D c msg \<Longrightarrow>
    pool_step env dcs D R (w, ts) (w, ts @ [Running (callback_p env dcs c msg)])"
| pool_run: "i < length ts \<Longrightarrow> ts ! i = Running (Step m) \<Longrightarrow>
    pool_step env dcs D R (w, ts) (exec m w, ts[i := Running (result m w)])"
| pool_crash: "i < length ts \<Longrightarrow> ts ! i = Running (Step m) \<Longrightarrow>
    pool_step env dcs D R (w, ts) (w, ts[i := Killed])"
| pool_redis: "R (w_redis w) c \<Longrightarrow> pool_step env dcs D R (w, ts) (w\<lparr>w_redis := c\<rparr>, ts)"

inductive pool_reachable ::
  "('c, inv_event) env \<Rightarrow> decoders \<Rightarrow> (consumer \<Rightarrow> nats_msg \<Rightarrow> bool) \<Rightarrow>
   ('c \<Rightarrow> 'c \<Rightarrow> bool) \<Rightarrow> ('c, 'x) inv_world_scheme \<Rightarrow>
   ('c, 'x) inv_world_scheme \<times> (('c, 'x) inv_world_scheme) task list \<Rightarrow> bool"
  for env dcs D R w0 where
  pool_start: "pool_reachable env dcs D R w0 (w0, [])"
| pool_more: "pool_reachable env dcs D R w0 s \<Longrightarrow> pool_step env dcs D R s s' \<Longrightarrow>
    pool_reachable env dcs D R w0 s'"

lemma pool_steps_reachable:
  assumes "(pool_step env dcs D R)\<^sup>*\<^sup>* s s'" and "pool_reachable env dcs D R w0 s"
  shows "pool_reachable env dcs D R w0 s'"
  using assms by (induction rule: rtranclp_induct) (auto intro: pool_more)

text \<open>The pool is one of the general kind, with the induction of these.\<close>

lemma pool_step_task:
  "pool_step env dcs D R s s' \<Longrightarrow> task_step (\<lambda>p. \<exists>c msg. D c msg \<and> p = callback_p env dcs c msg)
    (\<lambda>w w'. \<exists>c. R (w_redis w) c \<and> w' = w\<lparr>w_redis := c\<rparr>) s s'"
  by (erule pool_step.cases) (auto intro!: task_step.intros)

lemma pool_reachable_task:
  "pool_reachable env dcs D R w0 s \<Longrightarrow> task_reachable (\<lambda>p. \<exists>c msg. D c msg \<and> p = callback_p env dcs c msg)
    (\<lambda>w w'. \<exists>c. R (w_redis w) c \<and> w' = w\<lparr>w_redis := c\<rparr>) w0 s"
  unfolding task_reachable_def
  by (induction rule: pool_reachable.induct) (auto intro: rtranclp.rtrancl_into_rtrancl pool_step_task)

lemma pool_rule:
  assumes "pool_reachable env dcs D R w0 (w, ts)" and "I w0"
    and "\<And>c msg. D c msg \<Longrightarrow> P (callback_p env dcs c msg)"
    and "\<And>m w. I w \<Longrightarrow> P (Step m) \<Longrightarrow> I (exec m w) \<and> P (result m w)"
    and "\<And>w c. R (w_redis w) c \<Longrightarrow> I w \<Longrightarrow> I (w\<lparr>w_redis := c\<rparr>)"
  shows "I w \<and> (\<forall>p. Running p \<in> set ts \<longrightarrow> P p)"
  by (rule task_rule [OF pool_reachable_task [OF assms(1)], of I P]) (use assms(2-5) in blast)+

subsection \<open>Running one task to its end\<close>

lemma pool_call: "call_step s s' \<Longrightarrow> pool_step env dcs D R s s'"
  by (auto elim!: call_step.cases intro: pool_run)

lemma pool_calls: "call_step\<^sup>*\<^sup>* s s' \<Longrightarrow> (pool_step env dcs D R)\<^sup>*\<^sup>* s s'"
  by (induction rule: rtranclp_induct) (auto intro: rtranclp.rtrancl_into_rtrancl pool_call)

lemma run_prefix:
  assumes "i < length ts"
  shows "(pool_step env dcs D R)\<^sup>*\<^sup>* (w, ts[i := Running (bindp p f)])
    (exec (collapse p) w, ts[i := Running (f (result (collapse p) w))])"
  by (rule pool_calls) (rule call_prefix [OF assms])

lemmas run_to_end = run_prefix [where f = Ret, unfolded bindp_Ret]

lemma deliver_and_run:
  assumes "D c msg"
  shows "(pool_step env dcs D R)\<^sup>*\<^sup>* (w, ts)
    (exec (callback env (cached_store env) dcs c msg) w, ts @ [Running (Ret ())])"
proof -
  let ?p = "callback_p env dcs c msg"
  have "pool_step env dcs D R (w, ts) (w, ts @ [Running ?p])"
    using assms by (rule pool_deliver)
  also have "(pool_step env dcs D R)\<^sup>*\<^sup>* (w, ts @ [Running ?p])
      (exec (collapse ?p) w, ts @ [Running (Ret ())])"
    using run_to_end [of "length ts" "ts @ [Running ?p]" env dcs D R w ?p] by simp
  finally show ?thesis
    by (simp only: callback_program)
qed

text \<open>A pool in which one message has been handled.\<close>

lemma pool_one:
  assumes "D c msg"
  shows "pool_reachable env dcs D R w0 (exec (callback env (cached_store env) dcs c msg) w0, [Running (Ret ())])"
  using pool_steps_reachable [OF deliver_and_run [where ts = "[]"] pool_start] assms by fastforce

subsection \<open>Invariants of the pool\<close>

text \<open>The row that a delivered message names, when it can be decoded.\<close>

definition names_row :: "decoders \<Rightarrow> consumer \<Rightarrow> nats_msg \<Rightarrow> inv_key option" where
  "names_row dcs c msg =
     (let row = (\<lambda>r. case r of Inl (e::goerr) \<Rightarrow> None | Inr k \<Rightarrow> Some k); data = nm_Data msg in
      case c of
        COrderPlaced \<Rightarrow> row (map_sum id (\<lambda>e. (op_WarehouseId e, op_Sku e)) (dec_OrderPlaced dcs data))
      | COrderCancelled \<Rightarrow> row (map_sum id (\<lambda>e. (oc_WarehouseId e, oc_Sku e)) (dec_OrderCancelled dcs data))
      | COrderShipped \<Rightarrow> row (map_sum id (\<lambda>e. (os_WarehouseId e, os_Sku e)) (dec_OrderShipped dcs data))
      | CShipmentCreated \<Rightarrow> row (map_sum id (\<lambda>e. (sc_WarehouseId e, sc_Sku e)) (dec_ShipmentCreated dcs data))
      | CShipmentDelivered \<Rightarrow> row (map_sum id (\<lambda>e. (sd_WarehouseId e, sd_Sku e)) (dec_ShipmentDelivered dcs data))
      | CShipmentCancelled \<Rightarrow> row (map_sum id (\<lambda>e. (sx_WarehouseId e, sx_Sku e)) (dec_ShipmentCancelled dcs data)))"

text \<open>
  \<open>I\<close> is kept by every outside call of a task, provided that the rows it writes are
  \<open>mine\<close> and the messages it sends are \<open>sendable\<close>; a row that is a \<open>hit\<close> is
  in the cache as long as \<open>I\<close> holds.
\<close>

locale task_invariant =
  fixes env :: "('c, inv_event) env"
    and I :: "('c, 'x) inv_world_scheme \<Rightarrow> bool"
    and mine :: "inv_key \<Rightarrow> bool"
    and hit :: "inv_key \<Rightarrow> bool"
    and sendable :: "pub_call \<Rightarrow> bool"
  assumes keep_tick: "I w \<Longrightarrow> I (w\<lparr>w_tick := n\<rparr>)"
    and keep_read: "I w \<Longrightarrow> I (exec (readCache env l k) w)"
    and keep_write: "mine (inv_key iv) \<Longrightarrow> I w \<Longrightarrow> I (exec (writeCache env iv) w)"
    and keep_delete: "mine (l, k) \<Longrightarrow> I w \<Longrightarrow> I (exec (deleteCache env l k) w)"
    and keep_seen: "I w \<Longrightarrow> I (exec (redis_Seen env i) w)"
    and keep_mark: "I w \<Longrightarrow> I (exec (redis_Mark env i t) w)"
    and hit_read: "hit (l, k) \<Longrightarrow> I w \<Longrightarrow> \<exists>iv. result (readCache env l k) w = Inr iv"
    and keep_settled: "I w \<Longrightarrow> I (w\<lparr>w_settled := s\<rparr>)"
    and keep_send: "sendable call \<Longrightarrow> I w \<Longrightarrow> I (w\<lparr>w_pub := w_pub w @ [call]\<rparr>)"
    and keep_update: "mine (inv_key iv) \<Longrightarrow> I w \<Longrightarrow> I (exec (invdb_UpdateInventory env iv) w)"
    and read_mine: "mine (l, k) \<Longrightarrow> I w \<Longrightarrow> result (invdb_GetInventory env l k) w = Inr iv \<Longrightarrow> mine (inv_key iv)"
    and zero_mine: "mine (inv_key Inventory_zero)"
    and send_event: "announced env call \<Longrightarrow> sendable call"
    and send_dead: "dead_letter call \<Longrightarrow> sendable call"
begin

lemma keeps_now: "keeps_p I any (atom (time_Now env))"
  by (rule keeps_atom) (simp add: time_Now_def tick_def keep_tick)

lemma keeps_uuid: "keeps_p I any (atom (uuid_NewString env))"
  by (rule keeps_atom) (simp add: uuid_NewString_def tick_def keep_tick)

lemma keeps_inject: "keeps_p I any (atom (inject_header env h))"
  by (rule keeps_atom) (simp add: inject_header_def tick_def keep_tick)

lemma keeps_idem: "keeps_p I any (atom (redis_Seen env i))" "keeps_p I any (atom (redis_Mark env i t))"
  by (rule keeps_atom; simp add: keep_seen keep_mark)+

lemma keeps_cache:
  "keeps_p I any (atom (readCache env l k))"
  "mine (inv_key iv) \<Longrightarrow> keeps_p I any (atom (writeCache env iv))"
  "mine (l, k) \<Longrightarrow> keeps_p I any (atom (deleteCache env l k))"
  by (rule keeps_atom; simp add: keep_read keep_write keep_delete)+

lemma keeps_settle: "keeps_p I any (atom (settle s))"
  by (rule keeps_atom) (simp add: settle_def keep_settled)

lemma keeps_send: "sendable call \<Longrightarrow> keeps_p I any (atom (js_PublishMsg env call))"
  using keep_send [OF _ keep_tick, of call] by (intro keeps_atom) (simp add: js_PublishMsg_def tick_def)

lemma keeps_metadata: "keeps_p I (typed_metadata subject) (newMetadata_p env subject)"
  unfolding newMetadata_p_def
  by (rule keeps_seq [OF keeps_uuid] keeps_seq [OF keeps_now] keeps_Ret)+ (simp add: typed_metadata_def)

lemma keeps_publish:
  assumes "event_metadata ev = Some md" and "typed_metadata (event_subject ev) md"
  shows "keeps_p I any (Publish_p env (event_subject ev) ev)"
proof (cases "e_marshal env ev")
  case (Inl err)
  then show ?thesis by (simp add: Publish_p_def keeps_Ret)
next
  case (Inr data)
  then have "announced env \<lparr>pc_Subject = event_subject ev, pc_Data = data, pc_Header = hdr, pc_MsgId = i\<rparr>" for hdr i
    using assms by (auto simp: announced_def)
  then show ?thesis
    by (simp only: Publish_p_def Inr sum.case)
      (intro keeps_seq [OF keeps_inject] keeps_seq [OF keeps_uuid] keeps_send send_event)
qed

lemma keeps_announce:
  assumes "\<And>md. event_subject (mk md) = subject" and "\<And>md. event_metadata (mk md) = Some md"
  shows "keeps_p I any (bindp (newMetadata_p env subject) (\<lambda>md. Publish_p env subject (mk md)))"
proof (rule keeps_bindp [OF keeps_metadata])
  fix md
  assume "typed_metadata subject md"
  then show "keeps_p I any (Publish_p env subject (mk md))"
    using keeps_publish [of "mk md" md] assms by simp
qed

lemma keeps_dlq: "keeps_p I any (PublishDLQ_p env msg reason)"
proof -
  have "dead_letter (dlq_call msg reason i)" for i
    by (simp add: dead_letter_def dlq_call_def)
  then show ?thesis
    unfolding PublishDLQ_p_def by (intro keeps_seq [OF keeps_uuid] keeps_send send_dead)
qed

lemma keeps_updated: "keeps_p I any (publish_updated_p env iv reason)"
  unfolding publish_updated_p_def by (rule keeps_announce) (simp_all add: updated_event_def)

text \<open>A read returns a row that is \<open>mine\<close>: the named row, or the zero row of a cache hit.\<close>

definition row_mine :: "goerr + Inventory \<Rightarrow> bool" where
  "row_mine r \<longleftrightarrow> (\<forall>iv. r = Inr iv \<longrightarrow> mine (inv_key iv))"

lemma keeps_case_row:
  assumes "row_mine r" and "\<And>err. keeps_p I Q (f err)" and "\<And>iv. mine (inv_key iv) \<Longrightarrow> keeps_p I Q (g iv)"
  shows "keeps_p I Q (case r of Inl err \<Rightarrow> f err | Inr iv \<Rightarrow> g iv)"
  using assms by (cases r) (simp_all add: row_mine_def)

lemma keeps_db_get: "mine (l, k) \<Longrightarrow> keeps_p I row_mine (atom (invdb_GetInventory env l k))"
  by (rule keeps_atom) (auto simp: get_exec keep_tick row_mine_def intro: read_mine)

lemma keeps_cached_get:
  assumes "mine (l, k) \<or> hit (l, k)"
  shows "keeps_p I row_mine (cached_get_p env l k)"
proof (cases "hit (l, k)")
  case True
  have "keeps_p I (\<lambda>c. \<exists>iv. c = Inr iv) (atom (readCache env l k))"
    by (rule keeps_atom) (simp add: keep_read hit_read [OF True])
  then show ?thesis
    unfolding cached_get_p_def
    by (rule keeps_bindp) (auto intro!: keeps_Ret simp: row_mine_def zero_mine)
next
  case False
  then have "keeps_p I row_mine (atom (invdb_GetInventory env l k))"
    using assms by (intro keeps_db_get) simp
  then have "keeps_p I row_mine (bindp (atom (invdb_GetInventory env l k)) (\<lambda>r.
      case r of Inl err \<Rightarrow> Ret (Inl err) | Inr db \<Rightarrow> bindp (atom (writeCache env db)) (\<lambda>_. Ret (Inr db))))"
    by (rule keeps_bindp, elim keeps_case_row)
      (auto intro!: keeps_Ret keeps_seq [OF keeps_cache(2)] simp: row_mine_def)
  moreover have "keeps_p I row_mine (Ret (Inr Inventory_zero))"
    by (simp add: keeps_Ret row_mine_def zero_mine)
  ultimately show ?thesis
    unfolding cached_get_p_def by (auto intro!: keeps_seq [OF keeps_cache(1)] split: sum.split)
qed

lemma keeps_bus_get: "mine (l, k) \<or> hit (l, k) \<Longrightarrow> keeps_p I row_mine (bus_get_p env l k)"
  unfolding bus_get_p_def
  by (rule keeps_bindp [OF keeps_cached_get], assumption, erule keeps_case_row)
    (simp_all add: keeps_Ret row_mine_def)

lemma keeps_bus_update:
  assumes "mine (inv_key iv)"
  shows "keeps_p I any (bus_update_p env iv u)"
proof -
  have upd: "keeps_p I any (atom (invdb_UpdateInventory env i))" if "mine (inv_key i)" for i
    using that by (intro keeps_atom) (simp add: keep_update)
  have "keeps_p I any (cached_update_p env i)" if "mine (inv_key i)" for i
    unfolding cached_update_p_def
    by (rule keeps_seq [OF upd [OF that]]) (use that in \<open>simp add: keeps_Ret keeps_cache inv_key_def split: option.split\<close>)
  then show ?thesis
    using assms unfolding bus_update_p_def Let_def
    by (intro keeps_seq [OF keeps_now] keeps_seq) (simp_all add: keeps_Ret split: option.split)
qed

lemma keeps_tail: "mine (inv_key iv) \<Longrightarrow> keeps_p I any (update_and_publish_p env iv u reason)"
  unfolding update_and_publish_p_def
  by (rule keeps_seq [OF keeps_bus_update]) (simp_all add: keeps_Ret keeps_updated split: sum.split)

lemma keeps_read_then:
  assumes "mine (l, k) \<or> hit (l, k)" and "\<And>iv. mine (inv_key iv) \<Longrightarrow> keeps_p I any (g iv)"
  shows "keeps_p I any (bindp (bus_get_p env l k) (\<lambda>r. case r of Inl err \<Rightarrow> Ret (f err) | Inr iv \<Rightarrow> g iv))"
  by (rule keeps_bindp [OF keeps_bus_get [OF assms(1)]], erule keeps_case_row)
    (simp_all add: keeps_Ret assms(2))

lemma keeps_reserved:
  assumes "\<And>r. keeps_p I any (rest r)"
  shows "keeps_p I any (bindp (newMetadata_p env Subject_InventoryReserved) (\<lambda>md.
    bindp (Publish_p env Subject_InventoryReserved (reserved_event md rid evt iv)) rest))"
proof (rule keeps_bindp [OF keeps_metadata])
  fix md
  assume "typed_metadata Subject_InventoryReserved md"
  then have "keeps_p I any (Publish_p env Subject_InventoryReserved (reserved_event md rid evt iv))"
    using keeps_publish [of "reserved_event md rid evt iv" md] by (simp add: reserved_event_def)
  then show "keeps_p I any (bindp (Publish_p env Subject_InventoryReserved (reserved_event md rid evt iv)) rest)"
    by (rule keeps_seq) (rule assms)
qed

lemma keeps_orderPlaced_rest: "mine (inv_key iv) \<Longrightarrow> keeps_p I any (orderPlaced_rest_p env evt iv)"
  by (auto simp: orderPlaced_rest_p_def Let_def keeps_Ret keeps_updated reservation_failed_def
      intro!: keeps_announce keeps_seq [OF keeps_bus_update] keeps_seq [OF keeps_uuid] keeps_reserved
      split: sum.split option.split)

lemma keeps_handlers:
  "mine (op_WarehouseId e1, op_Sku e1) \<or> hit (op_WarehouseId e1, op_Sku e1) \<Longrightarrow>
    keeps_p I any (handleOrderPlaced_p env e1)"
  "mine (oc_WarehouseId e2, oc_Sku e2) \<or> hit (oc_WarehouseId e2, oc_Sku e2) \<Longrightarrow>
    keeps_p I any (handleOrderCancelled_p env e2)"
  "mine (os_WarehouseId e3, os_Sku e3) \<or> hit (os_WarehouseId e3, os_Sku e3) \<Longrightarrow>
    keeps_p I any (handleOrderShipped_p env e3)"
  "mine (sc_WarehouseId e4, sc_Sku e4) \<or> hit (sc_WarehouseId e4, sc_Sku e4) \<Longrightarrow>
    keeps_p I any (handleShipmentCreated_p env e4)"
  "mine (sd_WarehouseId e5, sd_Sku e5) \<or> hit (sd_WarehouseId e5, sd_Sku e5) \<Longrightarrow>
    keeps_p I any (handleShipmentDelivered_p env e5)"
  "mine (sx_WarehouseId e6, sx_Sku e6) \<or> hit (sx_WarehouseId e6, sx_Sku e6) \<Longrightarrow>
    keeps_p I any (handleShipmentCancelled_p env e6)"
  unfolding handleOrderPlaced_p_def handleOrderCancelled_p_def handleOrderShipped_p_def
    handleShipmentCreated_p_def handleShipmentDelivered_p_def handleShipmentCancelled_p_def
  by (erule keeps_read_then; simp add: keeps_orderPlaced_rest keeps_tail keeps_updated keeps_Ret Let_def)+

lemma keeps_consume:
  assumes "\<And>evt. U (nm_Data msg) = Inr evt \<Longrightarrow> keeps_p I any (h evt)"
  shows "keeps_p I any (consume_p env U (WithIdempotency_p env ttl ex h) msg)"
proof -
  have "keeps_p I any (WithIdempotency_p env ttl ex h evt)" if "U (nm_Data msg) = Inr evt" for evt
    using assms [OF that]
    by (auto simp: WithIdempotency_p_def Let_def keeps_Ret keeps_idem split: option.split
        intro!: keeps_seq [OF keeps_idem(1)] keeps_seq [OF assms [OF that]])
  then show ?thesis
    by (auto simp: consume_p_def keeps_settle intro!: keeps_seq keeps_seq [OF keeps_dlq]
        split: sum.split option.split)
qed

lemma keeps_callback_p:
  assumes "\<And>k. names_row dcs c msg = Some k \<Longrightarrow> mine k \<or> hit k"
  shows "keeps_p I any (callback_p env dcs c msg)"
  using assms
  by (cases c) (auto simp: callback_p_def names_row_def intro!: keeps_consume keeps_handlers)

text \<open>The invariant of the pool: \<open>I\<close> holds, and every running task will keep it.\<close>

theorem pool_invariant:
  assumes "pool_reachable env dcs D R w0 (w, ts)" and "I w0"
    and "\<And>c msg k. D c msg \<Longrightarrow> names_row dcs c msg = Some k \<Longrightarrow> mine k \<or> hit k"
    and "\<And>w c. R (w_redis w) c \<Longrightarrow> I w \<Longrightarrow> I (w\<lparr>w_redis := c\<rparr>)"
  shows "I w \<and> (\<forall>p. Running p \<in> set ts \<longrightarrow> keeps_p I any p)"
  using assms(1,2)
  by (rule pool_rule) (auto intro: keeps_callback_p [OF assms(3)] assms(4) elim: keeps_StepE)

end

text \<open>The calls to Redis change nothing but the state of Redis.\<close>

lemma redis_calls:
  "exec (readCache env l k) w = w\<lparr>w_redis := snd (HGetAll (e_redis env) (inventoryKey l k) (w_redis w))\<rparr>"
  "exec (writeCache env iv) w = w\<lparr>w_redis := snd (HSet (e_redis env)
     (inventoryKey (inv_LocationID iv) (inv_SKU iv)) (cache_fields iv) (w_redis w))\<rparr>"
  "exec (deleteCache env l k) w = w\<lparr>w_redis := snd (Del (e_redis env) (inventoryKey l k) (w_redis w))\<rparr>"
  "exec (redis_Seen env i) w = w\<lparr>w_redis := snd (Exists (e_redis env) (''evt:'' @ i) (w_redis w))\<rparr>"
  "exec (redis_Mark env i t) w = w\<lparr>w_redis := snd (SetTTL (e_redis env) (''evt:'' @ i) ''1'' t (w_redis w))\<rparr>"
  by (simp_all add: readCache_run writeCache_run deleteCache_def redis_Seen_def redis_Mark_def on_redis_def
      split_beta)

lemma rows_ok_update: "rows_ok w \<Longrightarrow> rows_ok (exec (invdb_UpdateInventory env iv) w)"
  using keepsD [OF invdb.update_keeps [of env iv], of w] by (simp add: all_ok_rows_ok invdb_Store_def)

lemma rows_ok_frames:
  "rows_ok (w\<lparr>w_tick := n\<rparr>) = rows_ok w" "rows_ok (w\<lparr>w_settled := s\<rparr>) = rows_ok w"
  "rows_ok (w\<lparr>w_pub := p\<rparr>) = rows_ok w" "inv_rows (w\<lparr>w_settled := s\<rparr>) = inv_rows w"
  by (simp_all add: rows_ok_def inv_rows_def fun_eq_iff)

interpretation stock_pool: task_invariant env rows_ok any none any
  by unfold_locales (simp_all add: rows_ok_frames rows_ok_update redis_calls)

lemma wire_ok_frames:
  "wire_ok env (w\<lparr>w_tick := n\<rparr>) = wire_ok env w" "wire_ok env (w\<lparr>w_settled := s\<rparr>) = wire_ok env w"
  "wire_ok env (w\<lparr>w_redis := c\<rparr>) = wire_ok env w"
  "wire_ok env (exec (invdb_UpdateInventory env iv) w) = wire_ok env w"
  by (simp_all add: wire_ok_def)

interpretation wire_pool: task_invariant env "wire_ok env" any none "\<lambda>call. announced env call \<or> dead_letter call"
  by unfold_locales (auto simp: wire_ok_frames redis_calls, auto simp: wire_ok_def)

text \<open>The rows outside a set of keys are those of a given table.\<close>

definition others_are ::
  "(inv_key \<Rightarrow> bool) \<Rightarrow> (inv_key \<Rightarrow> Inventory option) \<Rightarrow> ('c, 'x) inv_world_scheme \<Rightarrow> bool" where
  "others_are mine rows w \<longleftrightarrow> rows_ok w \<and> (\<forall>k. \<not> mine k \<longrightarrow> inv_rows w k = rows k)"

lemma others_are_update:
  assumes "mine (inv_key iv)" and "others_are mine rows w"
  shows "others_are mine rows (exec (invdb_UpdateInventory env iv) w)"
proof -
  have "inv_rows (exec (invdb_UpdateInventory env iv) w) = inv_rows w \<or>
      (\<exists>iv'. inv_rows (exec (invdb_UpdateInventory env iv) w) = (inv_rows w)(inv_key iv \<mapsto> iv'))"
    using invdb.update_cases [of env iv w] by (auto simp: invdb_Store_def)
  then show ?thesis
    using assms rows_ok_update by (auto simp: others_are_def)
qed

lemma read_row_key:
  assumes "rows_ok w" and "result (invdb_GetInventory env l k) w = Inr iv"
  shows "inv_key iv = (l, k)"
  using assms by (auto simp: get_result_cases rows_ok_def split: db_fault.splits option.splits)

interpretation frame_pool:
  task_invariant env "others_are (\<lambda>k. k \<in> K \<or> k = inv_key Inventory_zero) rows"
    "\<lambda>k. k \<in> K \<or> k = inv_key Inventory_zero" none any
  by unfold_locales
    (auto simp: others_are_update, auto simp: others_are_def rows_ok_frames redis_calls dest: read_row_key)

subsection \<open>Properties\<close>

text \<open>
  C1: however the callbacks of the replicas overlap, at the granularity of their calls to
  Redis, PostgreSQL, NATS and the clock, whatever these answer, whichever callbacks die with
  their process half way and whatever happens to Redis, no moment oversells: every row has
  a reserved quantity that is not negative and at most the quantity on hand, quantities that
  fit their columns, and is stored under its own key.
\<close>

theorem pool_never_oversells:
  assumes "pool_reachable env dcs D R w0 (w, ts)" and "rows_ok w0" and "inv_rows w k = Some iv"
  shows "0 \<le> sint (inv_Reserved iv) \<and> sint (inv_Reserved iv) \<le> sint (inv_OnHand iv) \<and>
    sint (inv_OnHand iv) < 2 ^ 31 \<and> 0 \<le> sint (inv_Incoming iv) \<and> sint (inv_Incoming iv) < 2 ^ 31 \<and>
    inv_key iv = k"
proof -
  have "rows_ok w"
    using stock_pool.pool_invariant [OF assms(1,2)] by simp
  with assms(3) have "inv_ok iv" "inv_key iv = k"
    unfolding rows_ok_def by blast+
  then show ?thesis
    by (simp add: inv_ok_iff)
qed

lemma bad_msg_rows:
  "inv_rows (exec (callback demo_env (cached_store demo_env) demo_decoders COrderCancelled bad_msg) demo_world) =
    inv_rows demo_world"
  by (simp add: callback_def consume_msg_def demo_decoders_def PublishDLQ_def uuid_NewString_def
      js_PublishMsg_def settle_def tick_def rows_ok_frames)

theorem pool_never_oversells_witness:
  "sint (inv_Reserved (bus_of_row demo_row)) \<le> sint (inv_OnHand (bus_of_row demo_row))"
  using pool_never_oversells [OF pool_one [where env = demo_env and dcs = demo_decoders and
      D = "\<lambda>_ _. True" and c = COrderCancelled and msg = bad_msg]
      demo_rows_ok, of "(''JHB'', ''S1'')" "bus_of_row demo_row"]
  by (simp add: bad_msg_rows demo_rows)

text \<open>
  C11: however the callbacks of the replicas overlap, die and are delivered, every message
  the service has published is well typed: it is the encoding of an event that belongs on
  its subject, with metadata that gives that subject as the event type, this service as the
  producer, schema version 1 and a time; or it is a dead letter on \<open>dlq.\<close> and the subject
  of its original, which its headers name together with a reason.
\<close>

theorem pool_messages_typed:
  assumes "pool_reachable env dcs D R w0 (w, ts)" and "w_pub w0 = []" and "call \<in> set (w_pub w)"
  shows "(\<exists>ev md. e_marshal env ev = Inr (pc_Data call) \<and> pc_Subject call = event_subject ev \<and>
      event_metadata ev = Some md \<and> md_EventType md = event_subject ev \<and>
      md_Producer md = ''inventory-service'' \<and> md_SchemaVersion md = 1 \<and> md_OccurredAt md \<noteq> None) \<or>
    (\<exists>subject reason. pc_Subject call = ''dlq.'' @ subject \<and>
      pc_Header call ''dlq-original-subject'' = Some [subject] \<and> pc_Header call ''dlq-reason'' = Some [reason])"
proof -
  have "wire_ok env w0"
    by (simp add: wire_ok_def assms(2))
  then have "wire_ok env w"
    using wire_pool.pool_invariant [OF assms(1)] by (simp add: wire_ok_frames)
  with assms(3) show ?thesis
    by (auto simp: wire_ok_def announced_def typed_metadata_def dead_letter_def)
qed

theorem pool_messages_typed_witness:
  "(\<exists>ev. pc_Subject (dlq_call bad_msg ''unmarshal_error'' (FormatInt 0)) = event_subject ev) \<or>
    (\<exists>subject reason. pc_Subject (dlq_call bad_msg ''unmarshal_error'' (FormatInt 0)) = ''dlq.'' @ subject \<and>
      pc_Header (dlq_call bad_msg ''unmarshal_error'' (FormatInt 0)) ''dlq-reason'' = Some [reason])"
  using pool_messages_typed [OF pool_one [where env = demo_env and dcs = demo_decoders and
      D = "\<lambda>_ _. True" and c = COrderCancelled and msg = bad_msg],
      where call = "dlq_call bad_msg ''unmarshal_error'' (FormatInt 0)" and ?w0.0 = demo_world]
  unfolding bad_msg_published by (auto simp: demo_world_def)

text \<open>
  C16: rows are isolated: however the callbacks overlap, crash and fail, a row that no
  delivered message names is never changed, created or removed, unless it is the row with
  the empty location and SKU. That one row is left out because the cached store answers a
  cache hit with it, so that messages naming other rows can change it.
\<close>

theorem pool_rows_isolated:
  assumes "pool_reachable env dcs D R w0 (w, ts)" and "rows_ok w0"
    and "\<And>c msg. D c msg \<Longrightarrow> names_row dcs c msg \<noteq> Some k" and "k \<noteq> ([], [])"
  shows "inv_rows w k = inv_rows w0 k"
proof -
  have start: "others_are (\<lambda>k'. k' \<in> - {k} \<or> k' = inv_key Inventory_zero) (inv_rows w0) w0"
    using assms(2) by (simp add: others_are_def)
  have mine: "k' \<in> - {k} \<or> k' = inv_key Inventory_zero" if "D c msg" "names_row dcs c msg = Some k'" for c msg k'
    using assms(3) [OF that(1)] that(2) by auto
  have redis: "others_are K' rows (v\<lparr>w_redis := c\<rparr>)" if "others_are K' rows v" for K' rows c and v :: "('a, 'b) inv_world_scheme"
    using that by (simp add: others_are_def)
  have "others_are (\<lambda>k'. k' \<in> - {k} \<or> k' = inv_key Inventory_zero) (inv_rows w0) w"
    using frame_pool.pool_invariant [OF assms(1) start] mine redis by blast
  moreover have "inv_key Inventory_zero \<noteq> k"
    using assms(4) by (auto simp: inv_key_def Inventory_zero_def)
  ultimately show ?thesis
    by (auto simp: others_are_def)
qed

theorem pool_rows_isolated_witness:
  "inv_rows (exec (callback demo_env (cached_store demo_env) demo_decoders COrderPlaced demo_msg) demo_world)
      (''CPT'', ''S1'') = inv_rows demo_world (''CPT'', ''S1'')"
  by (rule pool_rows_isolated [OF pool_one [where D = "\<lambda>c msg. c = COrderPlaced"] demo_rows_ok])
    (auto simp: names_row_def demo_decoders_def demo_order_def)

text \<open>
  the sequential model is a part of this one: every state that the service reaches by
  handling one message after the other is reached by the pool, with all its callbacks
  finished.
\<close>

theorem serial_runs_in_pool:
  assumes "reachable env (cached_store env) dcs w0 w"
  shows "\<exists>n. pool_reachable env dcs (\<lambda>_ _. True) (\<lambda>_ _. True) w0 (w, replicate n (Running (Ret ())))"
  using assms
proof (induction rule: reachable.induct)
  case start
  show ?case
    by (rule exI [where x = 0]) (simp add: pool_start)
next
  case (step w w')
  then obtain n where n: "pool_reachable env dcs (\<lambda>_ _. True) (\<lambda>_ _. True) w0 (w, replicate n (Running (Ret ())))"
    by blast
  from step.hyps(2) show ?case
  proof (cases rule: svc_step.cases)
    case (deliver c msg)
    have "(pool_step env dcs (\<lambda>_ _. True) (\<lambda>_ _. True))\<^sup>*\<^sup>* (w, replicate n (Running (Ret ())))
        (w', replicate n (Running (Ret ())) @ [Running (Ret ())])"
      unfolding deliver by (rule deliver_and_run) simp
    with n show ?thesis
      by (metis pool_steps_reachable replicate_Suc replicate_append_same)
  next
    case (redis_moves c)
    then show ?thesis
      using pool_more [OF n pool_redis] by blast
  qed
qed

theorem serial_runs_in_pool_witness:
  "\<exists>n. pool_reachable demo_env demo_decoders (\<lambda>_ _. True) (\<lambda>_ _. True) demo_world
    (demo_world\<lparr>w_redis := [''k'' \<mapsto> MString ''v'']\<rparr>, replicate n (Running (Ret ())))"
  by (rule serial_runs_in_pool [OF demo_reachable])

end
