(* ===== verification/Inv_Progress.thy ===== *)
theory Inv_Progress
  imports Inv_Concurrent
begin

section \<open>What becomes of the callbacks\<close>

text \<open>
  Every callback settles its message with its last call and at no other time, and makes
  at most 22 calls; so a pool comes to rest after the last delivery, with as many
  settlements as callbacks that were not killed.
\<close>

subsection \<open>Settlement\<close>

text \<open>
  \<open>silent_p p\<close>: no step of \<open>p\<close> settles a message. \<open>settles_once p\<close>: the last step
  of \<open>p\<close>, on every path, settles one, and no step before it does.
\<close>

inductive silent_p :: "(('c, 'x) world_scheme, 'a) prog \<Rightarrow> bool" where
  silent_Ret: "silent_p (Ret a)"
| silent_Step: "(\<And>w. w_settled (exec m w) = w_settled w) \<Longrightarrow> (\<And>w. silent_p (result m w)) \<Longrightarrow>
    silent_p (Step m)"

inductive settles_once :: "(('c, 'x) world_scheme, unit) prog \<Rightarrow> bool" where
  settles_last: "(\<And>w. \<exists>s. w_settled (exec m w) = w_settled w @ [s]) \<Longrightarrow> (\<And>w. result m w = Ret ()) \<Longrightarrow>
    settles_once (Step m)"
| settles_later: "(\<And>w. w_settled (exec m w) = w_settled w) \<Longrightarrow> (\<And>w. settles_once (result m w)) \<Longrightarrow>
    settles_once (Step m)"

inductive_cases settles_once_StepE: "settles_once (Step m)"
inductive_cases settles_once_RetE: "settles_once (Ret a)"

lemma silent_atom: "(\<And>w. w_settled (exec m w) = w_settled w) \<Longrightarrow> silent_p (atom m)"
  unfolding atom_def by (rule silent_Step) (simp_all add: silent_Ret)

lemma silent_bindp: "silent_p p \<Longrightarrow> (\<And>a. silent_p (f a)) \<Longrightarrow> silent_p (bindp p f)"
  by (induction rule: silent_p.induct) (auto intro!: silent_Step)

lemma settles_bindp: "silent_p p \<Longrightarrow> (\<And>a. settles_once (f a)) \<Longrightarrow> settles_once (bindp p f)"
  by (induction rule: silent_p.induct) (auto intro!: settles_later)

lemma settles_settle: "settles_once (atom (settle s))"
  unfolding atom_def by (rule settles_last) (simp_all add: settle_def)

lemma settled_update [simp]: "w_settled (exec (invdb_UpdateInventory env iv) w) = w_settled w"
  by (simp add: update_run exec_pg Let_def apply_stmt_def split: db_fault.splits sum.splits)

lemma silent_atoms:
  "silent_p (atom (time_Now env))" "silent_p (atom (uuid_NewString env))" "silent_p (atom (inject_header env h))"
  "silent_p (atom (js_PublishMsg env call))" "silent_p (atom (readCache env l k))"
  "silent_p (atom (writeCache env iv))" "silent_p (atom (deleteCache env l k))"
  "silent_p (atom (redis_Seen env i))" "silent_p (atom (redis_Mark env i t))"
  by (rule silent_atom; simp add: run_defs tick_def split_beta split: sum.splits)+

lemma silent_db_atoms:
  "silent_p (atom (invdb_GetInventory env l k))" "silent_p (atom (invdb_UpdateInventory env iv))"
  by (rule silent_atom; simp add: get_exec)+

lemmas silent_rules = silent_bindp silent_Ret silent_atoms silent_db_atoms

lemma silent_publish: "silent_p (Publish_p env subject msg)"
  unfolding Publish_p_def by (cases "e_marshal env msg") (simp_all add: silent_rules)

lemma silent_messages:
  "silent_p (newMetadata_p env subject)" "silent_p (publish_updated_p env iv why)"
  unfolding newMetadata_p_def publish_updated_p_def
  by (intro silent_rules silent_publish)+

lemma silent_dlq: "silent_p (PublishDLQ_p env msg reason)"
  unfolding PublishDLQ_p_def by (intro silent_rules)

lemma silent_store: "silent_p (bus_get_p env l k)" "silent_p (bus_update_p env iv u)"
  unfolding bus_get_p_def cached_get_p_def bus_update_p_def cached_update_p_def Let_def
  by (auto intro!: silent_rules split: sum.split option.split)

lemma silent_tail: "silent_p (update_and_publish_p env iv u reason)"
  unfolding update_and_publish_p_def
  by (auto intro!: silent_rules silent_store silent_messages split: sum.split)

lemma silent_handlers:
  "silent_p (handleOrderPlaced_p env e1)" "silent_p (handleOrderCancelled_p env e2)"
  "silent_p (handleOrderShipped_p env e3)" "silent_p (handleShipmentCreated_p env e4)"
  "silent_p (handleShipmentDelivered_p env e5)" "silent_p (handleShipmentCancelled_p env e6)"
  unfolding handleOrderPlaced_p_def orderPlaced_rest_p_def handleOrderCancelled_p_def handleOrderShipped_p_def
    handleShipmentCreated_p_def handleShipmentDelivered_p_def handleShipmentCancelled_p_def Let_def
  by (auto intro!: silent_rules silent_publish silent_messages silent_store silent_tail
      split: sum.split option.split)

lemma settles_consume:
  assumes "\<And>evt. silent_p (h evt)"
  shows "settles_once (consume_p env U (WithIdempotency_p env ttl ex h) msg)"
proof -
  have "silent_p (WithIdempotency_p env ttl ex h evt)" for evt
    by (auto simp: WithIdempotency_p_def Let_def assms intro!: silent_rules split: option.split)
  then show ?thesis
    by (auto simp: consume_p_def intro!: settles_bindp settles_settle silent_dlq
        split: sum.split option.split)
qed

lemma settles_callback: "settles_once (callback_p env dcs c msg)"
  by (cases c) (simp_all add: callback_p_def settles_consume silent_handlers)

lemma settles_once_unfinished: "settles_once p \<Longrightarrow> \<not> finished (Running p)"
  by (cases p) (auto elim: settles_once_RetE)

lemma pool_settlements:
  assumes "pool_reachable env dcs D R w0 (w, ts)"
  shows "(\<exists>ss. w_settled w = w_settled w0 @ ss \<and> length ss = length (filter finished ts)) \<and>
    (\<forall>p. Running p \<in> set ts \<longrightarrow> finished (Running p) \<or> settles_once p)"
  using assms
proof (induction "(w, ts)" arbitrary: w ts)
  case pool_start
  then show ?case by simp
next
  case (pool_more s)
  obtain w1 ts1 where s: "s = (w1, ts1)"
    by (cases s)
  from pool_more.hyps(2) [OF s] obtain ss where
    ss: "w_settled w1 = w_settled w0 @ ss" "length ss = length (filter finished ts1)" and
    ps: "\<forall>p. Running p \<in> set ts1 \<longrightarrow> finished (Running p) \<or> settles_once p"
    by blast
  from pool_more.hyps(3) [unfolded s] show ?case
  proof (cases rule: pool_step.cases)
    case (pool_deliver c msg)
    then show ?thesis
      using ss ps settles_callback [of env dcs c msg]
      by (auto simp: settles_once_unfinished)
  next
    case (pool_run i m)
    then have "settles_once (Step m)"
      using ps by (metis finished_simps(2) nth_mem)
    then consider (last) s where "w_settled (exec m w1) = w_settled w1 @ [s]" "result m w1 = Ret ()"
      | (later) "w_settled (exec m w1) = w_settled w1" "settles_once (result m w1)"
      by (metis settles_once_StepE)
    then show ?thesis
    proof cases
      case last
      with pool_run ss ps show ?thesis
        by (auto simp: count_update dest: set_update_subset_insert [THEN subsetD])
    next
      case later
      with pool_run ss ps show ?thesis
        by (auto simp: count_update settles_once_unfinished dest: set_update_subset_insert [THEN subsetD])
    qed
  next
    case (pool_crash i m)
    with ss ps show ?thesis
      by (auto simp: count_update dest: set_update_subset_insert [THEN subsetD])
  next
    case (pool_redis c)
    with ss ps show ?thesis by auto
  qed
qed

subsection \<open>Bounds on the calls of a callback\<close>

lemma steps_publish: "steps_le 3 (Publish_p env subject msg)"
  unfolding Publish_p_def
  by (cases "e_marshal env msg") (auto simp: eval_nat_numeral intro!: steps_rules)

lemma steps_metadata: "steps_le 2 (newMetadata_p env subject)"
  unfolding newMetadata_p_def by (auto simp: eval_nat_numeral intro!: steps_rules)

lemma steps_dlq: "steps_le 2 (PublishDLQ_p env msg reason)"
  unfolding PublishDLQ_p_def by (auto simp: eval_nat_numeral intro!: steps_rules)

lemma steps_updated: "steps_le 5 (publish_updated_p env iv why)"
  unfolding publish_updated_p_def by (rule steps_bindp [OF steps_metadata steps_publish]) simp

lemma steps_get: "steps_le 3 (bus_get_p env l k)"
proof -
  have "steps_le 3 (cached_get_p env l k)"
    unfolding cached_get_p_def
    by (auto simp: eval_nat_numeral intro!: steps_rules split: sum.split)
  then show ?thesis
    unfolding bus_get_p_def by (rule steps_bindp [where k = 0]) (auto intro: le_Ret split: sum.split)
qed

lemma steps_update: "steps_le 3 (bus_update_p env iv u)"
proof -
  have "steps_le 2 (cached_update_p env i)" for i
    unfolding cached_update_p_def
    by (auto simp: eval_nat_numeral intro!: steps_rules split: option.split)
  then show ?thesis
    unfolding bus_update_p_def Let_def
    by (auto simp: numeral_3_eq_3 intro!: le_Ret steps_call [where k = 2, unfolded numeral_2_eq_2]
        steps_bindp [where n = 2 and k = 0] split: option.split)
qed

lemma steps_tail: "steps_le 8 (update_and_publish_p env iv u reason)"
  unfolding update_and_publish_p_def
  by (rule steps_bindp [OF steps_update, of 5]) (auto intro: le_Ret steps_updated split: sum.split)

lemma steps_orderPlaced_rest: "steps_le 14 (orderPlaced_rest_p env evt iv)"
proof -
  let ?avail = "inv_OnHand iv - inv_Reserved iv"
  have failed: "steps_le 14 (bindp (newMetadata_p env s) (\<lambda>md. Publish_p env s (mk md)))" for s mk
    by (rule steps_bindp [OF steps_metadata steps_publish]) simp
  have published: "steps_le 8 (bindp (Publish_p env s ev)
      (\<lambda>p. case p of Some err \<Rightarrow> Ret (Some err) | None \<Rightarrow> publish_updated_p env updated why))" for s ev updated why
    by (rule steps_bindp [OF steps_publish, of 5]) (auto intro: le_Ret steps_updated split: option.split)
  have announced: "steps_le 11 (bindp (atom (uuid_NewString env)) (\<lambda>rid.
      bindp (newMetadata_p env s) (\<lambda>md. bindp (Publish_p env s (mk rid md))
      (\<lambda>p. case p of Some err \<Rightarrow> Ret (Some err) | None \<Rightarrow> publish_updated_p env updated why))))" for s mk updated why
    using steps_call [of 10, OF steps_bindp [OF steps_metadata published]] by simp
  show ?thesis
    unfolding orderPlaced_rest_p_def Let_def
    by (auto intro!: failed steps_bindp [OF steps_update, of 11] announced intro: le_Ret split: sum.split)
qed

lemma steps_read_then:
  assumes "\<And>iv. steps_le 14 (g iv)"
  shows "steps_le 17 (bindp (bus_get_p env l k) (\<lambda>r. case r of Inl err \<Rightarrow> Ret (f err) | Inr iv \<Rightarrow> g iv))"
  by (rule steps_bindp [OF steps_get, of 14]) (auto intro: le_Ret assms split: sum.split)

lemma steps_handlers:
  "steps_le 17 (handleOrderPlaced_p env e1)" "steps_le 17 (handleOrderCancelled_p env e2)"
  "steps_le 17 (handleOrderShipped_p env e3)" "steps_le 17 (handleShipmentCreated_p env e4)"
  "steps_le 17 (handleShipmentDelivered_p env e5)" "steps_le 17 (handleShipmentCancelled_p env e6)"
  unfolding handleOrderPlaced_p_def handleOrderCancelled_p_def handleOrderShipped_p_def
    handleShipmentCreated_p_def handleShipmentDelivered_p_def handleShipmentCancelled_p_def Let_def
  by (auto intro!: steps_read_then steps_orderPlaced_rest le_Ret steps_le_mono [OF steps_tail]
      steps_le_mono [OF steps_updated])

lemma steps_consume:
  assumes "\<And>evt. steps_le 17 (h evt)"
  shows "steps_le 22 (consume_p env U (WithIdempotency_p env ttl ex h) msg)"
proof -
  have marked: "steps_le 18 (bindp (h evt)
      (\<lambda>e. case e of Some err \<Rightarrow> Ret (Some err) | None \<Rightarrow> atom (redis_Mark env i t)))" for evt i t
    by (rule steps_bindp [OF assms, of 1]) (auto intro: steps_rules split: option.split)
  have idem: "steps_le 19 (WithIdempotency_p env ttl ex h evt)" for evt
    unfolding WithIdempotency_p_def Let_def
    by (auto intro!: steps_call [of 18, simplified] le_Ret marked steps_le_mono [OF assms])
  have dead: "steps_le 3 (bindp (PublishDLQ_p env msg reason) (\<lambda>_. atom (settle Term)))" for reason
    by (rule steps_bindp [OF steps_dlq steps_atom]) simp
  have "steps_le 3 (atom (settle s))" for s
    by (rule steps_le_mono [OF steps_atom]) simp
  then show ?thesis
    unfolding consume_p_def
    by (auto intro!: steps_bindp [OF idem, of 3] dead steps_le_mono [OF dead] split: sum.split option.split)
qed

lemma steps_callback: "steps_le 22 (callback_p env dcs c msg)"
  by (cases c) (simp_all add: callback_p_def steps_consume steps_handlers)

text \<open>In a reachable pool no callback has more than 22 calls to make.\<close>

lemma pool_within:
  assumes "pool_reachable env dcs D R w0 (w, ts)"
  shows "within (replicate (length ts) 22) ts"
proof -
  have "\<forall>p. Running p \<in> set ts \<longrightarrow> steps_le 22 p"
    using pool_rule [OF assms, of any "steps_le 22"] by (simp add: steps_callback steps_result)
  then show ?thesis
    by (simp add: within_def list_all2_conv_all_nth) (metis nth_mem)
qed

subsection \<open>Properties\<close>

text \<open>
  C9: every message is settled exactly once: at any moment of any interleaving of the
  callbacks, the settlements made are as many as the callbacks that have run to their end;
  a callback settles its message with its last call, after everything it does, and one
  whose process died has settled nothing.
\<close>

theorem pool_settles_each_once:
  assumes "pool_reachable env dcs D R w0 (w, ts)"
  shows "(\<exists>ss. w_settled w = w_settled w0 @ ss \<and> length ss = length (filter finished ts)) \<and>
    (\<forall>p. Running p \<in> set ts \<longrightarrow> finished (Running p) \<or> settles_once p)"
  by (rule pool_settlements [OF assms])

theorem pool_settles_each_once_witness:
  "\<exists>ss. w_settled (exec (callback demo_env (cached_store demo_env) demo_decoders COrderCancelled bad_msg)
    demo_world) = ss \<and> length ss = 1"
  using pool_settles_each_once [OF pool_one [where env = demo_env and dcs = demo_decoders and
      D = "\<lambda>_ _. True" and c = COrderCancelled and msg = bad_msg], of demo_world]
  by (simp add: demo_world_def)

text \<open>
  C10: the service comes to rest: after the last delivery the callbacks make at most 22 calls
  each, whatever the environment answers, in whatever order they are scheduled, and there
  are schedules that bring every callback that was not killed to its end; then exactly the
  callbacks that were not killed have settled their message.
\<close>

theorem pool_comes_to_rest:
  assumes "pool_reachable env dcs D R w0 (w, ts)"
  shows "(\<forall>n s. (call_step ^^ n) (w, ts) s \<longrightarrow> n \<le> 22 * length ts) \<and>
    (\<exists>w' ts'. call_step\<^sup>*\<^sup>* (w, ts) (w', ts') \<and> length ts' = length ts \<and>
      (\<forall>t \<in> set ts'. finished t \<or> t = Killed) \<and>
      length (w_settled w') = length (w_settled w0) + length (filter (\<lambda>t. t \<noteq> Killed) ts'))"
proof -
  have bound: "n \<le> 22 * length ts" if "(call_step ^^ n) (w, ts) s" for n s
    using calls_bound [OF that pool_within [OF assms]] by (simp add: sum_list_replicate)
  obtain w' ts' where r: "call_step\<^sup>*\<^sup>* (w, ts) (w', ts')" "at_rest ts'" "length ts' = length ts"
    using comes_to_rest [OF pool_within [OF assms]] by blast
  have "call_step s s' \<Longrightarrow> pool_step env dcs D R s s'" for s s'
    by (auto elim!: call_step.cases intro: pool_run)
  then have "(pool_step env dcs D R)\<^sup>*\<^sup>* (w, ts) (w', ts')"
    using r(1) by (metis mono_rtranclp)
  then have "pool_reachable env dcs D R w0 (w', ts')"
    using assms by (rule pool_steps_reachable)
  from pool_settlements [OF this]
  have "length (w_settled w') = length (w_settled w0) + length (filter finished ts')"
    by auto
  moreover have "filter finished ts' = filter (\<lambda>t. t \<noteq> Killed) ts'"
    using r(2) by (intro filter_cong) (auto simp: at_rest_def)
  ultimately show ?thesis
    using bound r by (auto simp: at_rest_def)
qed

theorem pool_comes_to_rest_witness:
  "\<exists>w' ts'. call_step\<^sup>*\<^sup>* (demo_world, [Running (callback_p demo_env demo_decoders COrderPlaced demo_msg)]) (w', ts') \<and>
    length ts' = 1"
proof -
  have "pool_reachable demo_env demo_decoders (\<lambda>_ _. True) R demo_world
      (demo_world, [] @ [Running (callback_p demo_env demo_decoders COrderPlaced demo_msg)])" for R
    by (rule pool_more [OF pool_start pool_deliver]) simp
  from pool_comes_to_rest [OF this] show ?thesis by auto
qed

end
