(* ===== verification/Inv_Frozen.thy ===== *)
theory Inv_Frozen
  imports Inv_Progress
begin

section \<open>The cache of the running service\<close>

text \<open>
  What the entries of the cache do to the rows they stand for. A row that is in the cache
  can no longer be changed by any message, in any interleaving (locale \<open>frozen_row\<close>, a
  \<open>task_invariant\<close>); a return of units to such a row is acknowledged and lost; a row
  created in a transaction is in the cache before the transaction commits.
\<close>

subsection \<open>Entries\<close>

text \<open>The row is in the cache, with an entry that can be decoded.\<close>

definition cached_row ::
  "('c \<Rightarrow> string \<Rightarrow> redis_val option) \<Rightarrow> ('c, 'x) world_scheme \<Rightarrow> string \<Rightarrow> string \<Rightarrow> bool" where
  "cached_row view w l s \<longleftrightarrow> (\<exists>vals iv. cache_entry view w l s = Some (RHash (map_of vals)) \<and>
     decode_entry l s vals = Inr iv)"

lemma cached_row_same: "cache_entry view w' l s = cache_entry view w l s \<Longrightarrow> cached_row view w' l s = cached_row view w l s"
  by (simp add: cached_row_def)

lemma entry_redis [simp]:
  "cache_entry view (w\<lparr>w_tick := n\<rparr>) = cache_entry view w"
  "cache_entry view (w\<lparr>w_settled := st\<rparr>) = cache_entry view w"
  "cache_entry view (w\<lparr>w_pub := p\<rparr>) = cache_entry view w"
  by (simp_all add: cache_entry_def fun_eq_iff)

lemma entry_update [simp]: "cache_entry view (exec (invdb_UpdateInventory env iv) w) = cache_entry view w"
  by (simp add: update_run exec_pg Let_def apply_stmt_def cache_entry_def fun_eq_iff
      split: db_fault.splits sum.splits)

lemma mark_key [simp]: "inventoryKey l s \<noteq> CHR ''e'' # xs"
  by (simp add: inventoryKey_def)

lemma zero_key: "(l, s) \<noteq> ([], []) \<Longrightarrow> inventoryKey [] [] \<noteq> inventoryKey l s"
  by (cases l; cases s) (auto simp: inventoryKey_def)

context cache_redis
begin

lemma cached_reads:
  assumes "cached_row view w l s"
  shows "\<exists>iv. result (readCache env l s) w = Inr iv"
proof -
  obtain vals iv where e: "cache_entry view w l s = Some (RHash (map_of vals))" "decode_entry l s vals = Inr iv"
    using assms by (auto simp: cached_row_def)
  then obtain vals' where "map_of vals' = map_of vals" "result (readCache env l s) w = decode_entry l s vals'"
    using read_run [of w l s] by (auto simp: hash_fields_def)
  with e(2) decode_entry_cong [of vals' vals l s] show ?thesis by simp
qed

lemma entry_calls:
  "cache_entry view (exec (readCache env l k) w) = cache_entry view w"
  "cache_entry view (exec (redis_Seen env i) w) = cache_entry view w"
  "cache_entry view (exec (redis_Mark env i t) w) = cache_entry view w"
  "inventoryKey (inv_LocationID iv) (inv_SKU iv) \<noteq> inventoryKey l s \<Longrightarrow>
    cache_entry view (exec (writeCache env iv) w) l s = cache_entry view w l s"
  "inventoryKey l k \<noteq> inventoryKey l' s \<Longrightarrow>
    cache_entry view (exec (deleteCache env l k) w) l' s = cache_entry view w l' s"
  by (simp_all add: redis_calls cache_entry_def hgetall_pure exists_pure fun_eq_iff
      set_frame hset_frame del_frame)

lemma mark_calls:
  "marked_in view (exec (readCache env l k) w) = marked_in view w"
  "marked_in view (exec (writeCache env iv) w) = marked_in view w"
  "marked_in view (exec (deleteCache env l k) w) = marked_in view w"
  "marked_in view (exec (redis_Seen env i) w) = marked_in view w"
  by (simp_all add: redis_calls marked_in_def hgetall_pure exists_pure fun_eq_iff hset_frame del_frame not_sym [OF mark_key])

text \<open>A row written into the cache is a cached row.\<close>

lemma write_caches:
  assumes "\<forall>t. cache_entry view w (inv_LocationID iv) (inv_SKU iv) \<noteq> Some (RString t)"
    and "int64_in (inv_UpdatedAt iv div 1000000000)"
  shows "cached_row view (exec (writeCache env iv) w) (inv_LocationID iv) (inv_SKU iv)"
proof -
  let ?l = "inv_LocationID iv" and ?s = "inv_SKU iv"
  let ?old = "cache_entry view w ?l ?s"
  have "result (writeCache env iv) w = None"
    using write_then_read [OF assms] by simp
  then have e: "cache_entry view (exec (writeCache env iv) w) ?l ?s =
      Some (RHash (hash_fields ?old ++ map_of (map (map_prod id int_text) (cache_fields iv))))"
    using hset_ok by (simp add: writeCache_run cache_entry_def)
  obtain vals where vals: "map_of vals = hash_fields ?old"
    using hgetall_up [of "w_redis w" "inventoryKey ?l ?s"] hgetall_ok assms(1)
    by (metis cache_entry_def)
  let ?vals = "map (map_prod id int_text) (cache_fields iv) @ vals"
  have m: "map_of ?vals = hash_fields ?old ++ map_of (map (map_prod id int_text) (cache_fields iv))"
    by (simp add: vals)
  show ?thesis
    unfolding cached_row_def e m [symmetric] using decode_entry_fields [OF m assms(2)] by blast
qed

end

subsection \<open>A cached row is frozen\<close>

definition frozen ::
  "('c \<Rightarrow> string \<Rightarrow> redis_val option) \<Rightarrow> string \<Rightarrow> string \<Rightarrow> Inventory option \<Rightarrow>
   ('c, 'x) inv_world_scheme \<Rightarrow> bool" where
  "frozen view l s r w \<longleftrightarrow> rows_ok w \<and> inv_rows w (l, s) = r \<and> cached_row view w l s"

text \<open>The rows whose entries are stored under other keys.\<close>

definition other_entry :: "string \<Rightarrow> string \<Rightarrow> inv_key \<Rightarrow> bool" where
  "other_entry l s k \<longleftrightarrow> inventoryKey (fst k) (snd k) \<noteq> inventoryKey l s"

lemma rows_update_other:
  "inv_key iv \<noteq> k \<Longrightarrow> inv_rows (exec (invdb_UpdateInventory env iv) w) k = inv_rows w k"
  using invdb.update_cases [of env iv w] by (auto simp: invdb_Store_def)

lemma rows_redis_calls:
  "inv_rows (exec (readCache env l k) w) = inv_rows w" "inv_rows (exec (writeCache env iv) w) = inv_rows w"
  "inv_rows (exec (deleteCache env l k) w) = inv_rows w" "inv_rows (exec (redis_Seen env i) w) = inv_rows w"
  "inv_rows (exec (redis_Mark env i t) w) = inv_rows w"
  by (simp_all add: redis_calls)

lemma rows_ok_same: "inv_rows w' = inv_rows w \<Longrightarrow> rows_ok w' = rows_ok w"
  by (simp add: rows_ok_def)

lemma frozen_same:
  "frozen view l s r w \<Longrightarrow> inv_rows w' = inv_rows w \<Longrightarrow> cache_entry view w' l s = cache_entry view w l s \<Longrightarrow>
    frozen view l s r w'"
  unfolding frozen_def using rows_ok_same cached_row_same by metis

locale frozen_row = cache_redis env view
  for env :: "('c, inv_event) env" and view +
  fixes l s :: string and r :: "Inventory option"
  assumes named: "(l, s) \<noteq> ([], [])"
begin

lemma other_entry_row: "other_entry l s k \<Longrightarrow> k \<noteq> (l, s)"
  by (auto simp: other_entry_def)

lemma frozen_fields:
  "frozen view l s r w \<Longrightarrow> frozen view l s r (w\<lparr>w_tick := n\<rparr>)"
  "frozen view l s r w \<Longrightarrow> frozen view l s r (w\<lparr>w_settled := st\<rparr>)"
  "frozen view l s r w \<Longrightarrow> frozen view l s r (w\<lparr>w_pub := p\<rparr>)"
  by (rule frozen_same, assumption; simp add: rows_ok_frames)+

lemma frozen_cache_calls:
  "frozen view l s r w \<Longrightarrow> frozen view l s r (exec (readCache env l' k) w)"
  "other_entry l s (inv_key iv) \<Longrightarrow> frozen view l s r w \<Longrightarrow> frozen view l s r (exec (writeCache env iv) w)"
  "other_entry l s (l', k) \<Longrightarrow> frozen view l s r w \<Longrightarrow> frozen view l s r (exec (deleteCache env l' k) w)"
  "frozen view l s r w \<Longrightarrow> frozen view l s r (exec (redis_Seen env i) w)"
  "frozen view l s r w \<Longrightarrow> frozen view l s r (exec (redis_Mark env i t) w)"
  by (rule frozen_same, assumption; simp add: rows_redis_calls entry_calls other_entry_def inv_key_def)+

lemma frozen_hit: "(l', k) = (l, s) \<Longrightarrow> frozen view l s r w \<Longrightarrow> \<exists>iv. result (readCache env l' k) w = Inr iv"
  by (simp add: frozen_def cached_reads)

lemma frozen_update:
  assumes "other_entry l s (inv_key iv)" and "frozen view l s r w"
  shows "frozen view l s r (exec (invdb_UpdateInventory env iv) w)"
proof -
  have "cached_row view (exec (invdb_UpdateInventory env iv) w) l s = cached_row view w l s"
    by (rule cached_row_same) simp
  then show ?thesis
    using assms(2) rows_update_other [OF other_entry_row [OF assms(1)], of env w]
    by (simp add: frozen_def rows_ok_update)
qed

lemma frozen_read:
  "other_entry l s (l', k) \<Longrightarrow> frozen view l s r w \<Longrightarrow> result (invdb_GetInventory env l' k) w = Inr iv \<Longrightarrow>
    other_entry l s (inv_key iv)"
  by (auto simp: frozen_def dest: read_row_key)

lemma zero_other: "other_entry l s (inv_key Inventory_zero)"
  using zero_key [OF named] by (simp add: other_entry_def inv_key_def Inventory_zero_def)

end

sublocale frozen_row \<subseteq> task_invariant env "frozen view l s r" "other_entry l s" "\<lambda>k. k = (l, s)" any
  by unfold_locales
    (assumption | rule TrueI frozen_fields frozen_cache_calls frozen_hit frozen_update zero_other frozen_read)+

context frozen_row
begin

lemma stays_frozen:
  assumes "pool_reachable env dcs D R w0 (w, ts)" and "frozen view l s r w0"
    and "\<And>c msg k. D c msg \<Longrightarrow> names_row dcs c msg = Some k \<Longrightarrow> k = (l, s) \<or>
      inventoryKey (fst k) (snd k) \<noteq> inventoryKey l s"
    and "\<And>c c'. R c c' \<Longrightarrow> view c' (inventoryKey l s) = view c (inventoryKey l s)"
  shows "frozen view l s r w"
proof -
  have mine: "other_entry l s k \<or> k = (l, s)" if "D c msg" "names_row dcs c msg = Some k" for c msg k
    using assms(3) [OF that] by (auto simp: other_entry_def)
  have redis: "frozen view l s r (v\<lparr>w_redis := c\<rparr>)" if "R (w_redis v) c" "frozen view l s r v" for v c
    using assms(4) [OF that(1)] by (intro frozen_same [OF that(2)]) (simp_all add: cache_entry_def)
  show ?thesis
    by (rule pool_invariant [OF assms(1,2), THEN conjunct1]) (fact mine, fact redis)
qed

text \<open>Every read that succeeds leaves the row in the cache.\<close>

lemma read_caches:
  assumes "result (bus_GetInventory (cached_store env) l s) w = Inr iv" and "rows_ok w"
    and "\<forall>t. cache_entry view w l s \<noteq> Some (RString t)"
    and "\<And>row. inv_rows w (l, s) = Some row \<Longrightarrow> int64_in (inv_UpdatedAt row div 1000000000)"
  shows "cached_row view (exec (bus_GetInventory (cached_store env) l s) w) l s"
proof -
  let ?w1 = "exec (readCache env l s) w"
  have run: "exec (bus_GetInventory (cached_store env) l s) w = exec (invcache_GetInventory env (invdb_Store env) l s) w"
    "\<exists>iv. result (invcache_GetInventory env (invdb_Store env) l s) w = Inr iv"
    using assms(1) by (auto simp: bus_GetInventory_def invcache_Store_def split_beta split: sum.splits)
  show ?thesis
  proof (cases "result (readCache env l s) w")
    case (Inr hit)
    obtain vals where vals: "map_of vals = hash_fields (cache_entry view w l s)" "decode_entry l s vals = Inr hit"
      using read_run [OF assms(3)] Inr by auto
    then have "vals \<noteq> []"
      by (auto simp: decode_entry_def)
    with vals(1) assms(3) have "cache_entry view w l s = Some (RHash (map_of vals))"
      by (auto simp: hash_fields_def split: option.splits redis_val.splits)
    with vals(2) have "cached_row view w l s"
      unfolding cached_row_def by blast
    then show ?thesis
      using Inr unfolding run(1) by (simp add: invcache_GetInventory_def split_beta cached_row_def entry_calls)
  next
    case (Inl e)
    then obtain row where row: "result (invdb_GetInventory env l s) ?w1 = Inr row"
      using run(2) by (auto simp: invcache_GetInventory_def invdb_Store_def split_beta split: sum.splits)
    then have "inv_rows w (l, s) = Some row"
      by (auto simp: get_result_cases rows_redis_calls split: db_fault.splits option.splits)
    moreover from this assms(2) have "(inv_LocationID row, inv_SKU row) = (l, s)"
      by (auto simp: rows_ok_def inv_key_def)
    moreover have "exec (bus_GetInventory (cached_store env) l s) w =
        exec (writeCache env row) (?w1\<lparr>w_tick := Suc (w_tick ?w1)\<rparr>)"
      using Inl row unfolding run(1) by (simp add: invcache_GetInventory_def invdb_Store_def split_beta get_exec)
    ultimately show ?thesis
      using write_caches [of "?w1\<lparr>w_tick := Suc (w_tick ?w1)\<rparr>" row] assms(3,4)
      by (simp add: entry_calls)
  qed
qed

end

interpretation mem_frozen: frozen_row "env\<lparr>e_redis := mem_api\<rparr>" mem_view "''JHB''" "''S1''" r
  for env :: "(mem_redis, inv_event) env" and r
  by unfold_locales (simp_all add: mem.redis_up_axioms)

text \<open>
  C12: a cached row can no longer be changed, while Redis answers every command and keeps
  the entry (the entries have no expiry). Take a row other than the one with the empty
  location and SKU, and a moment at which it is in the cache and no callback is running.
  Then no messages, in any number and any interleaving, with crashes and database failures,
  change the row again, provided that those naming other rows do not name one with the same
  cache key: every handler that names the row gets the zero row from the cache instead, and
  the updates it makes go to the row with the empty location and SKU.
\<close>

theorem cached_row_frozen:
  assumes "redis_up (e_redis env) view" and "rows_ok w0" and "cached_row view w0 l s" and "(l, s) \<noteq> ([], [])"
    and "pool_reachable env dcs D R w0 (w, ts)"
    and "\<And>c msg k. D c msg \<Longrightarrow> names_row dcs c msg = Some k \<Longrightarrow> k = (l, s) \<or>
      inventoryKey (fst k) (snd k) \<noteq> inventoryKey l s"
    and "\<And>c c'. R c c' \<Longrightarrow> view c' (inventoryKey l s) = view c (inventoryKey l s)"
  shows "inv_rows w (l, s) = inv_rows w0 (l, s) \<and> cached_row view w l s"
proof -
  have "frozen_row env view l s"
    using assms(1,4) by (simp add: frozen_row_def frozen_row_axioms_def cache_redis_def)
  moreover have "frozen view l s (inv_rows w0 (l, s)) w0"
    using assms(2,3) by (simp add: frozen_def)
  ultimately have "frozen view l s (inv_rows w0 (l, s)) w"
    using frozen_row.stays_frozen [OF _ assms(5)] assms(6,7) by blast
  then show ?thesis
    by (simp add: frozen_def)
qed

lemma demo_redis_up: "redis_up (e_redis demo_env) mem_view"
  by (simp add: mem.redis_up_axioms)

lemma demo_cached: "cached_row mem_view (exec (writeCache demo_env (bus_of_row demo_row)) demo_world) ''JHB'' ''S1''"
  using cache_redis.write_caches [of demo_env mem_view demo_world "bus_of_row demo_row"] demo_redis_up
  by (simp add: cache_redis_def cache_entry_def demo_world_def mem_view_def bus_of_row_def demo_row_def int64_in_def)

theorem cached_row_frozen_witness:
  "inv_rows (exec (callback demo_env (cached_store demo_env) demo_decoders COrderPlaced demo_msg)
      (exec (writeCache demo_env (bus_of_row demo_row)) demo_world)) (''JHB'', ''S1'') = Some (bus_of_row demo_row)"
proof -
  let ?w0 = "exec (writeCache demo_env (bus_of_row demo_row)) demo_world"
  have "rows_ok ?w0"
    using demo_rows_ok by (simp add: writeCache_run)
  from cached_row_frozen [OF demo_redis_up this demo_cached _
      pool_one [where D = "\<lambda>c msg. c = COrderPlaced" and R = "\<lambda>_ _. False" and dcs = demo_decoders and
        c = COrderPlaced and msg = demo_msg]]
  show ?thesis
    by (simp add: names_row_def demo_decoders_def demo_order_def writeCache_run demo_rows)
qed

subsection \<open>Returns to a cached row\<close>

lemma redis_db_update: "w_redis (exec (bus_UpdateInventory (time_Now env) (invdb_Store env) iv u) w) = w_redis w"
  by (simp add: bus_UpdateInventory_def time_Now_def tick_def split_beta invdb_Store_def update_run exec_pg
      Let_def apply_stmt_def split: option.splits db_fault.splits sum.splits)

lemma cached_bus_update:
  assumes "result (deleteCache env (inv_LocationID iv) (inv_SKU iv)) (exec (bus_UpdateInventory now (invdb_Store env) iv u) w) = None"
    and "result (bus_UpdateInventory now (invdb_Store env) iv u) w = Inr iv'"
  shows "run_state (bus_UpdateInventory now (cached_store env) iv u) w = (Inr iv',
    exec (deleteCache env (inv_LocationID iv) (inv_SKU iv)) (exec (bus_UpdateInventory now (invdb_Store env) iv u) w))"
  using assms
  by (auto simp: bus_UpdateInventory_def invcache_Store_def invcache_UpdateInventory_def Let_def split_beta prod_eq_iff
      split: option.splits)

lemma delete_up: "redis_up (e_redis env) view \<Longrightarrow> result (deleteCache env l s) w = None"
  by (simp add: deleteCache_def on_redis_def split_beta redis_up.del_up)

text \<open>An update of a row that is not in the table succeeds and changes nothing.\<close>

lemma update_matches_nothing:
  assumes "\<And>n. e_db env n = NoFault" and "columns_fit (toDBInventory (apply_update iv u))"
    and "inv_rows w (inv_key iv) = None"
  shows "\<exists>iv'. result (bus_UpdateInventory (time_Now env) (invdb_Store env) iv u) w = Inr iv' \<and>
    (\<exists>t. iv' = (apply_update iv u)\<lparr>inv_UpdatedAt := t\<rparr>) \<and>
    inv_rows (exec (bus_UpdateInventory (time_Now env) (invdb_Store env) iv u) w) = inv_rows w \<and>
    w_pub (exec (bus_UpdateInventory (time_Now env) (invdb_Store env) iv u) w) = w_pub w"
proof -
  let ?iv = "(apply_update iv u)\<lparr>inv_UpdatedAt := e_now env (w_tick w)\<rparr>"
  have fit: "columns_fit (toDBInventory ?iv)"
    using assms(2) by (simp add: columns_fit_def toDBInventory_def)
  then have upd: "result (invdb_UpdateInventory env ?iv) (w\<lparr>w_tick := Suc (w_tick w)\<rparr>) = None"
    using assms(1,3) by (auto simp: update_run result_pg_None update_succeeds)
  then have "result (bus_UpdateInventory (time_Now env) (invdb_Store env) iv u) w = Inr ?iv"
    "exec (bus_UpdateInventory (time_Now env) (invdb_Store env) iv u) w =
      exec (invdb_UpdateInventory env ?iv) (w\<lparr>w_tick := Suc (w_tick w)\<rparr>)"
    by (simp_all add: bus_UpdateInventory_def time_Now_def tick_def Let_def split_beta invdb_Store_def)
  moreover have "inv_rows (exec (invdb_UpdateInventory env ?iv) (w\<lparr>w_tick := Suc (w_tick w)\<rparr>)) = inv_rows w"
    using assms(1,3) by (auto simp: invdb_runs)
  ultimately show ?thesis
    by auto
qed

text \<open>
  units returned to a cached row are lost: behind the cached store, a
  \<open>ShipmentCancelled\<close> for a row that is in the cache reports success, so that it is marked
  and acknowledged, but the handler adds its quantity to the zero row it was given, the
  \<open>UPDATE\<close> matches no row, and the \<open>InventoryUpdated\<close> it publishes names no
  location and no SKU.
\<close>

theorem cached_return_lost:
  fixes env :: "('c, inv_event) env"
  assumes "redis_up (e_redis env) view" and "faultless env"
    and "result (readCache env (sx_WarehouseId evt) (sx_Sku evt)) w = Inr cached"
    and "0 < sint (sx_Quantity evt)" and "sint (sx_Quantity evt) < 2 ^ 31" and "inv_rows w ([], []) = None"
  shows "let h = handleShipmentCancelled env (cached_store env) evt in
    result h w = None \<and> inv_rows (exec h w) = inv_rows w \<and>
    (\<exists>call md row. w_pub (exec h w) = w_pub w @ [call] \<and>
      carries env call Subject_InventoryUpdated (updated_event md row InventoryUpdated_SHIPMENT_CANCELLED) \<and>
      inv_LocationID row = [] \<and> inv_SKU row = [] \<and> inv_OnHand row = sx_Quantity evt)"
proof -
  let ?u = "no_update\<lparr>upd_OnHand := Some (inv_OnHand Inventory_zero + sx_Quantity evt)\<rparr>"
  let ?m = "bus_UpdateInventory (time_Now env) (invdb_Store env) Inventory_zero ?u"
  let ?h = "handleShipmentCancelled env (cached_store env) evt"
  let ?w1 = "exec (readCache env (sx_WarehouseId evt) (sx_Sku evt)) w"
  let ?tail = "update_and_publish env (cached_store env) Inventory_zero ?u InventoryUpdated_SHIPMENT_CANCELLED"
  have zero: "inv_key Inventory_zero = ([], [])" "inv_LocationID Inventory_zero = []" "inv_SKU Inventory_zero = []"
    by (simp_all add: inv_key_def Inventory_zero_def)
  have run: "run_state ?h w = run_state ?tail ?w1"
    using assms(3,4) by (simp add: handleShipmentCancelled_def bus_GetInventory_def invcache_Store_def
        invcache_GetInventory_def split_beta shipmentCancelled_after_read_def Let_def)
  have "columns_fit (toDBInventory (apply_update Inventory_zero ?u))"
    using assms(4,5) by (simp add: columns_fit_def fits_INTEGER_def toDBInventory_def no_update_def Inventory_zero_def)
  moreover have "inv_rows ?w1 (inv_key Inventory_zero) = None"
    using assms(6) by (simp add: rows_redis_calls zero)
  ultimately obtain row t where m: "result ?m ?w1 = Inr row" "row = (apply_update Inventory_zero ?u)\<lparr>inv_UpdatedAt := t\<rparr>"
    "inv_rows (exec ?m ?w1) = inv_rows ?w1" "w_pub (exec ?m ?w1) = w_pub ?w1"
    using update_matches_nothing [OF faultless_db [OF assms(2)]] by blast
  let ?w2 = "exec (deleteCache env [] []) (exec ?m ?w1)"
  have "run_state (bus_UpdateInventory (time_Now env) (cached_store env) Inventory_zero ?u) ?w1 = (Inr row, ?w2)"
    using cached_bus_update [OF _ m(1)] delete_up [OF assms(1), of "[]" "[]" "exec ?m ?w1"] by (simp add: zero)
  then have "run_state ?tail ?w1 = run_state (publish_updated env row InventoryUpdated_SHIPMENT_CANCELLED) ?w2"
    by (simp add: update_and_publish_def)
  with publish_updated_faultless [OF assms(2), of row InventoryUpdated_SHIPMENT_CANCELLED ?w2]
  have "result ?h w = None \<and> (\<exists>call md. w_pub (exec ?h w) = w_pub ?w2 @ [call] \<and>
      carries env call Subject_InventoryUpdated (updated_event md row InventoryUpdated_SHIPMENT_CANCELLED)) \<and>
      inv_rows (exec ?h w) = inv_rows ?w2"
    by (auto simp: run)
  moreover have "w_pub ?w2 = w_pub w" "inv_rows ?w2 = inv_rows w"
    using m(3,4) by (simp_all add: redis_calls)
  moreover have "inv_LocationID row = []" "inv_SKU row = []" "inv_OnHand row = sx_Quantity evt"
    by (simp_all add: m(2) zero no_update_def) (simp add: Inventory_zero_def)
  ultimately show ?thesis
    unfolding Let_def by metis
qed

theorem cached_return_lost_witness:
  "inv_rows (exec (handleShipmentCancelled demo_env (cached_store demo_env) (demo_shipment_cancelled 4))
    (exec (writeCache demo_env (bus_of_row demo_row)) demo_world)) (''JHB'', ''S1'') = Some (bus_of_row demo_row)"
proof -
  let ?w = "exec (writeCache demo_env (bus_of_row demo_row)) demo_world"
  have "cache_redis demo_env mem_view"
    using demo_redis_up by (simp add: cache_redis_def)
  from cache_redis.cached_reads [OF this demo_cached]
  obtain iv where "result (readCache demo_env ''JHB'' ''S1'') ?w = Inr iv" ..
  with cached_return_lost [OF demo_redis_up faultless_calm, of "demo_shipment_cancelled 4" ?w iv]
  show ?thesis
    by (simp add: demo_shipment_cancelled_def Let_def writeCache_run demo_rows)
qed

subsection \<open>Transactions\<close>

text \<open>
  C20: the cache does not follow transactions: a business value that \<open>NewWithTx\<close> makes over
  the cached store writes the rows it creates into the cache at once, so that after a
  rollback the row is in the cache and not in the database, and a read of it behind the
  cache reports success.
\<close>

theorem rolled_back_row_stays_cached:
  fixes env :: "('c, inv_event) env" and tx :: "('c, 'm) env transactor"
    and b' :: "('l, ('c, 'x) inv_world_scheme) Business"
  assumes "redis_up (e_redis env) view"
    and "bus_NewWithTx b (invcache_NewWithTx env (invdb_NewWithTx tx)) = Inr b'"
    and "result (bus_CreateInventory (biz_storer b') iv) w = Inr iv'"
    and "w' = (exec (bus_CreateInventory (biz_storer b') iv) w)\<lparr>w_inventory := w_inventory w\<rparr>"
    and "\<forall>t. cache_entry view w (inv_LocationID iv) (inv_SKU iv) \<noteq> Some (RString t)"
    and "int64_in (inv_UpdatedAt iv div 1000000000)"
  shows "inv_rows w' (inv_key iv) = None \<and>
    result (bus_GetInventory (cached_store env) (inv_LocationID iv) (inv_SKU iv)) w' = Inr Inventory_zero"
proof -
  let ?S = "biz_storer b'"
  obtain ec :: "('c, 'm) env" where ec: "?S = invcache_Store env (invdb_Store ec)"
    using assms(2)
    by (auto simp: bus_NewWithTx_def NewBusiness_def invcache_NewWithTx_def invdb_NewWithTx_def split: sum.splits)
  have created: "result (st_CreateInventory ?S iv) w = None"
    and same: "exec (bus_CreateInventory ?S iv) w = exec (st_CreateInventory ?S iv) w"
    using assms(3) by (auto simp: bus_CreateInventory_def split_beta split: if_splits option.splits)
  have redis: "cache_redis env view"
    using assms(1) by (simp add: cache_redis_def)
  let ?w1 = "exec (st_CreateInventory (invdb_Store ec) iv) w"
  have db: "result (st_CreateInventory (invdb_Store ec) iv) w = None"
    and run: "exec (st_CreateInventory ?S iv) w = exec (writeCache env iv) ?w1"
    using created unfolding ec
    by (auto simp: invcache_Store_def invcache_CreateInventory_def split_beta split: option.splits)
  have absent: "inv_rows w (inv_key iv) = None"
    using invdb.create_ok [OF db] by blast
  have "w_redis ?w1 = w_redis w"
    by (simp add: invdb_Store_def create_run exec_pg Let_def apply_stmt_def split: db_fault.splits sum.splits)
  then have "cached_row view (exec (writeCache env iv) ?w1) (inv_LocationID iv) (inv_SKU iv)"
    using assms(5) by (intro cache_redis.write_caches [OF redis _ assms(6)]) (simp add: cache_entry_def)
  then have "cached_row view w' (inv_LocationID iv) (inv_SKU iv)"
    unfolding assms(4) same run by (simp add: cached_row_def cache_entry_def)
  from cache_redis.cached_reads [OF redis this] obtain hit where
    "result (readCache env (inv_LocationID iv) (inv_SKU iv)) w' = Inr hit" ..
  then have "result (bus_GetInventory (cached_store env) (inv_LocationID iv) (inv_SKU iv)) w' = Inr Inventory_zero"
    by (simp add: bus_GetInventory_def invcache_Store_def cache_redis.get_hit [OF redis] split_beta)
  moreover have "inv_rows w' (inv_key iv) = None"
    using absent by (simp add: assms(4) inv_rows_def)
  ultimately show ?thesis by simp
qed

definition demo_new :: Inventory where
  "demo_new = \<lparr>inv_LocationID = ''CPT'', inv_SKU = ''S1'', inv_OnHand = 5, inv_Reserved = 0, inv_Incoming = 0,
     inv_UpdatedAt = 0\<rparr>"

theorem rolled_back_row_stays_cached_witness:
  "let S = invcache_Store demo_env (invdb_Store demo_env) in
    result (bus_GetInventory S ''CPT'' ''S1'')
      ((exec (bus_CreateInventory S demo_new) demo_world)\<lparr>w_inventory := w_inventory demo_world\<rparr>) = Inr Inventory_zero"
proof -
  let ?S = "invcache_Store demo_env (invdb_Store demo_env)"
  have store: "bus_NewWithTx (NewBusiness () ?S) (invcache_NewWithTx demo_env (invdb_NewWithTx (TxExtContext demo_env))) =
      Inr (NewBusiness () ?S)"
    by (simp add: bus_NewWithTx_def NewBusiness_def invcache_NewWithTx_def invdb_NewWithTx_def GetExtContext_def)
  have "inv_ok demo_new" "inv_rows demo_world (inv_key demo_new) = None"
    by (simp_all add: inv_ok_iff demo_new_def inv_key_def demo_rows)
  then have "result (invdb_CreateInventory demo_env demo_new) demo_world = None"
    by (simp add: create_run result_pg_None insert_succeeds)
  then have "result (bus_CreateInventory (biz_storer (NewBusiness () ?S)) demo_new) demo_world = Inr demo_new"
    by (simp add: NewBusiness_def bus_CreateInventory_def demo_new_def int64_less_def invcache_Store_def
        invcache_CreateInventory_def invdb_Store_def split_beta)
  from rolled_back_row_stays_cached [OF demo_redis_up store this refl]
  show ?thesis
    by (simp add: NewBusiness_def demo_new_def cache_entry_def demo_world_def mem_view_def int64_in_def)
qed

end
