(* ===== verification/Inv_Races.thy ===== *)
theory Inv_Races
  imports Inv_Frozen
begin

section \<open>Races between callbacks\<close>

text \<open>
  Schedules of the pool in which every call succeeds and the service still breaks its
  promises: two deliveries of one order that overlap reserve it twice; so do a process that
  dies between the update and the mark, and the redelivery; a slow reader puts an old row
  back into the cache and on the wire. Each is a run of \<open>pool_step\<close> from a single world,
  put together from prefixes of the callbacks' programs (\<open>run_prefix\<close>).
\<close>

subsection \<open>An order behind the cached store\<close>

lemma redis_messages [simp]:
  "w_redis (exec (newMetadata env t) w) = w_redis w" "w_redis (exec (uuid_NewString env) w) = w_redis w"
  "w_redis (exec (Publish env subj msg) w) = w_redis w"
  by (simp_all add: newMetadata_def time_Now_def uuid_NewString_def Publish_def inject_header_def
      js_PublishMsg_def tick_def split_beta split: sum.splits)

lemma redis_publish_updated [simp]: "w_redis (exec (publish_updated env iv why) w) = w_redis w"
  by (simp add: publish_updated_def split_beta)

lemma silent_collapse: "silent_p p \<Longrightarrow> w_settled (exec (collapse p) w) = w_settled w"
  by (induction arbitrary: w rule: silent_p.induct) (simp_all add: split_beta)

lemma after_read_world:
  assumes "\<not> int64_less (inv_OnHand iv - inv_Reserved iv) (op_Quantity evt)"
    and "run_state (bus_UpdateInventory (time_Now env) S iv
      (no_update\<lparr>upd_Reserved := Some (inv_Reserved iv + op_Quantity evt)\<rparr>)) w = (Inr iv', w')"
  shows "inv_rows (exec (orderPlaced_after_read env S evt iv) w) = inv_rows w' \<and>
    w_redis (exec (orderPlaced_after_read env S evt iv) w) = w_redis w'"
  using assms by (simp add: orderPlaced_after_read_def split_beta split: option.splits)

lemma after_read_refused:
  assumes "int64_less (inv_OnHand iv - inv_Reserved iv) (op_Quantity evt)"
  shows "inv_rows (exec (orderPlaced_after_read env S evt iv) w) = inv_rows w \<and>
    w_redis (exec (orderPlaced_after_read env S evt iv) w) = w_redis w"
  using assms by (simp add: orderPlaced_after_read_def split_beta)

text \<open>A read that the cache does not answer is answered by the database, and fills the cache.\<close>

lemma cached_read_db:
  assumes "result (readCache env l s) w = Inl e" and "e_db env (w_tick w) = NoFault" and "inv_rows w (l, s) = Some iv"
  shows "\<exists>w'. run_state (bus_GetInventory (cached_store env) l s) w = (Inr iv, exec (writeCache env iv) w') \<and>
    inv_rows w' = inv_rows w \<and> w_pub w' = w_pub w \<and> w_redis w' = w_redis (exec (readCache env l s) w)"
proof -
  let ?w1 = "exec (readCache env l s) w"
  have "result (invdb_GetInventory env l s) ?w1 = Inr iv"
    using assms(2,3) by (simp add: get_result_cases rows_redis_calls) (simp add: redis_calls)
  then have "run_state (bus_GetInventory (cached_store env) l s) w =
      (Inr iv, exec (writeCache env iv) (?w1\<lparr>w_tick := Suc (w_tick ?w1)\<rparr>))"
    using assms(1)
    by (simp add: bus_GetInventory_def invcache_Store_def invcache_GetInventory_def invdb_Store_def split_beta get_exec)
  then show ?thesis
    by (intro exI [where x = "?w1\<lparr>w_tick := Suc (w_tick ?w1)\<rparr>"]) (simp add: redis_calls)
qed

lemma uncached_read:
  assumes "cache_redis env view" and "cache_entry view w l s = None"
  shows "\<exists>e. result (readCache env l s) w = Inl e"
  using readCache_missing [of env view] assms by (simp add: cache_redis_def redis_up_def cache_entry_def)

lemma marked_same: "w_redis w' = w_redis w \<Longrightarrow> marked_in view w' = marked_in view w"
  by (simp add: marked_in_def fun_eq_iff)

text \<open>
  The update of an order that has read \<open>iv\<close>, whatever the row holds by now: it writes
  \<open>iv\<close> with the reservation, and removes the cache entry.
\<close>

lemma cached_reserve:
  fixes env :: "('c, inv_event) env" and w :: "('c, 'x) inv_world_scheme"
  assumes "cache_redis env view" and "db_up env" and "inv_ok iv" and "inv_key iv = (l, s)"
    and "inv_rows w (l, s) \<noteq> None" and "0 \<le> sint q" and "sint q \<le> spec_available (stock_of iv)"
  shows "\<exists>w' upd. run_state (bus_UpdateInventory (time_Now env) (cached_store env) iv
      (no_update\<lparr>upd_Reserved := Some (inv_Reserved iv + q)\<rparr>)) w = (Inr upd, w') \<and>
    inv_rows w' = (inv_rows w)((l, s) \<mapsto> inv_stored env upd) \<and>
    stock_of upd = spec_reserve (sint q) (stock_of iv) \<and>
    cache_entry view w' l s = None \<and> marked_in view w' = marked_in view w \<and> w_pub w' = w_pub w"
proof -
  let ?u = "no_update\<lparr>upd_Reserved := Some (inv_Reserved iv + q)\<rparr>"
  let ?m = "bus_UpdateInventory (time_Now env) (invdb_Store env) iv ?u"
  let ?del = "deleteCache env (inv_LocationID iv) (inv_SKU iv)"
  have laws: "redis_laws (e_redis env) view"
    using assms(1) by (simp add: cache_redis_def redis_up_def)
  obtain upd where m: "result ?m w = Inr upd" "stock_of upd = stock_of (apply_update iv ?u)"
    "inv_rows (exec ?m w) = (inv_rows w)((l, s) \<mapsto> inv_stored env upd)" "w_pub (exec ?m w) = w_pub w"
    using bus_update_db_up [OF db_upD [OF assms(2)] reserve_ok(2) [OF assms(3,6,7)], of w] assms(4,5) by auto
  have del: "result ?del v = None" "cache_entry view (exec ?del v) l s = None" for v :: "('c, 'x) inv_world_scheme"
  proof -
    show d: "result ?del v = None"
      using redis_up.del_up [of "e_redis env" view] assms(1)
      by (simp add: cache_redis_def deleteCache_def on_redis_def split_beta)
    show "cache_entry view (exec ?del v) l s = None"
      using redis_laws.del_ok [OF laws] d assms(4)
      by (simp add: deleteCache_def on_redis_def split_beta cache_entry_def inv_key_def)
  qed
  have "marked_in view (exec ?del (exec ?m w)) = marked_in view w"
    by (simp only: cache_redis.mark_calls [OF assms(1)] marked_same [OF redis_db_update])
  then show ?thesis
    using cached_bus_update [OF del(1) m(1)] m(2-4) del(2) reserve_ok(1) [OF assms(3,6,7)]
    by (intro exI [where x = "exec ?del (exec ?m w)"] exI [where x = upd]) (simp add: rows_redis_calls)
qed

text \<open>The read and the update of an order that the cache does not answer.\<close>

lemma cached_order_update:
  fixes env :: "('c, inv_event) env" and w :: "('c, 'x) inv_world_scheme"
  assumes "cache_redis env view" and "db_up env" and "rows_ok w"
    and "inv_rows w (op_WarehouseId evt, op_Sku evt) = Some iv"
    and "result (readCache env (op_WarehouseId evt) (op_Sku evt)) w = Inl e"
    and "0 \<le> sint (op_Quantity evt)" and "sint (op_Quantity evt) \<le> spec_available (stock_of iv)"
  shows "\<exists>w2 w3 upd. run_state (bus_GetInventory (cached_store env) (op_WarehouseId evt) (op_Sku evt)) w = (Inr iv, w2) \<and>
    run_state (bus_UpdateInventory (time_Now env) (cached_store env) iv
      (no_update\<lparr>upd_Reserved := Some (inv_Reserved iv + op_Quantity evt)\<rparr>)) w2 = (Inr upd, w3) \<and>
    inv_rows w3 = (inv_rows w)((op_WarehouseId evt, op_Sku evt) \<mapsto> inv_stored env upd) \<and>
    stock_of upd = spec_reserve (sint (op_Quantity evt)) (stock_of iv) \<and>
    cache_entry view w3 (op_WarehouseId evt) (op_Sku evt) = None \<and>
    marked_in view w3 = marked_in view w \<and> w_pub w3 = w_pub w"
proof -
  let ?l = "op_WarehouseId evt" and ?s = "op_Sku evt"
  have row: "inv_ok iv" "inv_key iv = (?l, ?s)"
    using assms(3,4) by (auto simp: rows_ok_def)
  obtain w1 where r: "run_state (bus_GetInventory (cached_store env) ?l ?s) w = (Inr iv, exec (writeCache env iv) w1)"
    "inv_rows w1 = inv_rows w" "w_pub w1 = w_pub w" "w_redis w1 = w_redis (exec (readCache env ?l ?s) w)"
    using cached_read_db [OF assms(5) db_upD [OF assms(2)] assms(4)] by blast
  let ?w2 = "exec (writeCache env iv) w1"
  have "inv_rows ?w2 = inv_rows w" "w_pub ?w2 = w_pub w"
    by (simp_all add: redis_calls r)
  moreover have "marked_in view ?w2 = marked_in view w"
    by (simp only: cache_redis.mark_calls [OF assms(1)] marked_same [OF r(4)])
  ultimately show ?thesis
    using cached_reserve [OF assms(1,2) row, of ?w2 "op_Quantity evt"] r(1) assms(4,6,7) by auto
qed

text \<open>The two messages of a reservation.\<close>

definition announces_order ::
  "('c, 'x) world_scheme \<Rightarrow> ('c, 'x) world_scheme \<Rightarrow> bool" where
  "announces_order w w' \<longleftrightarrow> (\<exists>c1 c2. w_pub w' = w_pub w @ [c1, c2] \<and>
     pc_Subject c1 = Subject_InventoryReserved \<and> pc_Subject c2 = Subject_InventoryUpdated)"

text \<open>An order for a row that is not in the cache reserves it and leaves it out of the cache.\<close>

lemma cached_order:
  fixes env :: "('c, inv_event) env" and w :: "('c, 'x) inv_world_scheme"
  assumes "cache_redis env view" and "faultless env" and "rows_ok w"
    and "inv_rows w (op_WarehouseId evt, op_Sku evt) = Some iv"
    and "cache_entry view w (op_WarehouseId evt) (op_Sku evt) = None"
    and "0 \<le> sint (op_Quantity evt)" and "sint (op_Quantity evt) \<le> spec_available (stock_of iv)"
  shows "\<exists>iv'. result (handleOrderPlaced env (cached_store env) evt) w = None \<and>
    inv_rows (exec (handleOrderPlaced env (cached_store env) evt) w) =
      (inv_rows w)((op_WarehouseId evt, op_Sku evt) \<mapsto> iv') \<and>
    stock_of iv' = spec_reserve (sint (op_Quantity evt)) (stock_of iv) \<and>
    cache_entry view (exec (handleOrderPlaced env (cached_store env) evt) w) (op_WarehouseId evt) (op_Sku evt) = None \<and>
    announces_order w (exec (handleOrderPlaced env (cached_store env) evt) w)"
proof -
  obtain w2 w3 upd where r: "run_state (bus_GetInventory (cached_store env) (op_WarehouseId evt) (op_Sku evt)) w = (Inr iv, w2)"
    and u: "run_state (bus_UpdateInventory (time_Now env) (cached_store env) iv
      (no_update\<lparr>upd_Reserved := Some (inv_Reserved iv + op_Quantity evt)\<rparr>)) w2 = (Inr upd, w3)"
    and w3: "inv_rows w3 = (inv_rows w)((op_WarehouseId evt, op_Sku evt) \<mapsto> inv_stored env upd)"
      "stock_of upd = spec_reserve (sint (op_Quantity evt)) (stock_of iv)"
      "cache_entry view w3 (op_WarehouseId evt) (op_Sku evt) = None" "w_pub w3 = w_pub w"
    using cached_order_update [OF assms(1) faultless_up [OF assms(2)] assms(3,4) _ assms(6,7)]
      uncached_read [OF assms(1,5)] by blast
  have "inv_ok iv"
    using assms(3,4) by (auto simp: rows_ok_def)
  then have enough: "\<not> int64_less (inv_OnHand iv - inv_Reserved iv) (op_Quantity evt)"
    using assms(7) invdb_service.available_exact by (simp add: spec_available_def stock_of_def)
  have run: "run_state (handleOrderPlaced env (cached_store env) evt) w =
      run_state (orderPlaced_after_read env (cached_store env) evt iv) w2"
    by (simp add: handleOrderPlaced_def r)
  show ?thesis
    using after_read_publishes [OF assms(2) enough u] after_read_world [OF enough u] w3
    by (intro exI [where x = "inv_stored env upd"])
      (auto simp: run inv_stored_stock cache_entry_def announces_order_def carries_def)
qed

subsection \<open>An order on its way\<close>

text \<open>
  What a callback still has to do once \<open>Seen\<close> has answered no: the handler \<open>p\<close>, the
  mark of the event \<open>i\<close>, the settlement.
\<close>

definition unseen_p ::
  "('c, 'm) env \<Rightarrow> string \<Rightarrow> (('c, 'x) world_scheme, goerr option) prog \<Rightarrow> nats_msg \<Rightarrow>
   (('c, 'x) world_scheme, unit) prog" where
  "unseen_p env i p msg =
     bindp (bindp p (\<lambda>e.
       case e of Some err \<Rightarrow> Ret (Some err) | None \<Rightarrow> atom (redis_Mark env i one_day))) (\<lambda>e.
     case e of
       None \<Rightarrow> atom (settle Ack)
     | Some err \<Rightarrow>
         (case nm_NumDelivered msg of
            Some n \<Rightarrow>
              if 5 \<le> n then bindp (PublishDLQ_p env msg (error_text err)) (\<lambda>_. atom (settle Term))
              else atom (settle Nak)
          | None \<Rightarrow> atom (settle Nak)))"

abbreviation unseen_order_p ::
  "('c, inv_event) env \<Rightarrow> OrderPlaced \<Rightarrow> nats_msg \<Rightarrow> (('c, 'x) inv_world_scheme, unit) prog" where
  "unseen_order_p env evt msg \<equiv> unseen_p env (op_OrderId evt) (handleOrderPlaced_p env evt) msg"

lemma unseen_bindp: "unseen_p env i (bindp p f) msg = bindp p (\<lambda>a. unseen_p env i (f a) msg)"
  by (simp add: unseen_p_def bindp_assoc)

lemma unseen_success:
  assumes "result (collapse p) w = None" and "result (redis_Mark env i one_day) (exec (collapse p) w) = None"
  shows "exec (collapse (unseen_p env i p msg)) w =
    exec (settle Ack) (exec (redis_Mark env i one_day) (exec (collapse p) w))"
  using assms by (simp add: unseen_p_def split_beta)

lemma mark_up: "redis_up (e_redis env) view \<Longrightarrow> result (redis_Mark env i t) w = None"
  by (simp add: redis_Mark_def on_redis_def split_beta redis_up.set_up)

lemma consume_unseen:
  assumes "U (nm_Data msg) = Inr evt" and "ex evt \<noteq> []"
  shows "\<exists>m. consume_p env U (WithIdempotency_p env one_day ex h) msg = Step m \<and>
    (\<forall>w. exec m w = exec (redis_Seen env (ex evt)) w \<and>
      (\<not> fst (result (redis_Seen env (ex evt)) w) \<longrightarrow> result m w = unseen_p env (ex evt) (h evt) msg))"
  using assms
  by (auto simp: consume_p_def WithIdempotency_p_def Let_def atom_def unseen_p_def)

lemma pool_seen:
  assumes "U (nm_Data msg) = Inr evt" and "ex evt \<noteq> []" and "i < length ts"
    and "ts ! i = Running (consume_p env U (WithIdempotency_p env one_day ex h) msg)"
    and "\<not> fst (result (redis_Seen env (ex evt)) w)"
  shows "pool_step env' dcs D R (w, ts)
    (exec (redis_Seen env (ex evt)) w, ts[i := Running (unseen_p env (ex evt) (h evt) msg)])"
proof -
  obtain m where m: "consume_p env U (WithIdempotency_p env one_day ex h) msg = Step m"
    "exec m w = exec (redis_Seen env (ex evt)) w" "result m w = unseen_p env (ex evt) (h evt) msg"
    using consume_unseen [where U = U and ex = ex and env = env and h = h, OF assms(1,2)] assms(5) by blast
  show ?thesis
    using pool_run [of i ts m env' dcs D R w] assms(3,4) m by simp
qed

lemma pool_unseen:
  assumes "dec_OrderPlaced dcs (nm_Data msg) = Inr evt" and "op_OrderId evt \<noteq> []" and "i < length ts"
    and "ts ! i = Running (callback_p env dcs COrderPlaced msg)"
    and "\<not> fst (result (redis_Seen env (op_OrderId evt)) w)"
  shows "pool_step env dcs D R (w, ts)
    (exec (redis_Seen env (op_OrderId evt)) w, ts[i := Running (unseen_order_p env evt msg)])"
  by (rule pool_seen [where ex = op_OrderId and U = "dec_OrderPlaced dcs", OF assms(1,2,3) _ assms(5)])
    (simp add: assms(4) callback_p_def)

lemma pool_unseen_delivered:
  assumes "dec_ShipmentDelivered dcs (nm_Data msg) = Inr evt" and "sd_ShipmentId evt \<noteq> []" and "i < length ts"
    and "ts ! i = Running (callback_p env dcs CShipmentDelivered msg)"
    and "\<not> fst (result (redis_Seen env (sd_ShipmentId evt)) w)"
  shows "pool_step env dcs D R (w, ts) (exec (redis_Seen env (sd_ShipmentId evt)) w,
    ts[i := Running (unseen_p env (sd_ShipmentId evt) (handleShipmentDelivered_p env evt) msg)])"
  by (rule pool_seen [where ex = sd_ShipmentId and U = "dec_ShipmentDelivered dcs", OF assms(1,2,3) _ assms(5)])
    (simp add: assms(4) callback_p_def)

text \<open>The world in which an order can still be handled: known, unmarked and uncached.\<close>

definition open_order ::
  "('c \<Rightarrow> string \<Rightarrow> redis_val option) \<Rightarrow> OrderPlaced \<Rightarrow> Inventory \<Rightarrow> ('c, 'x) inv_world_scheme \<Rightarrow> bool" where
  "open_order view evt iv w \<longleftrightarrow> rows_ok w \<and> inv_rows w (op_WarehouseId evt, op_Sku evt) = Some iv \<and>
     cache_entry view w (op_WarehouseId evt) (op_Sku evt) = None"

lemma unseen_order_run:
  fixes env :: "('c, inv_event) env"
  assumes "cache_redis env view" and "faultless env" and "open_order view evt iv w"
    and "0 \<le> sint (op_Quantity evt)" and "sint (op_Quantity evt) \<le> spec_available (stock_of iv)"
  shows "\<exists>iv'. open_order view evt iv' (exec (collapse (unseen_order_p env evt msg)) w) \<and>
    stock_of iv' = spec_reserve (sint (op_Quantity evt)) (stock_of iv) \<and>
    w_settled (exec (collapse (unseen_order_p env evt msg)) w) = w_settled w @ [Ack] \<and>
    announces_order w (exec (collapse (unseen_order_p env evt msg)) w)"
proof -
  let ?h = "handleOrderPlaced env (cached_store env) evt" and ?mark = "redis_Mark env (op_OrderId evt) one_day"
  have world: "rows_ok w" "inv_rows w (op_WarehouseId evt, op_Sku evt) = Some iv"
    "cache_entry view w (op_WarehouseId evt) (op_Sku evt) = None"
    using assms(3) by (simp_all add: open_order_def)
  obtain iv' where h: "result ?h w = None" "inv_rows (exec ?h w) = (inv_rows w)((op_WarehouseId evt, op_Sku evt) \<mapsto> iv')"
    "stock_of iv' = spec_reserve (sint (op_Quantity evt)) (stock_of iv)"
    "cache_entry view (exec ?h w) (op_WarehouseId evt) (op_Sku evt) = None" "announces_order w (exec ?h w)"
    using cached_order [OF assms(1,2) world assms(4,5)] by blast
  have up: "redis_up (e_redis env) view"
    using assms(1) by (simp add: cache_redis_def)
  have run: "exec (collapse (unseen_order_p env evt msg)) w = exec (settle Ack) (exec ?mark (exec ?h w))"
    using unseen_success [of "handleOrderPlaced_p env evt", OF _ mark_up [OF up]] h(1) by simp
  have "rows_ok (exec ?h w)"
    using keepsD [OF invcache_service.handleOrderPlaced_keeps [unfolded all_ok_rows_ok]] world(1) by blast
  moreover have "w_settled (exec ?h w) = w_settled w"
    using silent_collapse [OF silent_handlers(1)] by simp
  moreover have "inv_rows (exec ?mark (exec ?h w)) = inv_rows (exec ?h w)"
    "w_settled (exec ?mark (exec ?h w)) = w_settled (exec ?h w)"
    "w_pub (exec ?mark (exec ?h w)) = w_pub (exec ?h w)"
    by (simp_all add: redis_calls)
  moreover have "rows_ok (exec ?mark (exec ?h w)) = rows_ok (exec ?h w)"
    by (rule rows_ok_same) (rule rows_redis_calls)
  moreover have "cache_entry view (exec ?mark (exec ?h w)) = cache_entry view (exec ?h w)"
    by (rule cache_redis.entry_calls(3) [OF assms(1)])
  ultimately show ?thesis
    using h by (intro exI [where x = iv']) (simp add: run open_order_def settle_def rows_ok_frames announces_order_def)
qed

lemma seen_unmarked:
  fixes env :: "('c, inv_event) env"
  assumes "cache_redis env view" and "open_order view evt iv w" and "\<not> marked_in view w i"
  shows "\<not> fst (result (redis_Seen env i) w)" and "open_order view evt iv (exec (redis_Seen env i) w)"
    and "\<not> marked_in view (exec (redis_Seen env i) w) i"
    and "w_settled (exec (redis_Seen env i) w) = w_settled w" and "w_pub (exec (redis_Seen env i) w) = w_pub w"
proof -
  have laws: "redis_laws (e_redis env) view"
    using assms(1) by (simp add: cache_redis_def redis_up_def)
  show "\<not> fst (result (redis_Seen env i) w)"
    using redis_laws.exists_marked [OF laws, of "''evt:'' @ i" "w_redis w"] assms(3)
    by (auto simp: redis_Seen_def on_redis_def split_beta marked_in_def)
  show "\<not> marked_in view (exec (redis_Seen env i) w) i"
    using assms(3) by (simp add: redis_calls marked_in_def redis_laws.exists_pure [OF laws])
  have "rows_ok (exec (redis_Seen env i) w) = rows_ok w"
    by (rule rows_ok_same) (rule rows_redis_calls)
  then show "open_order view evt iv (exec (redis_Seen env i) w)"
    using assms(2) cache_redis.entry_calls(2) [OF assms(1), of i w] by (simp add: open_order_def rows_redis_calls)
  show "w_settled (exec (redis_Seen env i) w) = w_settled w" "w_pub (exec (redis_Seen env i) w) = w_pub w"
    by (simp_all add: redis_calls)
qed

lemma reserve_twice:
  assumes "stock_of a = spec_reserve q (stock_of iv)"
  shows "spec_reserve q (stock_of a) = spec_reserve (2 * q) (stock_of iv)"
    and "q \<le> spec_available (stock_of a) \<longleftrightarrow> 2 * q \<le> spec_available (stock_of iv)"
  by (auto simp: assms spec_reserve_def spec_available_def)

text \<open>Two deliveries of an open order, both past the check: the rest of the second follows the first.\<close>

lemma unseen_order_twice:
  fixes env :: "('c, inv_event) env" and w :: "('c, 'x) inv_world_scheme"
  assumes "cache_redis env view" and "faultless env" and "open_order view evt iv w"
    and "0 \<le> sint (op_Quantity evt)" and "2 * sint (op_Quantity evt) \<le> spec_available (stock_of iv)"
  shows "let rest = unseen_order_p env evt msg; w' = exec (collapse rest) (exec (collapse rest) w) in
    (pool_step env dcs D R)\<^sup>*\<^sup>* (w, [Running rest, Running rest]) (w', [Running (Ret ()), Running (Ret ())]) \<and>
    w_settled w' = w_settled w @ [Ack, Ack] \<and>
    (\<exists>iv'. open_order view evt iv' w' \<and> stock_of iv' = spec_reserve (2 * sint (op_Quantity evt)) (stock_of iv))"
proof -
  let ?rest = "unseen_order_p env evt msg :: (('c, 'x) inv_world_scheme, unit) prog"
  let ?steps = "(pool_step env dcs D R)\<^sup>*\<^sup>*"
  let ?w1 = "exec (collapse ?rest) w" and ?q = "sint (op_Quantity evt)"
  let ?w2 = "exec (collapse ?rest) ?w1"
  obtain a where a: "open_order view evt a ?w1" "stock_of a = spec_reserve ?q (stock_of iv)"
    "w_settled ?w1 = w_settled w @ [Ack]"
    using unseen_order_run [OF assms(1-4), of msg] assms(4,5) by auto
  have "?q \<le> spec_available (stock_of a)"
    using reserve_twice(2) [OF a(2)] assms(5) by simp
  then obtain b where "open_order view evt b ?w2" "stock_of b = spec_reserve ?q (stock_of a)"
    "w_settled ?w2 = w_settled ?w1 @ [Ack]"
    using unseen_order_run [OF assms(1,2) a(1) assms(4), of msg] by auto
  moreover have "?steps (w, [Running ?rest, Running ?rest]) (?w1, [Running (Ret ()), Running ?rest])"
    using run_to_end [of 0 "[Running ?rest, Running ?rest]" env dcs D R w ?rest] by simp
  moreover have "?steps (?w1, [Running (Ret ()), Running ?rest]) (?w2, [Running (Ret ()), Running (Ret ())])"
    using run_to_end [of 1 "[Running (Ret ()), Running ?rest]" env dcs D R ?w1 ?rest] by simp
  ultimately show ?thesis
    using a(3) reserve_twice(1) [OF a(2)] by (auto simp: Let_def intro: rtranclp_trans)
qed

text \<open>A delivered open order that nothing interrupts is reserved, announced and acknowledged.\<close>

lemma order_runs:
  fixes env :: "('c, inv_event) env" and w :: "('c, 'x) inv_world_scheme"
  assumes "cache_redis env view" and "faultless env"
    and "dec_OrderPlaced dcs (nm_Data msg) = Inr evt" and "op_OrderId evt \<noteq> []"
    and "open_order view evt iv w" and "\<not> marked_in view w (op_OrderId evt)"
    and "0 \<le> sint (op_Quantity evt)" and "sint (op_Quantity evt) \<le> spec_available (stock_of iv)"
    and "i < length ts" and "ts ! i = Running (callback_p env dcs COrderPlaced msg)"
  shows "\<exists>w' iv'. (pool_step env dcs D R)\<^sup>*\<^sup>* (w, ts) (w', ts[i := Running (Ret ())]) \<and>
    open_order view evt iv' w' \<and> stock_of iv' = spec_reserve (sint (op_Quantity evt)) (stock_of iv) \<and>
    w_settled w' = w_settled w @ [Ack] \<and> announces_order w w'"
proof -
  let ?rest = "unseen_order_p env evt msg :: (('c, 'x) inv_world_scheme, unit) prog"
  let ?w1 = "exec (redis_Seen env (op_OrderId evt)) w"
  note seen = seen_unmarked [OF assms(1,5,6)]
  have "pool_step env dcs D R (w, ts) (?w1, ts[i := Running ?rest])"
    by (rule pool_unseen [OF assms(3,4,9,10) seen(1)])
  moreover have "(pool_step env dcs D R)\<^sup>*\<^sup>* (?w1, ts[i := Running ?rest])
      (exec (collapse ?rest) ?w1, ts[i := Running (Ret ())])"
    using run_to_end [of i "ts[i := Running ?rest]" env dcs D R ?w1 ?rest] assms(9) by simp
  ultimately have "(pool_step env dcs D R)\<^sup>*\<^sup>* (w, ts) (exec (collapse ?rest) ?w1, ts[i := Running (Ret ())])"
    by (rule converse_rtranclp_into_rtranclp)
  then show ?thesis
    using unseen_order_run [OF assms(1,2) seen(2) assms(7,8), of msg] seen(4,5)
    by (auto simp: announces_order_def)
qed

text \<open>
  C13: the idempotency check and the mark are two calls, and deliveries can overlap (the
  acknowledgement is due within 60 seconds, and the replicas share the queue). There is a
  schedule without a crash and without a failing call in which one order counts twice: two
  callbacks for it ask Redis one after the other, then the first runs to its end, then the
  second. It is shown for every order with an id and no mark, of a quantity that is not
  negative, whose row is not in the cache and has at least twice the quantity available: both callbacks find the order unmarked, both reserve
  and both acknowledge. (Other schedules end differently: a callback that reads the row
  between the cache write and the update of the other is refused.)
\<close>

theorem overlapping_deliveries_reserve_twice:
  fixes env :: "('c, inv_event) env" and w :: "('c, 'x) inv_world_scheme"
  assumes "redis_up (e_redis env) view" and "faultless env" and "rows_ok w"
    and "dec_OrderPlaced dcs (nm_Data msg) = Inr evt" and "op_OrderId evt \<noteq> []"
    and "inv_rows w (op_WarehouseId evt, op_Sku evt) = Some iv"
    and "cache_entry view w (op_WarehouseId evt) (op_Sku evt) = None" and "\<not> marked_in view w (op_OrderId evt)"
    and "0 \<le> sint (op_Quantity evt)" and "2 * sint (op_Quantity evt) \<le> spec_available (stock_of iv)"
  shows "let D = (\<lambda>c m. c = COrderPlaced \<and> m = msg); seen = redis_Seen env (op_OrderId evt);
      rest = unseen_order_p env evt msg; w1 = exec seen (exec seen w); w' = exec (collapse rest) (exec (collapse rest) w1)
    in pool_reachable env dcs D R w (w1, [Running rest, Running rest]) \<and>
      pool_reachable env dcs D R w (w', [Running (Ret ()), Running (Ret ())]) \<and>
      w_settled w' = w_settled w @ [Ack, Ack] \<and>
      (\<exists>iv'. inv_rows w' (op_WarehouseId evt, op_Sku evt) = Some iv' \<and>
        stock_of iv' = spec_reserve (2 * sint (op_Quantity evt)) (stock_of iv))"
proof -
  let ?D = "\<lambda>c m. c = COrderPlaced \<and> m = msg"
  let ?p = "callback_p env dcs COrderPlaced msg :: (('c, 'x) inv_world_scheme, unit) prog"
  let ?rest = "unseen_order_p env evt msg :: (('c, 'x) inv_world_scheme, unit) prog"
  let ?seen = "redis_Seen env (op_OrderId evt)"
  let ?steps = "(pool_step env dcs ?D R)\<^sup>*\<^sup>*"
  let ?w1 = "exec ?seen (exec ?seen w)"
  let ?w' = "exec (collapse ?rest) (exec (collapse ?rest) ?w1)"
  have redis: "cache_redis env view"
    using assms(1) by (simp add: cache_redis_def)
  have "open_order view evt iv w"
    using assms(3,6,7) by (simp add: open_order_def)
  note s1 = seen_unmarked [OF redis this assms(8)]
  note s2 = seen_unmarked [OF redis s1(2,3)]
  note both = unseen_order_twice [OF redis assms(2) s2(2) assms(9,10), of msg dcs ?D R, unfolded Let_def]
  have "?steps (w, []) (w, [Running ?p, Running ?p])"
    using pool_deliver [of ?D COrderPlaced msg env dcs R w "[]"]
      pool_deliver [of ?D COrderPlaced msg env dcs R w "[Running ?p]"] by auto
  also have "?steps \<dots> (exec ?seen w, [Running ?rest, Running ?p])"
    using pool_unseen [OF assms(4,5), of 0 "[Running ?p, Running ?p]" env w ?D R] s1(1) by auto
  also have "?steps \<dots> (?w1, [Running ?rest, Running ?rest])"
    using pool_unseen [OF assms(4,5), of 1 "[Running ?rest, Running ?p]" env "exec ?seen w" ?D R] s2(1) by auto
  finally have mid: "pool_reachable env dcs ?D R w (?w1, [Running ?rest, Running ?rest])"
    by (rule pool_steps_reachable) (rule pool_start)
  moreover from both [THEN conjunct1] this have "pool_reachable env dcs ?D R w (?w', [Running (Ret ()), Running (Ret ())])"
    by (rule pool_steps_reachable)
  ultimately show ?thesis
    using both s1(4) s2(4) by (auto simp: Let_def open_order_def)
qed

lemma demo_open:
  "rows_ok demo_world" "inv_rows demo_world (''JHB'', ''S1'') = Some (bus_of_row demo_row)"
  "cache_entry mem_view demo_world l s = None" "\<not> marked_in mem_view demo_world i"
  by (simp_all add: demo_rows_ok demo_rows) (simp_all add: cache_entry_def marked_in_def demo_world_def mem_view_def)

theorem overlapping_deliveries_reserve_twice_witness:
  "\<exists>w' iv'. pool_reachable demo_env demo_decoders (\<lambda>c m. c = COrderPlaced \<and> m = demo_msg) (\<lambda>_ _. False) demo_world
      (w', [Running (Ret ()), Running (Ret ())]) \<and>
    inv_rows w' (''JHB'', ''S1'') = Some iv' \<and> reserved (stock_of iv') = 8 \<and> w_settled w' = [Ack, Ack]"
  using overlapping_deliveries_reserve_twice [OF demo_redis_up faultless_calm demo_rows_ok,
      of demo_decoders demo_msg "demo_order 3" "bus_of_row demo_row" "\<lambda>_ _. False"] demo_open
  by (fastforce simp: Let_def demo_decoders_def demo_order_def spec_available_def spec_reserve_def stock_of_def
      bus_of_row_def demo_row_def demo_world_def)

lemma read_and_update_keep:
  fixes env :: "('c, inv_event) env" and w :: "('c, 'x) inv_world_scheme"
  assumes "rows_ok w" and "run_state (bus_GetInventory (cached_store env) l s) w = (r, w2)"
    and "run_state (bus_UpdateInventory (time_Now env) (cached_store env) iv u) w2 = (r', w3)"
  shows "rows_ok w3" and "w_settled w3 = w_settled w"
proof -
  have "rows_ok w2"
    using keepsD [OF invcache.cached.bus_get_keeps [unfolded all_ok_rows_ok], of w env l s] assms(1,2) by simp
  moreover have "keeps rows_ok (time_Now env)"
    by (rule keepsI) (simp add: time_Now_def tick_def rows_ok_frames)
  ultimately show "rows_ok w3"
    using keepsD [OF invcache.cached.bus_update_keeps [unfolded all_ok_rows_ok], of "time_Now env" w2 env iv u]
      assms(3) by simp
  show "w_settled w3 = w_settled w"
    using silent_collapse [OF silent_store(1), of env l s w] silent_collapse [OF silent_store(2), of env iv u w2]
    by (simp add: assms(2,3))
qed

text \<open>
  The callback of an open order gets to the point where the row is updated and nothing else
  has happened: no message was published, nothing is marked, nothing is settled.
\<close>

lemma order_reaches_update:
  fixes env :: "('c, inv_event) env" and w :: "('c, 'x) inv_world_scheme"
  assumes "cache_redis env view" and "faultless env" and "open_order view evt iv w"
    and "0 \<le> sint (op_Quantity evt)" and "sint (op_Quantity evt) \<le> spec_available (stock_of iv)"
    and "i < length ts"
  shows "\<exists>w' m iv'. (pool_step env dcs D R)\<^sup>*\<^sup>* (w, ts[i := Running (unseen_order_p env evt msg)])
      (w', ts[i := Running (Step m)]) \<and>
    open_order view evt iv' w' \<and> stock_of iv' = spec_reserve (sint (op_Quantity evt)) (stock_of iv) \<and>
    marked_in view w' = marked_in view w \<and> w_pub w' = w_pub w \<and> w_settled w' = w_settled w"
proof -
  let ?l = "op_WarehouseId evt" and ?s = "op_Sku evt"
  let ?u = "no_update\<lparr>upd_Reserved := Some (inv_Reserved iv + op_Quantity evt)\<rparr>"
  let ?steps = "(pool_step env dcs D R)\<^sup>*\<^sup>*"
  have world: "rows_ok w" "inv_rows w (?l, ?s) = Some iv" "cache_entry view w ?l ?s = None"
    using assms(3) by (simp_all add: open_order_def)
  obtain w2 w3 upd where r: "run_state (bus_GetInventory (cached_store env) ?l ?s) w = (Inr iv, w2)"
    and u: "run_state (bus_UpdateInventory (time_Now env) (cached_store env) iv ?u) w2 = (Inr upd, w3)"
    and w3: "inv_rows w3 = (inv_rows w)((?l, ?s) \<mapsto> inv_stored env upd)"
      "stock_of upd = spec_reserve (sint (op_Quantity evt)) (stock_of iv)"
      "cache_entry view w3 ?l ?s = None" "marked_in view w3 = marked_in view w" "w_pub w3 = w_pub w"
    using cached_order_update [OF assms(1) faultless_up [OF assms(2)] world(1,2) _ assms(4,5)]
      uncached_read [OF assms(1) world(3)] by blast
  have row: "inv_ok iv" "inv_key iv = (?l, ?s)"
    using world(1,2) by (auto simp: rows_ok_def)
  have enough: "\<not> int64_less (inv_OnHand iv - inv_Reserved iv) (op_Quantity evt)"
    using assms(5) invdb_service.available_exact [OF row(1)] by (simp add: spec_available_def stock_of_def)
  let ?rest = "\<lambda>u. case u of Inl err \<Rightarrow> Ret (Some err) | Inr updated \<Rightarrow>
      bindp (atom (uuid_NewString env)) (\<lambda>reservationID.
      bindp (newMetadata_p env Subject_InventoryReserved) (\<lambda>md.
      bindp (Publish_p env Subject_InventoryReserved (reserved_event md reservationID evt updated))
        (\<lambda>p. case p of Some err \<Rightarrow> Ret (Some err)
          | None \<Rightarrow> publish_updated_p env updated InventoryUpdated_RESERVATION)))"
  have rest: "orderPlaced_rest_p env evt iv = bindp (bus_update_p env iv ?u) ?rest"
    using enough by (simp add: orderPlaced_rest_p_def Let_def)
  have "\<exists>m. (unseen_p env (op_OrderId evt) (?rest (Inr upd)) msg :: (('c, 'x) inv_world_scheme, unit) prog) = Step m"
    by (simp add: unseen_p_def atom_def)
  then obtain m :: "(('c, 'x) inv_world_scheme, (('c, 'x) inv_world_scheme, unit) prog) state" where m: "unseen_p env (op_OrderId evt) (?rest (Inr upd)) msg = Step m" ..
  have "?steps (w, ts[i := Running (unseen_order_p env evt msg)])
      (w2, ts[i := Running (unseen_p env (op_OrderId evt) (orderPlaced_rest_p env evt iv) msg)])"
    using run_prefix [OF assms(6), of env dcs D R w "bus_get_p env ?l ?s" "\<lambda>r. unseen_p env (op_OrderId evt)
        (case r of Inl err \<Rightarrow> Ret (Some err) | Inr iv \<Rightarrow> orderPlaced_rest_p env evt iv) msg"]
    by (simp add: handleOrderPlaced_p_def unseen_bindp r)
  also have "?steps (w2, ts[i := Running (unseen_p env (op_OrderId evt) (orderPlaced_rest_p env evt iv) msg)])
      (w3, ts[i := Running (Step m)])"
    using run_prefix [OF assms(6), of env dcs D R w2 "bus_update_p env iv ?u"
        "\<lambda>u. unseen_p env (op_OrderId evt) (?rest u) msg"] m
    by (simp only: rest unseen_bindp collapse_bus_update u fst_conv snd_conv)
  finally have "?steps (w, ts[i := Running (unseen_order_p env evt msg)]) (w3, ts[i := Running (Step m)])" .
  then show ?thesis
    using read_and_update_keep [OF world(1) r u] w3 by (intro exI [where x = w3] exI [where x = m] exI [where x = "inv_stored env upd"])
      (simp add: open_order_def inv_stored_stock)
qed

text \<open>A delivered open order whose process dies right after it has updated the row.\<close>

lemma order_dies:
  fixes env :: "('c, inv_event) env" and w :: "('c, 'x) inv_world_scheme"
  assumes "cache_redis env view" and "faultless env"
    and "dec_OrderPlaced dcs (nm_Data msg) = Inr evt" and "op_OrderId evt \<noteq> []"
    and "open_order view evt iv w" and "\<not> marked_in view w (op_OrderId evt)"
    and "0 \<le> sint (op_Quantity evt)" and "sint (op_Quantity evt) \<le> spec_available (stock_of iv)"
    and "i < length ts" and "ts ! i = Running (callback_p env dcs COrderPlaced msg)"
  shows "\<exists>w' iv'. (pool_step env dcs D R)\<^sup>*\<^sup>* (w, ts) (w', ts[i := Killed]) \<and>
    open_order view evt iv' w' \<and> stock_of iv' = spec_reserve (sint (op_Quantity evt)) (stock_of iv) \<and>
    \<not> marked_in view w' (op_OrderId evt) \<and> w_pub w' = w_pub w \<and> w_settled w' = w_settled w"
proof -
  let ?w1 = "exec (redis_Seen env (op_OrderId evt)) w"
  let ?steps = "(pool_step env dcs D R)\<^sup>*\<^sup>*"
  note seen = seen_unmarked [OF assms(1,5,6)]
  from order_reaches_update [OF assms(1,2) seen(2) assms(7-9), of dcs D R msg]
  obtain w' m a where run: "?steps (?w1, ts[i := Running (unseen_order_p env evt msg)]) (w', ts[i := Running (Step m)])"
    and a: "open_order view evt a w'" "stock_of a = spec_reserve (sint (op_Quantity evt)) (stock_of iv)"
      "marked_in view w' = marked_in view ?w1" "w_pub w' = w_pub ?w1" "w_settled w' = w_settled ?w1"
    by blast
  have "?steps (w, ts) (?w1, ts[i := Running (unseen_order_p env evt msg)])"
    by (rule r_into_rtranclp) (rule pool_unseen [OF assms(3,4,9,10) seen(1)])
  also note run
  also have "?steps (w', ts[i := Running (Step m)]) (w', ts[i := Killed])"
    using pool_crash [of i "ts[i := Running (Step m)]" m env dcs D R w'] assms(9) by auto
  finally show ?thesis
    using a seen(3-5) by (intro exI [where x = w'] exI [where x = a]) simp
qed

text \<open>
  C14: a process can die at a point where its order has been reserved and nothing else is
  left of it: its callback has updated the row and removed the cache entry, and has
  published, marked and settled nothing. When the order is delivered again and handled
  without interruption, it finds no mark and no entry, reserves the quantity a second time,
  and is announced and acknowledged. It is shown for every order with an id and no mark, of a
  quantity that is not negative, whose row is not in the cache and has at least twice the
  quantity available; no call fails. (A process that
  dies earlier, between the update and the removal of the entry, leaves the row in the
  cache, and the redelivered order is refused.)
\<close>

theorem crash_reserves_twice:
  fixes env :: "('c, inv_event) env" and w :: "('c, 'x) inv_world_scheme"
  assumes "redis_up (e_redis env) view" and "faultless env" and "rows_ok w"
    and "dec_OrderPlaced dcs (nm_Data msg) = Inr evt" and "op_OrderId evt \<noteq> []"
    and "inv_rows w (op_WarehouseId evt, op_Sku evt) = Some iv"
    and "cache_entry view w (op_WarehouseId evt) (op_Sku evt) = None" and "\<not> marked_in view w (op_OrderId evt)"
    and "0 \<le> sint (op_Quantity evt)" and "2 * sint (op_Quantity evt) \<le> spec_available (stock_of iv)"
  shows "let D = (\<lambda>c m. c = COrderPlaced \<and> m = msg); k = (op_WarehouseId evt, op_Sku evt); q = sint (op_Quantity evt)
    in \<exists>w1 iv1 w' iv'. pool_reachable env dcs D R w (w1, [Killed]) \<and>
      inv_rows w1 k = Some iv1 \<and> stock_of iv1 = spec_reserve q (stock_of iv) \<and>
      cache_entry view w1 (op_WarehouseId evt) (op_Sku evt) = None \<and> \<not> marked_in view w1 (op_OrderId evt) \<and>
      w_pub w1 = w_pub w \<and> w_settled w1 = w_settled w \<and>
      (pool_step env dcs D R)\<^sup>*\<^sup>* (w1, [Killed]) (w', [Killed, Running (Ret ())]) \<and>
      inv_rows w' k = Some iv' \<and> stock_of iv' = spec_reserve (2 * q) (stock_of iv) \<and>
      w_settled w' = w_settled w @ [Ack] \<and> announces_order w w'"
proof -
  let ?D = "\<lambda>c m. c = COrderPlaced \<and> m = msg"
  let ?p = "callback_p env dcs COrderPlaced msg :: (('c, 'x) inv_world_scheme, unit) prog"
  let ?q = "sint (op_Quantity evt)" and ?steps = "(pool_step env dcs ?D R)\<^sup>*\<^sup>*"
  have redis: "cache_redis env view"
    using assms(1) by (simp add: cache_redis_def)
  have start: "open_order view evt iv w" "?q \<le> spec_available (stock_of iv)"
    using assms(3,6,7,9,10) by (simp_all add: open_order_def)
  from order_dies [OF redis assms(2,4,5) start(1) assms(8,9) start(2), of 0 "[Running ?p]" ?D R]
  obtain w1 a where dies: "?steps (w, [Running ?p]) (w1, [Killed])"
    and a: "open_order view evt a w1" "stock_of a = spec_reserve ?q (stock_of iv)"
      "\<not> marked_in view w1 (op_OrderId evt)" "w_pub w1 = w_pub w" "w_settled w1 = w_settled w"
    by auto
  have "?q \<le> spec_available (stock_of a)"
    using reserve_twice(2) [OF a(2)] assms(10) by simp
  from order_runs [OF redis assms(2,4,5) a(1,3) assms(9) this, of 1 "[Killed, Running ?p]" ?D R]
  obtain w2 b where again: "?steps (w1, [Killed, Running ?p]) (w2, [Killed, Running (Ret ())])"
    and b: "open_order view evt b w2" "stock_of b = spec_reserve ?q (stock_of a)"
      "w_settled w2 = w_settled w1 @ [Ack]" "announces_order w1 w2"
    by auto
  have "?steps (w, []) (w, [Running ?p])"
    using pool_deliver [of ?D COrderPlaced msg env dcs R w "[]"] by auto
  also note dies
  finally have "pool_reachable env dcs ?D R w (w1, [Killed])"
    by (rule pool_steps_reachable) (rule pool_start)
  moreover have "?steps (w1, [Killed]) (w1, [Killed, Running ?p])"
    using pool_deliver [of ?D COrderPlaced msg env dcs R w1 "[Killed]"] by auto
  with again have "?steps (w1, [Killed]) (w2, [Killed, Running (Ret ())])"
    by (rule rtranclp_trans [rotated])
  ultimately show ?thesis
    using a b reserve_twice(1) [OF a(2)] unfolding Let_def
    by (intro exI [where x = w1] exI [where x = a] exI [where x = w2] exI [where x = b])
      (simp add: open_order_def announces_order_def)
qed

theorem crash_reserves_twice_witness:
  "\<exists>w1 w' iv'. pool_reachable demo_env demo_decoders (\<lambda>c m. c = COrderPlaced \<and> m = demo_msg) (\<lambda>_ _. False) demo_world
      (w1, [Killed]) \<and>
    (pool_step demo_env demo_decoders (\<lambda>c m. c = COrderPlaced \<and> m = demo_msg) (\<lambda>_ _. False))\<^sup>*\<^sup>*
      (w1, [Killed]) (w', [Killed, Running (Ret ())]) \<and>
    inv_rows w' (''JHB'', ''S1'') = Some iv' \<and> reserved (stock_of iv') = 8 \<and> w_settled w' = [Ack]"
  using crash_reserves_twice [OF demo_redis_up faultless_calm demo_rows_ok,
      of demo_decoders demo_msg "demo_order 3" "bus_of_row demo_row" "\<lambda>_ _. False"] demo_open
  by (fastforce simp: Let_def demo_decoders_def demo_order_def spec_available_def spec_reserve_def stock_of_def
      bus_of_row_def demo_row_def demo_world_def)

subsection \<open>A slow reader\<close>

text \<open>
  The callback of a \<open>ShipmentDelivered\<close> gets to the point where it holds the row and has
  not written it into the cache yet; what it still has to do writes the row it holds.
\<close>

definition holding_p ::
  "('c, inv_event) env \<Rightarrow> ShipmentDelivered \<Rightarrow> Inventory \<Rightarrow> nats_msg \<Rightarrow> (('c, 'x) inv_world_scheme, unit) prog" where
  "holding_p env evt iv msg = bindp (atom (writeCache env iv)) (\<lambda>_.
     unseen_p env (sd_ShipmentId evt) (publish_updated_p env iv InventoryUpdated_SHIPMENT_DELIVERED) msg)"

lemma get_holds_row:
  fixes env :: "('c, inv_event) env" and w :: "('c, 'x) inv_world_scheme"
    and f :: "goerr + Inventory \<Rightarrow> (('c, 'x) inv_world_scheme, unit) prog"
  assumes "cache_redis env view" and "faultless env" and "i < length ts"
    and "inv_rows w (l, s) = Some iv" and "cache_entry view w l s = None"
  shows "\<exists>w'. (pool_step env dcs D R)\<^sup>*\<^sup>* (w, ts[i := Running (bindp (cached_get_p env l s) f)])
      (w', ts[i := Running (bindp (atom (writeCache env iv)) (\<lambda>_. f (Inr iv)))]) \<and>
    inv_rows w' = inv_rows w \<and> w_pub w' = w_pub w \<and> w_settled w' = w_settled w \<and>
    marked_in view w' = marked_in view w \<and> cache_entry view w' = cache_entry view w"
proof -
  let ?steps = "(pool_step env dcs D R)\<^sup>*\<^sup>*"
  let ?w1 = "exec (readCache env l s) w"
  let ?w2 = "?w1\<lparr>w_tick := Suc (w_tick ?w1)\<rparr>"
  let ?store = "\<lambda>r. case r of Inl err \<Rightarrow> Ret (Inl err)
    | Inr dbInv \<Rightarrow> bindp (atom (writeCache env dbInv)) (\<lambda>_. Ret (Inr dbInv))"
  let ?get = "bindp (atom (invdb_GetInventory env l s)) (\<lambda>r. bindp (?store r) f)"
  let ?miss = "\<lambda>c. bindp (case c of Inr iv \<Rightarrow> Ret (Inr Inventory_zero)
    | Inl _ \<Rightarrow> bindp (atom (invdb_GetInventory env l s)) ?store) f"
  have laws: "redis_laws (e_redis env) view"
    using assms(1) by (simp add: cache_redis_def redis_up_def)
  obtain e where e: "result (readCache env l s) w = Inl e"
    using readCache_missing [OF laws assms(5) [unfolded cache_entry_def]] by blast
  have get: "run_state (invdb_GetInventory env l s) ?w1 = (Inr iv, ?w2)"
    using assms(4) faultless_db [OF assms(2)] by (simp add: prod_eq_iff get_result_cases get_exec rows_redis_calls)
  have "?steps (w, ts[i := Running (bindp (atom (readCache env l s)) ?miss)]) (?w1, ts[i := Running ?get])"
    using run_prefix [OF assms(3), of env dcs D R w "atom (readCache env l s)" ?miss] by (simp add: e bindp_assoc)
  also have "?steps (?w1, ts[i := Running ?get])
      (?w2, ts[i := Running (bindp (atom (writeCache env iv)) (\<lambda>_. f (Inr iv)))])"
    using run_prefix [OF assms(3), of env dcs D R ?w1 "atom (invdb_GetInventory env l s)" "\<lambda>r. bindp (?store r) f"]
    by (simp add: get bindp_assoc)
  finally have steps: "?steps (w, ts[i := Running (bindp (cached_get_p env l s) f)])
      (?w2, ts[i := Running (bindp (atom (writeCache env iv)) (\<lambda>_. f (Inr iv)))])"
    by (simp add: cached_get_p_def bindp_assoc)
  have "marked_in view ?w2 = marked_in view w"
    using marked_same [of ?w2 ?w1] by (simp add: cache_redis.mark_calls [OF assms(1)])
  moreover have "cache_entry view ?w2 = cache_entry view w"
    by (simp add: cache_redis.entry_calls [OF assms(1)])
  ultimately show ?thesis
    using steps by (intro exI [where x = ?w2]) (simp add: redis_calls)
qed

lemma report_holds_row:
  fixes env :: "('c, inv_event) env" and w :: "('c, 'x) inv_world_scheme"
  assumes "cache_redis env view" and "faultless env" and "i < length ts"
    and "inv_rows w (sd_WarehouseId evt, sd_Sku evt) = Some iv"
    and "cache_entry view w (sd_WarehouseId evt) (sd_Sku evt) = None"
  shows "\<exists>w'. (pool_step env dcs D R)\<^sup>*\<^sup>*
      (w, ts[i := Running (unseen_p env (sd_ShipmentId evt) (handleShipmentDelivered_p env evt) msg)])
      (w', ts[i := Running (holding_p env evt iv msg)]) \<and>
    inv_rows w' = inv_rows w \<and> w_pub w' = w_pub w \<and> w_settled w' = w_settled w \<and>
    marked_in view w' = marked_in view w \<and> cache_entry view w' = cache_entry view w"
proof -
  define f :: "goerr + Inventory \<Rightarrow> (('c, 'x) inv_world_scheme, unit) prog" where
    "f = (\<lambda>r. unseen_p env (sd_ShipmentId evt) (bindp (case r of
        Inl err \<Rightarrow> Ret (Inl (ErrWrap (''query inventory: locationID['' @ sd_WarehouseId evt @ ''], SKU['' @
          sd_Sku evt @ '']: '') err))
      | Inr iv \<Rightarrow> Ret (Inr iv))
      (\<lambda>r. case r of Inl err \<Rightarrow> Ret (Some err)
        | Inr iv \<Rightarrow> publish_updated_p env iv InventoryUpdated_SHIPMENT_DELIVERED)) msg)"
  have "unseen_p env (sd_ShipmentId evt) (handleShipmentDelivered_p env evt) msg =
      bindp (cached_get_p env (sd_WarehouseId evt) (sd_Sku evt)) f"
    by (simp only: f_def handleShipmentDelivered_p_def bus_get_p_def unseen_bindp bindp_assoc)
  moreover have "bindp (atom (writeCache env iv)) (\<lambda>_. f (Inr iv)) = holding_p env evt iv msg"
    by (simp add: f_def holding_p_def)
  ultimately show ?thesis
    using get_holds_row [OF assms, of dcs D R f] by simp
qed

text \<open>A delivered report gets to the point where it holds the row.\<close>

lemma reader_holds:
  fixes env :: "('c, inv_event) env" and w :: "('c, 'x) inv_world_scheme"
  assumes "cache_redis env view" and "faultless env"
    and "dec_ShipmentDelivered dcs (nm_Data msg) = Inr del" and "sd_ShipmentId del \<noteq> []"
    and "sd_WarehouseId del = op_WarehouseId evt" and "sd_Sku del = op_Sku evt"
    and "open_order view evt iv w" and "\<not> marked_in view w (sd_ShipmentId del)"
    and "i < length ts" and "ts ! i = Running (callback_p env dcs CShipmentDelivered msg)"
  shows "\<exists>w'. (pool_step env dcs D R)\<^sup>*\<^sup>* (w, ts) (w', ts[i := Running (holding_p env del iv msg)]) \<and>
    open_order view evt iv w' \<and> w_pub w' = w_pub w \<and> w_settled w' = w_settled w \<and>
    marked_in view w' = marked_in view w"
proof -
  let ?w1 = "exec (redis_Seen env (sd_ShipmentId del)) w"
  note seen = seen_unmarked [OF assms(1,7,8)]
  have row: "inv_rows ?w1 (sd_WarehouseId del, sd_Sku del) = Some iv"
    "cache_entry view ?w1 (sd_WarehouseId del) (sd_Sku del) = None"
    using seen(2) assms(5,6) by (simp_all add: open_order_def)
  from report_holds_row [OF assms(1,2,9) row, of dcs D R msg] obtain w' where
    run: "(pool_step env dcs D R)\<^sup>*\<^sup>*
      (?w1, ts[i := Running (unseen_p env (sd_ShipmentId del) (handleShipmentDelivered_p env del) msg)])
      (w', ts[i := Running (holding_p env del iv msg)])"
    and w': "inv_rows w' = inv_rows ?w1" "w_pub w' = w_pub ?w1" "w_settled w' = w_settled ?w1"
      "marked_in view w' = marked_in view ?w1" "cache_entry view w' = cache_entry view ?w1"
    by blast
  have "open_order view evt iv w'"
    using seen(2) w'(1,5) rows_ok_same [OF w'(1)] by (simp add: open_order_def)
  moreover have "marked_in view w' = marked_in view w"
    using w'(4) cache_redis.mark_calls(4) [OF assms(1), of "sd_ShipmentId del" w] by simp
  ultimately show ?thesis
    using converse_rtranclp_into_rtranclp [OF pool_unseen_delivered [OF assms(3,4,9,10) seen(1)] run]
      w'(2,3) seen(4,5) by auto
qed

lemma holding_run:
  fixes env :: "('c, inv_event) env" and w :: "('c, 'x) inv_world_scheme"
  assumes "cache_redis env view" and "faultless env"
    and "cache_entry view w (inv_LocationID iv) (inv_SKU iv) = None" and "int64_in (inv_UpdatedAt iv div 1000000000)"
  shows "\<exists>c md. w_pub (exec (collapse (holding_p env evt iv msg)) w) = w_pub w @ [c] \<and>
    carries env c Subject_InventoryUpdated (updated_event md iv InventoryUpdated_SHIPMENT_DELIVERED) \<and>
    result (readCache env (inv_LocationID iv) (inv_SKU iv)) (exec (collapse (holding_p env evt iv msg)) w) =
      Inr (second_precision iv) \<and>
    w_settled (exec (collapse (holding_p env evt iv msg)) w) = w_settled w @ [Ack] \<and>
    inv_rows (exec (collapse (holding_p env evt iv msg)) w) = inv_rows w"
proof -
  let ?pub = "publish_updated env iv InventoryUpdated_SHIPMENT_DELIVERED"
  let ?mark = "redis_Mark env (sd_ShipmentId evt) one_day"
  let ?l = "inv_LocationID iv" and ?s = "inv_SKU iv"
  let ?w1 = "exec (writeCache env iv) w"
  let ?w2 = "exec ?pub ?w1"
  let ?w3 = "exec (settle Ack) (exec ?mark ?w2)"
  have up: "redis_up (e_redis env) view"
    using assms(1) by (simp add: cache_redis_def)
  obtain c md where pub: "result ?pub ?w1 = None" "w_pub ?w2 = w_pub ?w1 @ [c]"
    "carries env c Subject_InventoryUpdated (updated_event md iv InventoryUpdated_SHIPMENT_DELIVERED)"
    using publish_updated_faultless [OF assms(2), of iv InventoryUpdated_SHIPMENT_DELIVERED ?w1] by blast
  have run: "exec (collapse (holding_p env evt iv msg)) w = ?w3"
    using unseen_success [of "publish_updated_p env iv InventoryUpdated_SHIPMENT_DELIVERED" ?w1 env
        "sd_ShipmentId evt" msg] pub(1) mark_up [OF up, of "sd_ShipmentId evt" one_day ?w2]
    by (simp add: holding_p_def split_beta)
  have no_string: "\<forall>t. cache_entry view w ?l ?s \<noteq> Some (RString t)"
    using assms(3) by simp
  have "cached_row view ?w1 ?l ?s"
    by (rule cache_redis.write_caches [OF assms(1) no_string assms(4)])
  then have "\<forall>t. cache_entry view ?w1 ?l ?s \<noteq> Some (RString t)"
    by (auto simp: cached_row_def)
  moreover have "result (readCache env ?l ?s) ?w1 = Inr (second_precision iv)"
    using cache_redis.write_then_read [OF assms(1) no_string assms(4)] by simp
  moreover have "cache_entry view ?w3 = cache_entry view ?w1"
    by (simp add: settle_def cache_redis.entry_calls(3) [OF assms(1)]) (simp add: cache_entry_def fun_eq_iff)
  ultimately have "result (readCache env ?l ?s) ?w3 = Inr (second_precision iv)"
    using cache_redis.read_again [OF assms(1), of ?w1 ?l ?s "second_precision iv" ?w3] by simp
  moreover have "w_settled ?w2 = w_settled ?w1"
    using silent_collapse [OF silent_messages(2)] by simp
  ultimately show ?thesis
    using pub by (intro exI [where x = c] exI [where x = md])
      (simp add: run, simp add: settle_def redis_calls rows_ok_frames)
qed

lemma reader_overtaken:
  fixes env :: "('c, inv_event) env" and w :: "('c, 'x) inv_world_scheme"
  assumes "cache_redis env view" and "faultless env"
    and "dec_ShipmentDelivered dcs (nm_Data rmsg) = Inr del" and "sd_ShipmentId del \<noteq> []"
    and "dec_OrderPlaced dcs (nm_Data omsg) = Inr evt" and "op_OrderId evt \<noteq> []"
    and "sd_WarehouseId del = op_WarehouseId evt" and "sd_Sku del = op_Sku evt"
    and "open_order view evt iv w"
    and "\<not> marked_in view w (sd_ShipmentId del)" and "\<not> marked_in view w (op_OrderId evt)"
    and "0 \<le> sint (op_Quantity evt)" and "sint (op_Quantity evt) \<le> spec_available (stock_of iv)"
  shows "\<exists>w' iv'. (pool_step env dcs D R)\<^sup>*\<^sup>*
      (w, [Running (callback_p env dcs CShipmentDelivered rmsg), Running (callback_p env dcs COrderPlaced omsg)])
      (w', [Running (holding_p env del iv rmsg), Running (Ret ())]) \<and>
    open_order view evt iv' w' \<and> stock_of iv' = spec_reserve (sint (op_Quantity evt)) (stock_of iv) \<and>
    w_settled w' = w_settled w @ [Ack] \<and> announces_order w w'"
proof -
  let ?steps = "(pool_step env dcs D R)\<^sup>*\<^sup>*"
  let ?rp = "callback_p env dcs CShipmentDelivered rmsg :: (('c, 'x) inv_world_scheme, unit) prog"
  let ?op = "callback_p env dcs COrderPlaced omsg :: (('c, 'x) inv_world_scheme, unit) prog"
  let ?hold = "holding_p env del iv rmsg :: (('c, 'x) inv_world_scheme, unit) prog"
  from reader_holds [OF assms(1-4,7-10), of 0 "[Running ?rp, Running ?op]" D R]
  obtain w2 where held: "?steps (w, [Running ?rp, Running ?op]) (w2, [Running ?hold, Running ?op])"
    and w2: "open_order view evt iv w2" "w_pub w2 = w_pub w" "w_settled w2 = w_settled w"
      "\<not> marked_in view w2 (op_OrderId evt)"
    using assms(11) by auto
  from order_runs [OF assms(1,2,5,6) w2(1,4) assms(12,13), of 1 "[Running ?hold, Running ?op]" D R]
  obtain w4 a where "?steps (w2, [Running ?hold, Running ?op]) (w4, [Running ?hold, Running (Ret ())])"
    "open_order view evt a w4" "stock_of a = spec_reserve (sint (op_Quantity evt)) (stock_of iv)"
    "w_settled w4 = w_settled w2 @ [Ack]" "announces_order w2 w4"
    by auto
  with rtranclp_trans [OF held] w2(2,3) show ?thesis
    by (intro exI [where x = w4] exI [where x = a]) (simp add: announces_order_def)
qed

text \<open>
  C15: the cache can fall behind the database. There is a schedule without a crash and
  without a failing call in which the callback of a \<open>ShipmentDelivered\<close> has read the row
  from the database and not yet written it into the cache (\<open>holding_p\<close>) while an order for
  the row is handled completely, and then goes on: it puts the row it holds into the cache
  and publishes its quantities. In the end the database holds the reservation, the cache and
  the last \<open>InventoryUpdated\<close> on the wire say that there is none, and both messages are
  acknowledged. It is shown for every row that is not in the cache (with a time stamp
  whose seconds fit 64 bits), and every order of a positive available quantity; both messages
  have ids that are not marked yet.
\<close>

theorem slow_reader_restores_old_row:
  fixes env :: "('c, inv_event) env" and w :: "('c, 'x) inv_world_scheme"
  assumes "redis_up (e_redis env) view" and "faultless env" and "rows_ok w"
    and "dec_ShipmentDelivered dcs (nm_Data rmsg) = Inr del" and "sd_ShipmentId del \<noteq> []"
    and "dec_OrderPlaced dcs (nm_Data omsg) = Inr evt" and "op_OrderId evt \<noteq> []"
    and "sd_WarehouseId del = op_WarehouseId evt" and "sd_Sku del = op_Sku evt"
    and "inv_rows w (op_WarehouseId evt, op_Sku evt) = Some iv"
    and "cache_entry view w (op_WarehouseId evt) (op_Sku evt) = None"
    and "\<not> marked_in view w (sd_ShipmentId del)" and "\<not> marked_in view w (op_OrderId evt)"
    and "0 < sint (op_Quantity evt)" and "sint (op_Quantity evt) \<le> spec_available (stock_of iv)"
    and "int64_in (inv_UpdatedAt iv div 1000000000)"
  shows "let D = (\<lambda>c m. c = CShipmentDelivered \<and> m = rmsg \<or> c = COrderPlaced \<and> m = omsg); k = (op_WarehouseId evt, op_Sku evt)
    in \<exists>w1 w' iv' calls c md. pool_reachable env dcs D R w (w1, [Running (holding_p env del iv rmsg), Running (Ret ())]) \<and>
      cache_entry view w1 (op_WarehouseId evt) (op_Sku evt) = None \<and> inv_rows w1 k = Some iv' \<and>
      stock_of iv' = spec_reserve (sint (op_Quantity evt)) (stock_of iv) \<and>
      (pool_step env dcs D R)\<^sup>*\<^sup>* (w1, [Running (holding_p env del iv rmsg), Running (Ret ())])
        (w', [Running (Ret ()), Running (Ret ())]) \<and>
      w_settled w' = w_settled w @ [Ack, Ack] \<and> inv_rows w' k = Some iv' \<and>
      result (readCache env (op_WarehouseId evt) (op_Sku evt)) w' = Inr (second_precision iv) \<and>
      w_pub w' = w_pub w @ calls @ [c] \<and>
      carries env c Subject_InventoryUpdated (updated_event md iv InventoryUpdated_SHIPMENT_DELIVERED)"
proof -
  let ?D = "\<lambda>c m. c = CShipmentDelivered \<and> m = rmsg \<or> c = COrderPlaced \<and> m = omsg"
  let ?steps = "(pool_step env dcs ?D R)\<^sup>*\<^sup>*"
  let ?rp = "callback_p env dcs CShipmentDelivered rmsg :: (('c, 'x) inv_world_scheme, unit) prog"
  let ?op = "callback_p env dcs COrderPlaced omsg :: (('c, 'x) inv_world_scheme, unit) prog"
  let ?hold = "holding_p env del iv rmsg :: (('c, 'x) inv_world_scheme, unit) prog"
  let ?l = "op_WarehouseId evt" and ?s = "op_Sku evt"
  have redis: "cache_redis env view"
    using assms(1) by (simp add: cache_redis_def)
  have key: "inv_LocationID iv = ?l" "inv_SKU iv = ?s"
    using assms(3,10) by (auto simp: rows_ok_def inv_key_def)
  have ready: "open_order view evt iv w" "0 \<le> sint (op_Quantity evt)"
    using assms(3,10,11,14) by (simp_all add: open_order_def)
  from reader_overtaken [OF redis assms(2,4-9) ready(1) assms(12,13) ready(2) assms(15), of ?D R]
  obtain w4 a where ordered: "?steps (w, [Running ?rp, Running ?op]) (w4, [Running ?hold, Running (Ret ())])"
    and a: "open_order view evt a w4" "stock_of a = spec_reserve (sint (op_Quantity evt)) (stock_of iv)"
      "w_settled w4 = w_settled w @ [Ack]" "announces_order w w4"
    by blast
  let ?w5 = "exec (collapse ?hold) w4"
  have "cache_entry view w4 (inv_LocationID iv) (inv_SKU iv) = None"
    using a(1) key by (simp add: open_order_def)
  from holding_run [OF redis assms(2) this assms(16), of del rmsg]
  obtain c md where h: "w_pub ?w5 = w_pub w4 @ [c]"
    "carries env c Subject_InventoryUpdated (updated_event md iv InventoryUpdated_SHIPMENT_DELIVERED)"
    "result (readCache env ?l ?s) ?w5 = Inr (second_precision iv)"
    "w_settled ?w5 = w_settled w4 @ [Ack]" "inv_rows ?w5 = inv_rows w4"
    unfolding key by blast
  have "?steps (w, []) (w, [Running ?rp, Running ?op])"
    using pool_deliver [of ?D CShipmentDelivered rmsg env dcs R w "[]"]
      pool_deliver [of ?D COrderPlaced omsg env dcs R w "[Running ?rp]"] by auto
  also note ordered
  finally have "pool_reachable env dcs ?D R w (w4, [Running ?hold, Running (Ret ())])"
    by (rule pool_steps_reachable) (rule pool_start)
  moreover have "?steps (w4, [Running ?hold, Running (Ret ())]) (?w5, [Running (Ret ()), Running (Ret ())])"
    using run_to_end [of 0 "[Running ?hold, Running (Ret ())]" env dcs ?D R w4 ?hold] by simp
  moreover obtain c1 c2 where "w_pub w4 = w_pub w @ [c1, c2]"
    using a(4) by (auto simp: announces_order_def)
  ultimately show ?thesis
    using a(1-3) h unfolding Let_def by (intro exI [where x = w4] exI [where x = ?w5] exI [where x = a]
        exI [where x = "[c1, c2]"] exI [where x = c] exI [where x = md]) (simp add: open_order_def)
qed

definition race_decoders :: decoders where
  "race_decoders = demo_decoders\<lparr>dec_ShipmentDelivered := (\<lambda>_. Inr (ShipmentDelivered_zero
     \<lparr>sd_ShipmentId := ''D1'', sd_WarehouseId := ''JHB'', sd_Sku := ''S1''\<rparr>))\<rparr>"

theorem slow_reader_restores_old_row_witness:
  "\<exists>w' iv' old. pool_reachable demo_env race_decoders
      (\<lambda>c m. c = CShipmentDelivered \<and> m = demo_msg \<or> c = COrderPlaced \<and> m = demo_msg) (\<lambda>_ _. False) demo_world
      (w', [Running (Ret ()), Running (Ret ())]) \<and>
    inv_rows w' (''JHB'', ''S1'') = Some iv' \<and> reserved (stock_of iv') = 5 \<and>
    result (readCache demo_env ''JHB'' ''S1'') w' = Inr old \<and> reserved (stock_of old) = 2"
proof -
  let ?del = "ShipmentDelivered_zero\<lparr>sd_ShipmentId := ''D1'', sd_WarehouseId := ''JHB'', sd_Sku := ''S1''\<rparr>"
  let ?iv = "bus_of_row demo_row"
  let ?D = "\<lambda>c m. c = CShipmentDelivered \<and> m = demo_msg \<or> c = COrderPlaced \<and> m = demo_msg"
  have "stock_of ?iv = \<lparr>on_hand = 10, reserved = 2, incoming = 5\<rparr>" "int64_in (inv_UpdatedAt ?iv div 1000000000)"
    by (simp_all add: stock_of_def bus_of_row_def demo_row_def int64_in_def)
  with slow_reader_restores_old_row [OF demo_redis_up faultless_calm demo_rows_ok,
      of race_decoders demo_msg ?del demo_msg "demo_order 3" ?iv "\<lambda>_ _. False", unfolded Let_def] demo_open
  obtain w1 w' iv' t where "pool_reachable demo_env race_decoders ?D (\<lambda>_ _. False) demo_world (w1, t)"
    "(pool_step demo_env race_decoders ?D (\<lambda>_ _. False))\<^sup>*\<^sup>* (w1, t) (w', [Running (Ret ()), Running (Ret ())])"
    "inv_rows w' (''JHB'', ''S1'') = Some iv'" "stock_of iv' = spec_reserve 3 (stock_of ?iv)"
    "result (readCache demo_env ''JHB'' ''S1'') w' = Inr (second_precision ?iv)"
    by (fastforce simp: race_decoders_def demo_decoders_def demo_order_def spec_available_def)
  with pool_steps_reachable [OF this(2,1)] show ?thesis
    by (intro exI [where x = w'] exI [where x = iv'] exI [where x = "second_precision ?iv"])
      (simp add: spec_reserve_def second_precision_def stock_of_def bus_of_row_def demo_row_def)
qed

end
