(* ===== verification/Inv_Handlers.thy ===== *)
theory Inv_Handlers
  imports Inv_Races
begin

section \<open>The handlers of the running service\<close>

text \<open>
  What one handler does in the service as \<open>cmd/inventory/main.go\<close> wires it: over the
  cached store, which is over the database store. A read that the cache answers gives the
  zero row; any other read gives the row of the database. Rows satisfy the schema throughout
  (\<open>rows_ok\<close>, which every reachable state keeps), and a handler runs by itself here;
  \<open>Inv_Concurrent\<close> is about handlers that overlap. The theory states the effect of
  each writing handler in both cases, for every pattern of failures, the complete outcome of
  an order when nothing fails, and what redelivery does while the broker is down.
\<close>

subsection \<open>The read of a handler\<close>

lemma cached_hit:
  assumes "result (readCache env l s) w = Inr iv"
  shows "run_state (bus_GetInventory (cached_store env) l s) w = (Inr Inventory_zero, exec (readCache env l s) w)"
  using assms by (simp add: bus_GetInventory_def invcache_Store_def invcache_GetInventory_def split_beta)

lemma cached_miss:
  assumes "result (readCache env l s) w = Inl e" and "rows_ok w"
    and "result (bus_GetInventory (cached_store env) l s) w = Inr iv"
  shows "invcache_service.reads env l s iv w" and "inv_rows w (l, s) = Some iv"
proof -
  have get: "result (st_GetInventory (cached_store env) l s) w = Inr iv"
    using assms(3) by (simp add: bus_GetInventory_def split_beta split: sum.splits)
  then have "result (invdb_GetInventory env l s) (exec (readCache env l s) w) = Inr iv"
    using assms(1)
    by (simp add: invcache_Store_def invcache_GetInventory_def invdb_Store_def split_beta split: sum.splits)
  then show row: "inv_rows w (l, s) = Some iv"
    by (auto simp: get_result_cases rows_redis_calls split: db_fault.splits option.splits)
  show "invcache_service.reads env l s iv w"
    unfolding invcache_service.reads_def using get row assms(2) by (simp add: all_ok_rows_ok)
qed

text \<open>A handler that reports success could read its row.\<close>

lemma handler_read:
  assumes "result (do { r \<leftarrow> m; case r of Inl err \<Rightarrow> State_Monad.return (Some err) | Inr iv \<Rightarrow> f iv }) w = None"
  shows "\<exists>iv. result m w = Inr iv"
  using assms by (cases "result m w") (simp_all add: split_beta)

lemma handler_reads:
  "result (handleOrderPlaced env S o1) w = None \<Longrightarrow>
    \<exists>iv. result (bus_GetInventory S (op_WarehouseId o1) (op_Sku o1)) w = Inr iv"
  "result (handleOrderCancelled env S o2) w = None \<Longrightarrow>
    \<exists>iv. result (bus_GetInventory S (oc_WarehouseId o2) (oc_Sku o2)) w = Inr iv"
  "result (handleOrderShipped env S o3) w = None \<Longrightarrow>
    \<exists>iv. result (bus_GetInventory S (os_WarehouseId o3) (os_Sku o3)) w = Inr iv"
  "result (handleShipmentCancelled env S sx) w = None \<Longrightarrow>
    \<exists>iv. result (bus_GetInventory S (sx_WarehouseId sx) (sx_Sku sx)) w = Inr iv"
  unfolding handleOrderPlaced_def handleOrderCancelled_def handleOrderShipped_def handleShipmentCancelled_def
  by (erule handler_read)+

text \<open>An update of the zero row can only reach the row without a location and a SKU.\<close>

lemma zero_key_row [simp]: "inv_key Inventory_zero = ([], [])"
  by (simp add: inv_key_def Inventory_zero_def)

lemma bus_update_elsewhere:
  assumes "k \<noteq> inv_key iv"
  shows "inv_rows (exec (bus_UpdateInventory (time_Now env) (cached_store env) iv u) w) k = inv_rows w k"
  using assms
  by (simp add: bus_UpdateInventory_def Let_def split_beta invcache_Store_def invcache_UpdateInventory_def
      invdb_Store_def time_Now_def tick_def rows_redis_calls rows_update_other split: option.splits)

lemma update_and_publish_elsewhere:
  assumes "k \<noteq> inv_key iv"
  shows "inv_rows (exec (update_and_publish env (cached_store env) iv u why) w) k = inv_rows w k"
  by (simp add: update_and_publish_def split_beta bus_update_elsewhere [OF assms] split: sum.splits)

lemma after_read_elsewhere:
  assumes "k \<noteq> inv_key iv"
  shows "inv_rows (exec (orderPlaced_after_read env (cached_store env) evt iv) w) k = inv_rows w k"
  by (simp add: orderPlaced_after_read_def Let_def split_beta bus_update_elsewhere [OF assms]
      split: sum.splits option.splits)

subsection \<open>Effects under every pattern of failures\<close>

definition row_becomes ::
  "('c, 'x) inv_world_scheme \<Rightarrow> inv_key \<Rightarrow> stock \<Rightarrow> ('c, 'x) inv_world_scheme \<Rightarrow> bool" where
  "row_becomes w k st w' \<longleftrightarrow> (\<exists>iv'. inv_rows w' = (inv_rows w)(k \<mapsto> iv') \<and> inv_ok iv' \<and> stock_of iv' = st)"

text \<open>The concrete runs: a row that is not in the cache, and an update that goes through.\<close>

lemma demo_miss:
  "\<exists>e. result (readCache demo_env ''JHB'' ''S1'') demo_world = Inl e"
  "\<exists>w'. run_state (bus_GetInventory (cached_store demo_env) ''JHB'' ''S1'') demo_world = (Inr (bus_of_row demo_row), w') \<and>
    inv_rows w' = inv_rows demo_world"
proof -
  have "cache_redis demo_env mem_view"
    using demo_redis_up by (simp add: cache_redis_def)
  from uncached_read [OF this] demo_open(3) show miss: "\<exists>e. result (readCache demo_env ''JHB'' ''S1'') demo_world = Inl e"
    by blast
  then show "\<exists>w'. run_state (bus_GetInventory (cached_store demo_env) ''JHB'' ''S1'') demo_world =
      (Inr (bus_of_row demo_row), w') \<and> inv_rows w' = inv_rows demo_world"
    using cached_read_db [of demo_env "''JHB''" "''S1''" demo_world, OF _ _ demo_open(2)]
    by (force simp: rows_redis_calls)
qed

lemma update_and_publish_up:
  assumes "redis_up (e_redis env) view" and "faultless env" and "inv_ok (apply_update iv u)"
    and "inv_rows w (inv_key iv) \<noteq> None"
  shows "result (update_and_publish env (cached_store env) iv u why) w = None"
proof -
  obtain iv' where upd: "result (bus_UpdateInventory (time_Now env) (invdb_Store env) iv u) w = Inr iv'"
    using bus_update_faultless [OF assms(2-4)] by blast
  from cached_bus_update [OF delete_up [OF assms(1)] this] show ?thesis
    using publish_updated_faultless [OF assms(2), THEN conjunct1] by (simp add: update_and_publish_def)
qed

lemmas demo_updates = update_and_publish_up [OF demo_redis_up faultless_calm]

text \<open>
  C3: an \<open>OrderPlaced\<close> of the running service whose handler runs by itself and reports
  success, whatever has failed on the way. When the cache did not answer the read, the row exists, and either it
  has less than the quantity available and no row changed, or exactly the quantity moved
  into its reserved quantity, without wrap-around, and nothing else changed. When the cache
  answered, a positive order changed no row at all, and any other order none but the row
  without a location and a SKU.
\<close>

theorem orderPlaced_refines:
  fixes env :: "('c, inv_event) env" and w :: "('c, 'x) inv_world_scheme"
  assumes "rows_ok w" and "result (handleOrderPlaced env (cached_store env) evt) w = None"
  shows "let k = (op_WarehouseId evt, op_Sku evt); q = sint (op_Quantity evt);
      w' = exec (handleOrderPlaced env (cached_store env) evt) w
    in case result (readCache env (op_WarehouseId evt) (op_Sku evt)) w of
      Inl _ \<Rightarrow> \<exists>iv. inv_rows w k = Some iv \<and>
        (if spec_available (stock_of iv) < q then inv_rows w' = inv_rows w
         else row_becomes w k (spec_reserve q (stock_of iv)) w')
    | Inr _ \<Rightarrow> \<forall>k'. k' \<noteq> ([], []) \<or> 0 < q \<longrightarrow> inv_rows w' k' = inv_rows w k'"
proof (cases "result (readCache env (op_WarehouseId evt) (op_Sku evt)) w")
  case (Inl e)
  obtain iv where "result (bus_GetInventory (cached_store env) (op_WarehouseId evt) (op_Sku evt)) w = Inr iv"
    using handler_reads(1) [OF assms(2)] ..
  note reads = cached_miss [OF Inl assms(1) this]
  from invcache_service.orderPlaced_stock [OF reads(1) assms(2)] show ?thesis
    using reads(2) invcache_service.reads_after(3) [OF reads(1)] by (auto simp: Inl Let_def row_becomes_def)
next
  case (Inr hit)
  let ?w1 = "exec (readCache env (op_WarehouseId evt) (op_Sku evt)) w"
  have run: "run_state (handleOrderPlaced env (cached_store env) evt) w =
      run_state (orderPlaced_after_read env (cached_store env) evt Inventory_zero) ?w1"
    by (simp add: handleOrderPlaced_def cached_hit [OF Inr])
  have "inv_rows (exec (orderPlaced_after_read env (cached_store env) evt Inventory_zero) ?w1) = inv_rows ?w1"
    if "0 < sint (op_Quantity evt)"
    using that by (intro after_read_refused [THEN conjunct1]) (simp add: Inventory_zero_def)
  moreover have "k \<noteq> ([], []) \<Longrightarrow> inv_rows (exec (orderPlaced_after_read env (cached_store env) evt Inventory_zero) ?w1) k =
      inv_rows ?w1 k" for k
    by (rule after_read_elsewhere) simp
  ultimately show ?thesis
    unfolding Let_def run Inr sum.case rows_redis_calls by metis
qed

theorem orderPlaced_refines_witness:
  "\<exists>iv'. inv_rows (exec (handleOrderPlaced demo_env (cached_store demo_env) (demo_order 3)) demo_world)
      (''JHB'', ''S1'') = Some iv' \<and> reserved (stock_of iv') = 5"
proof -
  have "cache_redis demo_env mem_view"
    using demo_redis_up by (simp add: cache_redis_def)
  from cached_order [OF this faultless_calm demo_rows_ok, of "demo_order 3" "bus_of_row demo_row"]
  have "result (handleOrderPlaced demo_env (cached_store demo_env) (demo_order 3)) demo_world = None"
    using demo_open by (auto simp: demo_order_def spec_available_def stock_of_def bus_of_row_def demo_row_def)
  from orderPlaced_refines [OF demo_rows_ok this] demo_miss(1) show ?thesis
    by (auto simp: demo_rows demo_order_def Let_def row_becomes_def spec_available_def spec_reserve_def stock_of_def
        bus_of_row_def demo_row_def)
qed

text \<open>
  C4: an \<open>OrderCancelled\<close> of the running service whose handler runs by itself and reports
  success, whatever has failed on the way. When the cache did not answer the read, the row exists and the smaller
  of the quantity and the reserved quantity was released, nothing else; a row with nothing
  reserved is left alone. When the cache answered, no row changed.
\<close>

theorem orderCancelled_refines:
  fixes env :: "('c, inv_event) env" and w :: "('c, 'x) inv_world_scheme"
  assumes "rows_ok w" and "result (handleOrderCancelled env (cached_store env) evt) w = None"
  shows "let k = (oc_WarehouseId evt, oc_Sku evt); w' = exec (handleOrderCancelled env (cached_store env) evt) w
    in case result (readCache env (oc_WarehouseId evt) (oc_Sku evt)) w of
      Inl _ \<Rightarrow> \<exists>iv. inv_rows w k = Some iv \<and>
        (if reserved (stock_of iv) = 0 then inv_rows w' = inv_rows w
         else row_becomes w k (spec_release (sint (oc_Quantity evt)) (stock_of iv)) w')
    | Inr _ \<Rightarrow> inv_rows w' = inv_rows w"
proof (cases "result (readCache env (oc_WarehouseId evt) (oc_Sku evt)) w")
  case (Inl e)
  obtain iv where "result (bus_GetInventory (cached_store env) (oc_WarehouseId evt) (oc_Sku evt)) w = Inr iv"
    using handler_reads(2) [OF assms(2)] ..
  note reads = cached_miss [OF Inl assms(1) this]
  from invcache_service.orderCancelled_stock [OF reads(1) assms(2)] show ?thesis
    using reads(2) invcache_service.reads_after(3) [OF reads(1)] by (auto simp: Inl Let_def row_becomes_def)
next
  case (Inr hit)
  then show ?thesis
    by (simp add: handleOrderCancelled_def cached_hit orderCancelled_after_read_def rows_redis_calls)
      (simp add: Inventory_zero_def rows_redis_calls)
qed

theorem orderCancelled_refines_witness:
  "\<exists>iv'. inv_rows (exec (handleOrderCancelled demo_env (cached_store demo_env) (demo_cancel 7)) demo_world)
      (''JHB'', ''S1'') = Some iv' \<and> reserved (stock_of iv') = 0"
proof -
  obtain w' where read: "run_state (bus_GetInventory (cached_store demo_env) ''JHB'' ''S1'') demo_world =
      (Inr (bus_of_row demo_row), w')" "inv_rows w' = inv_rows demo_world"
    using demo_miss(2) by blast
  have "result (update_and_publish demo_env (cached_store demo_env) (bus_of_row demo_row)
      (no_update\<lparr>upd_Reserved := Some 0\<rparr>) InventoryUpdated_RELEASE) w' = None"
    by (rule demo_updates) (simp_all add: inv_ok_iff bus_of_row_def demo_row_def no_update_def read(2) demo_rows inv_key_def)
  then have "result (handleOrderCancelled demo_env (cached_store demo_env) (demo_cancel 7)) demo_world = None"
    by (simp add: handleOrderCancelled_def read demo_cancel_def orderCancelled_after_read_def) (simp add: bus_of_row_def demo_row_def)
  from orderCancelled_refines [OF demo_rows_ok this] demo_miss(1) show ?thesis
    by (auto simp: demo_rows demo_cancel_def Let_def row_becomes_def spec_release_def stock_of_def bus_of_row_def
        demo_row_def)
qed

text \<open>
  C5: an \<open>OrderShipped\<close> of the running service whose handler runs by itself and reports
  success, whatever has failed on the way. When the cache did not answer the read, the row exists and the same
  number of units left the reserved quantity and the quantity on hand, the smallest of the
  quantity shipped, reserved and on hand; a row with nothing reserved is left alone. When
  the cache answered, no row changed.
\<close>

theorem orderShipped_refines:
  fixes env :: "('c, inv_event) env" and w :: "('c, 'x) inv_world_scheme"
  assumes "rows_ok w" and "result (handleOrderShipped env (cached_store env) evt) w = None"
  shows "let k = (os_WarehouseId evt, os_Sku evt); w' = exec (handleOrderShipped env (cached_store env) evt) w
    in case result (readCache env (os_WarehouseId evt) (os_Sku evt)) w of
      Inl _ \<Rightarrow> \<exists>iv. inv_rows w k = Some iv \<and>
        (if reserved (stock_of iv) = 0 then inv_rows w' = inv_rows w
         else row_becomes w k (spec_ship (sint (os_Quantity evt)) (stock_of iv)) w')
    | Inr _ \<Rightarrow> inv_rows w' = inv_rows w"
proof (cases "result (readCache env (os_WarehouseId evt) (os_Sku evt)) w")
  case (Inl e)
  obtain iv where "result (bus_GetInventory (cached_store env) (os_WarehouseId evt) (os_Sku evt)) w = Inr iv"
    using handler_reads(3) [OF assms(2)] ..
  note reads = cached_miss [OF Inl assms(1) this]
  from invcache_service.orderShipped_stock [OF reads(1) assms(2)] show ?thesis
    using reads(2) invcache_service.reads_after(3) [OF reads(1)] by (auto simp: Inl Let_def row_becomes_def)
next
  case (Inr hit)
  then show ?thesis
    by (simp add: handleOrderShipped_def cached_hit orderShipped_after_read_def rows_redis_calls)
      (simp add: Inventory_zero_def rows_redis_calls)
qed

theorem orderShipped_refines_witness:
  "\<exists>iv'. inv_rows (exec (handleOrderShipped demo_env (cached_store demo_env) (demo_shipped 7)) demo_world)
      (''JHB'', ''S1'') = Some iv' \<and> stock_of iv' = \<lparr>on_hand = 8, reserved = 0, incoming = 5\<rparr>"
proof -
  obtain w' where read: "run_state (bus_GetInventory (cached_store demo_env) ''JHB'' ''S1'') demo_world =
      (Inr (bus_of_row demo_row), w')" "inv_rows w' = inv_rows demo_world"
    using demo_miss(2) by blast
  have "result (update_and_publish demo_env (cached_store demo_env) (bus_of_row demo_row)
      (no_update\<lparr>upd_Reserved := Some 0, upd_OnHand := Some 8\<rparr>) InventoryUpdated_SHIPMENT_DISPATCHED) w' = None"
    by (rule demo_updates) (simp_all add: inv_ok_iff bus_of_row_def demo_row_def no_update_def read(2) demo_rows inv_key_def)
  then have "result (handleOrderShipped demo_env (cached_store demo_env) (demo_shipped 7)) demo_world = None"
    by (simp add: handleOrderShipped_def read demo_shipped_def orderShipped_after_read_def) (simp add: bus_of_row_def demo_row_def)
  from orderShipped_refines [OF demo_rows_ok this] demo_miss(1) show ?thesis
    by (auto simp: demo_rows demo_shipped_def Let_def row_becomes_def spec_ship_def stock_of_def bus_of_row_def
        demo_row_def)
qed

text \<open>
  C6: a \<open>ShipmentCancelled\<close> of the running service whose handler runs by itself and reports
  success, whatever has failed on the way. When the cache did not answer the read, the row exists and a
  positive quantity was put back on hand, without wrap-around, and nothing else changed. When
  the cache answered, no row changed but possibly the row without a location and a SKU: the
  units are not returned. A quantity that is not positive changes nothing.
\<close>

theorem shipmentCancelled_refines:
  fixes env :: "('c, inv_event) env" and w :: "('c, 'x) inv_world_scheme"
  assumes "rows_ok w" and "result (handleShipmentCancelled env (cached_store env) evt) w = None"
  shows "let k = (sx_WarehouseId evt, sx_Sku evt); w' = exec (handleShipmentCancelled env (cached_store env) evt) w
    in if sint (sx_Quantity evt) \<le> 0 then inv_rows w' = inv_rows w
    else case result (readCache env (sx_WarehouseId evt) (sx_Sku evt)) w of
      Inl _ \<Rightarrow> \<exists>iv. inv_rows w k = Some iv \<and>
        row_becomes w k (spec_restore (sint (sx_Quantity evt)) (stock_of iv)) w'
    | Inr _ \<Rightarrow> \<forall>k'. k' \<noteq> ([], []) \<longrightarrow> inv_rows w' k' = inv_rows w k'"
proof (cases "result (readCache env (sx_WarehouseId evt) (sx_Sku evt)) w")
  case (Inl e)
  obtain iv where "result (bus_GetInventory (cached_store env) (sx_WarehouseId evt) (sx_Sku evt)) w = Inr iv"
    using handler_reads(4) [OF assms(2)] ..
  note reads = cached_miss [OF Inl assms(1) this]
  from invcache_service.shipmentCancelled_stock [OF reads(1) assms(2)] show ?thesis
    using reads(2) invcache_service.reads_after(3) [OF reads(1)] by (auto simp: Inl Let_def row_becomes_def)
next
  case (Inr hit)
  then show ?thesis
    by (auto simp: Let_def handleShipmentCancelled_def cached_hit shipmentCancelled_after_read_def rows_redis_calls
        update_and_publish_elsewhere)
qed

theorem shipmentCancelled_refines_witness:
  "\<exists>iv'. inv_rows (exec (handleShipmentCancelled demo_env (cached_store demo_env) (demo_shipment_cancelled 4))
      demo_world) (''JHB'', ''S1'') = Some iv' \<and> stock_of iv' = \<lparr>on_hand = 14, reserved = 2, incoming = 5\<rparr>"
proof -
  obtain w' where read: "run_state (bus_GetInventory (cached_store demo_env) ''JHB'' ''S1'') demo_world =
      (Inr (bus_of_row demo_row), w')" "inv_rows w' = inv_rows demo_world"
    using demo_miss(2) by blast
  have "result (update_and_publish demo_env (cached_store demo_env) (bus_of_row demo_row)
      (no_update\<lparr>upd_OnHand := Some 14\<rparr>) InventoryUpdated_SHIPMENT_CANCELLED) w' = None"
    by (rule demo_updates) (simp_all add: inv_ok_iff bus_of_row_def demo_row_def no_update_def read(2) demo_rows inv_key_def)
  then have "result (handleShipmentCancelled demo_env (cached_store demo_env) (demo_shipment_cancelled 4)) demo_world = None"
    by (simp add: handleShipmentCancelled_def read demo_shipment_cancelled_def shipmentCancelled_after_read_def) (simp add: bus_of_row_def demo_row_def)
  from shipmentCancelled_refines [OF demo_rows_ok this] demo_miss(1) show ?thesis
    by (auto simp: demo_rows demo_shipment_cancelled_def Let_def row_becomes_def spec_restore_def stock_of_def
        bus_of_row_def demo_row_def)
qed


subsection \<open>The outcome of an order when nothing fails\<close>

definition reports_failure ::
  "('c, inv_event) env \<Rightarrow> OrderPlaced \<Rightarrow> Inventory \<Rightarrow> ('c, 'x) inv_world_scheme \<Rightarrow> ('c, 'x) inv_world_scheme \<Rightarrow> bool" where
  "reports_failure env evt iv w w' \<longleftrightarrow> inv_rows w' = inv_rows w \<and>
     (\<exists>call md. w_pub w' = w_pub w @ [call] \<and>
       carries env call Subject_InventoryReservationFailed (reservation_failed md evt iv))"

definition reports_reservation ::
  "('c, inv_event) env \<Rightarrow> OrderPlaced \<Rightarrow> Inventory \<Rightarrow> ('c, 'x) inv_world_scheme \<Rightarrow> ('c, 'x) inv_world_scheme \<Rightarrow> bool" where
  "reports_reservation env evt iv' w w' \<longleftrightarrow>
     inv_rows w' = (inv_rows w)((op_WarehouseId evt, op_Sku evt) \<mapsto> inv_stored env iv') \<and>
     (\<exists>c1 c2 md md' rid. w_pub w' = w_pub w @ [c1, c2] \<and>
       carries env c1 Subject_InventoryReserved (reserved_event md rid evt iv') \<and>
       carries env c2 Subject_InventoryUpdated (updated_event md' iv' InventoryUpdated_RESERVATION))"

lemma refused_after_read:
  assumes "faultless env" and "int64_less (inv_OnHand iv - inv_Reserved iv) (op_Quantity evt)"
    and "inv_rows v = inv_rows w" and "w_pub v = w_pub w"
  shows "result (orderPlaced_after_read env S evt iv) v = None \<and>
    reports_failure env evt iv w (exec (orderPlaced_after_read env S evt iv) v)"
  using after_read_rejects [OF assms(1,2), of S v] after_read_refused [OF assms(2), of env S v] assms(3,4)
  by (simp add: reports_failure_def)

lemma order_on_hit:
  assumes "faultless env" and "0 < sint (op_Quantity evt)"
    and "result (readCache env (op_WarehouseId evt) (op_Sku evt)) w = Inr hit"
  shows "result (handleOrderPlaced env (cached_store env) evt) w = None \<and>
    reports_failure env evt Inventory_zero w (exec (handleOrderPlaced env (cached_store env) evt) w)"
proof -
  let ?w1 = "exec (readCache env (op_WarehouseId evt) (op_Sku evt)) w"
  have less: "int64_less (inv_OnHand Inventory_zero - inv_Reserved Inventory_zero) (op_Quantity evt)"
    using assms(2) by (simp add: Inventory_zero_def)
  have "w_pub ?w1 = w_pub w"
    by (simp add: redis_calls)
  with refused_after_read [OF assms(1) less rows_redis_calls(1) this] show ?thesis
    by (simp add: handleOrderPlaced_def cached_hit [OF assms(3)])
qed

lemma order_on_missing:
  assumes "db_up env" and "inv_rows w (op_WarehouseId evt, op_Sku evt) = None"
    and "result (readCache env (op_WarehouseId evt) (op_Sku evt)) w = Inl e"
  shows "\<exists>err. result (handleOrderPlaced env (cached_store env) evt) w = Some err \<and> errors_Is err ErrNotFound \<and>
    inv_rows (exec (handleOrderPlaced env (cached_store env) evt) w) = inv_rows w \<and>
    w_pub (exec (handleOrderPlaced env (cached_store env) evt) w) = w_pub w"
  using assms
  by (simp add: handleOrderPlaced_def bus_GetInventory_def invcache_Store_def invcache_GetInventory_def
      invdb_Store_def split_beta get_result_cases get_exec db_upD rows_redis_calls)
    (simp add: redis_calls)

lemma order_on_stock:
  fixes env :: "('c, inv_event) env" and w :: "('c, 'x) inv_world_scheme"
  assumes "cache_redis env view" and "faultless env" and "rows_ok w"
    and "inv_rows w (op_WarehouseId evt, op_Sku evt) = Some iv"
    and "result (readCache env (op_WarehouseId evt) (op_Sku evt)) w = Inl e"
    and "0 \<le> sint (op_Quantity evt)"
  shows "result (handleOrderPlaced env (cached_store env) evt) w = None \<and>
    (if spec_available (stock_of iv) < sint (op_Quantity evt)
     then reports_failure env evt iv w (exec (handleOrderPlaced env (cached_store env) evt) w)
     else \<exists>iv'. stock_of iv' = spec_reserve (sint (op_Quantity evt)) (stock_of iv) \<and>
       reports_reservation env evt iv' w (exec (handleOrderPlaced env (cached_store env) evt) w))"
proof -
  let ?h = "handleOrderPlaced env (cached_store env) evt" and ?q = "sint (op_Quantity evt)"
  have "inv_ok iv"
    using assms(3,4) by (auto simp: rows_ok_def)
  then have avail: "sint (inv_OnHand iv - inv_Reserved iv) = spec_available (stock_of iv)"
    by (simp add: invdb_service.available_exact spec_available_def stock_of_def)
  show ?thesis
  proof (cases "spec_available (stock_of iv) < ?q")
    case True
    from cached_read_db [OF assms(5) faultless_db [OF assms(2)] assms(4)] obtain w1 where
      read: "run_state (bus_GetInventory (cached_store env) (op_WarehouseId evt) (op_Sku evt)) w =
        (Inr iv, exec (writeCache env iv) w1)" and w1: "inv_rows w1 = inv_rows w" "w_pub w1 = w_pub w"
      by blast
    have "inv_rows (exec (writeCache env iv) w1) = inv_rows w" "w_pub (exec (writeCache env iv) w1) = w_pub w"
      using w1 by (simp_all add: redis_calls)
    from refused_after_read [OF assms(2) _ this, of iv evt "cached_store env"] True avail show ?thesis
      by (simp add: handleOrderPlaced_def read)
  next
    case False
    then have "?q \<le> spec_available (stock_of iv)"
      by simp
    from cached_order_update [OF assms(1) faultless_up [OF assms(2)] assms(3-6) this] obtain w2 w3 upd where
      r: "run_state (bus_GetInventory (cached_store env) (op_WarehouseId evt) (op_Sku evt)) w = (Inr iv, w2)"
      and u: "run_state (bus_UpdateInventory (time_Now env) (cached_store env) iv
        (no_update\<lparr>upd_Reserved := Some (inv_Reserved iv + op_Quantity evt)\<rparr>)) w2 = (Inr upd, w3)"
      and w3: "inv_rows w3 = (inv_rows w)((op_WarehouseId evt, op_Sku evt) \<mapsto> inv_stored env upd)"
        "stock_of upd = spec_reserve ?q (stock_of iv)" "w_pub w3 = w_pub w"
      by blast
    have enough: "\<not> int64_less (inv_OnHand iv - inv_Reserved iv) (op_Quantity evt)"
      using False avail by simp
    have "run_state ?h w = run_state (orderPlaced_after_read env (cached_store env) evt iv) w2"
      by (simp add: handleOrderPlaced_def r)
    then have "result ?h w = None \<and> reports_reservation env evt upd w (exec ?h w)"
      using after_read_publishes [OF assms(2) enough u] after_read_world [OF enough u] w3(1,3)
      by (simp add: reports_reservation_def)
    with False w3(2) show ?thesis by auto
  qed
qed

text \<open>
  C2: the outcome of an order for a positive quantity in the running service when the
  database, the broker and Redis answer every call. When the cache answers the read, the
  order is refused: no row changes and one \<open>InventoryReservationFailed\<close> with nothing
  available is published. When it does not and there is no row, the handler reports
  \<open>ErrNotFound\<close>, and neither changes a row nor publishes. Otherwise it succeeds: an order
  of more than the available quantity changes no row and publishes one
  \<open>InventoryReservationFailed\<close> with the requested and the available quantity; any other
  reserves exactly its quantity in its row and publishes an \<open>InventoryReserved\<close> followed
  by an \<open>InventoryUpdated\<close>, both with the quantities of the new row.
\<close>

theorem orderPlaced_complete:
  fixes env :: "('c, inv_event) env" and w :: "('c, 'x) inv_world_scheme"
  assumes "faultless env" and "redis_up (e_redis env) view" and "rows_ok w" and "0 < sint (op_Quantity evt)"
  shows "let h = handleOrderPlaced env (cached_store env) evt; w' = exec h w; q = sint (op_Quantity evt) in
    case result (readCache env (op_WarehouseId evt) (op_Sku evt)) w of
      Inr _ \<Rightarrow> result h w = None \<and> reports_failure env evt Inventory_zero w w'
    | Inl _ \<Rightarrow>
        (case inv_rows w (op_WarehouseId evt, op_Sku evt) of
           None \<Rightarrow> (\<exists>err. result h w = Some err \<and> errors_Is err ErrNotFound) \<and>
             inv_rows w' = inv_rows w \<and> w_pub w' = w_pub w
         | Some iv \<Rightarrow> result h w = None \<and>
             (if spec_available (stock_of iv) < q then reports_failure env evt iv w w'
              else \<exists>iv'. stock_of iv' = spec_reserve q (stock_of iv) \<and> reports_reservation env evt iv' w w'))"
proof -
  have redis: "cache_redis env view"
    using assms(2) by (simp add: cache_redis_def)
  show ?thesis
    using order_on_hit [OF assms(1,4), of w] order_on_missing [OF faultless_up [OF assms(1)], of w evt]
      order_on_stock [OF redis assms(1,3), of evt] assms(4)
    by (fastforce simp: Let_def split: sum.split option.split)
qed

text \<open>One run of each branch: enough stock, too little, no row, and a row in the cache.\<close>

theorem orderPlaced_complete_witness:
  "result (handleOrderPlaced demo_env (cached_store demo_env) (demo_order 3)) demo_world = None \<and>
   result (handleOrderPlaced demo_env (cached_store demo_env) (demo_order 9)) demo_world = None \<and>
   (\<exists>err. result (handleOrderPlaced demo_env (cached_store demo_env) ((demo_order 3)\<lparr>op_Sku := ''S9''\<rparr>)) demo_world =
     Some err \<and> errors_Is err ErrNotFound) \<and>
   (let w = exec (writeCache demo_env (bus_of_row demo_row)) demo_world in
     inv_rows (exec (handleOrderPlaced demo_env (cached_store demo_env) (demo_order 3)) w) = inv_rows demo_world)"
proof -
  note complete = orderPlaced_complete [OF faultless_calm demo_redis_up, unfolded Let_def]
  let ?w = "exec (writeCache demo_env (bus_of_row demo_row)) demo_world"
  have redis: "cache_redis demo_env mem_view"
    using demo_redis_up by (simp add: cache_redis_def)
  obtain e where e: "result (readCache demo_env ''JHB'' ''S1'') demo_world = Inl e"
    using demo_miss(1) by blast
  obtain e' where e': "result (readCache demo_env ''JHB'' ''S9'') demo_world = Inl e'"
    using uncached_read [OF redis demo_open(3)] by blast
  obtain hit where hit: "result (readCache demo_env ''JHB'' ''S1'') ?w = Inr hit"
    using cache_redis.cached_reads [OF redis demo_cached] by blast
  have "rows_ok ?w"
    using demo_rows_ok by (simp add: writeCache_run)
  from complete [OF this, of "demo_order 3"] complete [OF demo_rows_ok, of "demo_order 3"]
    complete [OF demo_rows_ok, of "demo_order 9"] complete [OF demo_rows_ok, of "(demo_order 3)\<lparr>op_Sku := ''S9''\<rparr>"]
  show ?thesis
    by (simp add: demo_order_def e e' hit demo_rows reports_failure_def rows_redis_calls Let_def split: if_splits)
qed

subsection \<open>Redelivery while the broker is down\<close>

text \<open>An environment whose database works and whose every publish call fails.\<close>

definition publish_down :: "('c, 'm) env \<Rightarrow> goerr \<Rightarrow> bool" where
  "publish_down env err \<longleftrightarrow> db_up env \<and> (\<forall>n. e_publish env n = Some err) \<and>
     (\<forall>msg. \<exists>data. e_marshal env msg = Inr data)"

lemma publish_fails:
  assumes "publish_down env err"
  shows "result (Publish env subj evt) w = Some err"
proof -
  obtain data where "e_marshal env evt = Inr data"
    using assms unfolding publish_down_def by blast
  then show ?thesis
    using assms by (simp add: publish_down_def run_defs tick_def)
qed

text \<open>The handler changes the row, fails to publish, and leaves the row out of the cache.\<close>

lemma order_fails:
  fixes env :: "('c, inv_event) env" and w :: "('c, 'x) inv_world_scheme"
  assumes "cache_redis env view" and "publish_down env err" and "open_order view evt iv w"
    and "0 \<le> sint (op_Quantity evt)" and "sint (op_Quantity evt) \<le> spec_available (stock_of iv)"
  shows "\<exists>iv'. result (handleOrderPlaced env (cached_store env) evt) w = Some err \<and>
    open_order view evt iv' (exec (handleOrderPlaced env (cached_store env) evt) w) \<and>
    stock_of iv' = spec_reserve (sint (op_Quantity evt)) (stock_of iv) \<and>
    marked_in view (exec (handleOrderPlaced env (cached_store env) evt) w) = marked_in view w"
proof -
  let ?h = "handleOrderPlaced env (cached_store env) evt"
  have world: "rows_ok w" "inv_rows w (op_WarehouseId evt, op_Sku evt) = Some iv"
    "cache_entry view w (op_WarehouseId evt) (op_Sku evt) = None"
    using assms(3) by (simp_all add: open_order_def)
  have up: "db_up env"
    using assms(2) by (simp add: publish_down_def)
  obtain w2 w3 upd where
    r: "run_state (bus_GetInventory (cached_store env) (op_WarehouseId evt) (op_Sku evt)) w = (Inr iv, w2)"
    and u: "run_state (bus_UpdateInventory (time_Now env) (cached_store env) iv
      (no_update\<lparr>upd_Reserved := Some (inv_Reserved iv + op_Quantity evt)\<rparr>)) w2 = (Inr upd, w3)"
    and w3: "inv_rows w3 = (inv_rows w)((op_WarehouseId evt, op_Sku evt) \<mapsto> inv_stored env upd)"
      "stock_of upd = spec_reserve (sint (op_Quantity evt)) (stock_of iv)"
      "cache_entry view w3 (op_WarehouseId evt) (op_Sku evt) = None" "marked_in view w3 = marked_in view w"
    using cached_order_update [OF assms(1) up world(1,2) _ assms(4,5)] uncached_read [OF assms(1) world(3)] by blast
  have "inv_ok iv"
    using world(1,2) by (auto simp: rows_ok_def)
  then have enough: "\<not> int64_less (inv_OnHand iv - inv_Reserved iv) (op_Quantity evt)"
    using assms(5) invdb_service.available_exact by (simp add: spec_available_def stock_of_def)
  have run: "run_state ?h w = run_state (orderPlaced_after_read env (cached_store env) evt iv) w2"
    by (simp add: handleOrderPlaced_def r)
  have after: "inv_rows (exec ?h w) = inv_rows w3" "w_redis (exec ?h w) = w_redis w3"
    using after_read_world [OF enough u] by (simp_all add: run)
  have "result ?h w = Some err"
    using enough u by (simp add: run orderPlaced_after_read_def split_beta publish_fails [OF assms(2)])
  moreover have "rows_ok (exec ?h w)"
    using keepsD [OF invcache_service.handleOrderPlaced_keeps [unfolded all_ok_rows_ok]] world(1) by blast
  ultimately show ?thesis
    using after w3 marked_same [OF after(2), of view]
    by (intro exI [where x = "inv_stored env upd"]) (simp add: open_order_def cache_entry_def inv_stored_stock)
qed

text \<open>The consumer's handler: the order stays unmarked.\<close>

lemma delivery_fails:
  fixes env :: "('c, inv_event) env" and w :: "('c, 'x) inv_world_scheme"
  assumes "cache_redis env view" and "publish_down env err" and "open_order view evt iv w"
    and "\<not> marked_in view w (op_OrderId evt)"
    and "0 \<le> sint (op_Quantity evt)" and "sint (op_Quantity evt) \<le> spec_available (stock_of iv)"
  shows "\<exists>iv'. result (orderPlaced_handler env (cached_store env) evt) w = Returns (Some err) \<and>
    open_order view evt iv' (exec (orderPlaced_handler env (cached_store env) evt) w) \<and>
    stock_of iv' = spec_reserve (sint (op_Quantity evt)) (stock_of iv) \<and>
    \<not> marked_in view (exec (orderPlaced_handler env (cached_store env) evt) w) (op_OrderId evt) \<and>
    w_settled (exec (orderPlaced_handler env (cached_store env) evt) w) = w_settled w"
proof -
  let ?h = "handleOrderPlaced env (cached_store env) evt" and ?i = "op_OrderId evt"
  have settled: "w_settled (exec ?h v) = w_settled v" for v :: "('c, 'x) inv_world_scheme"
    using silent_collapse [OF silent_handlers(1), of env evt v] by simp
  show ?thesis
  proof (cases "?i = []")
    case True
    with order_fails [OF assms(1-3,5,6)] assms(4) settled show ?thesis
      by (auto simp: orderPlaced_handler_def WithIdempotency_def returning_def split_beta)
  next
    case False
    note seen = seen_unmarked [OF assms(1,3,4)]
    from order_fails [OF assms(1,2) seen(2) assms(5,6)] obtain iv' where
      h: "result ?h (exec (redis_Seen env ?i) w) = Some err" "open_order view evt iv' (exec ?h (exec (redis_Seen env ?i) w))"
        "stock_of iv' = spec_reserve (sint (op_Quantity evt)) (stock_of iv)"
        "\<not> marked_in view (exec ?h (exec (redis_Seen env ?i) w)) ?i"
      using seen(3) by auto
    have "run_state (orderPlaced_handler env (cached_store env) evt) w =
        (Returns (Some err), exec ?h (exec (redis_Seen env ?i) w))"
      using False seen(1) h(1)
      by (simp add: orderPlaced_handler_def WithIdempotency_def redis_idem_store_def returning_def Let_def split_beta)
    with h seen(4) settled show ?thesis by auto
  qed
qed

lemma open_settled: "open_order view evt iv (exec (settle v) w) = open_order view evt iv w"
  "marked_in view (exec (settle v) w) = marked_in view w"
  by (simp_all add: settle_def open_order_def rows_ok_frames marked_in_def fun_eq_iff)

lemma open_dlq: "open_order view evt iv (exec (PublishDLQ env msg reason) w) = open_order view evt iv w"
  "marked_in view (exec (PublishDLQ env msg reason) w) = marked_in view w"
  by (simp_all add: run_defs tick_def open_order_def rows_ok_frames marked_in_def cache_entry_def fun_eq_iff)

lemma delivery_data: "nm_Data (delivery msg n) = nm_Data msg"
  by (simp add: delivery_def)

lemma deliveries_reserve:
  fixes env :: "('c, inv_event) env" and w :: "('c, 'x) inv_world_scheme"
  assumes "cache_redis env view" and "publish_down env err" and "U (nm_Data msg) = Inr evt"
    and "0 \<le> sint (op_Quantity evt)" and "n \<le> 5"
    and "open_order view evt iv w" and "\<not> marked_in view w (op_OrderId evt)"
    and "int (6 - n) * sint (op_Quantity evt) \<le> spec_available (stock_of iv)"
  shows "\<exists>w' iv'. redeliver env U (orderPlaced_handler env (cached_store env)) msg n w = (5, w') \<and>
    open_order view evt iv' w' \<and>
    stock_of iv' = spec_reserve (int (6 - n) * sint (op_Quantity evt)) (stock_of iv) \<and>
    w_settled w' = w_settled w @ replicate (5 - n) Nak @ [Term]"
  using assms(5-8)
proof (induction "5 - n" arbitrary: n w iv)
  case 0
  let ?h = "orderPlaced_handler env (cached_store env)"
  from 0 have n: "n = 5" by simp
  from delivery_fails [OF assms(1,2) 0(3,4) assms(4)] 0(5) obtain iv' where
    h: "result (?h evt) w = Returns (Some err)" "open_order view evt iv' (exec (?h evt) w)"
      "stock_of iv' = spec_reserve (sint (op_Quantity evt)) (stock_of iv)" "w_settled (exec (?h evt) w) = w_settled w"
    by (auto simp: n)
  have "verdict_of U ?h (delivery msg 5) w = VDeadLetter (error_text err)"
    using h(1) assms(3) by (simp add: verdict_of_def delivery_def)
  then have "redeliver env U ?h msg 5 w =
      (5, exec (settle Term) (exec (PublishDLQ env (delivery msg 5) (error_text err)) (exec (?h evt) w)))"
    using assms(3) by (simp add: redeliver.simps [of env U ?h msg 5 w] Let_def consume_msg_run handled_def delivery_data)
  then show ?case
    using h by (auto simp: n open_settled open_dlq settled_after)
next
  case (Suc m)
  let ?h = "orderPlaced_handler env (cached_store env)" and ?q = "sint (op_Quantity evt)"
  from Suc(2) have n: "n < 5" "5 - n = Suc (5 - Suc n)" "int (6 - n) = 1 + int (6 - Suc n)" by simp_all
  have "?q + int (6 - Suc n) * ?q \<le> spec_available (stock_of iv)"
    using Suc.prems(4) unfolding n(3) distrib_right by simp
  moreover have "0 \<le> int (6 - Suc n) * ?q"
    by (intro mult_nonneg_nonneg assms(4)) simp
  ultimately have most: "?q \<le> spec_available (stock_of iv)" and
    rest: "int (6 - Suc n) * ?q \<le> spec_available (stock_of iv) - ?q"
    by linarith+
  from delivery_fails [OF assms(1,2) Suc.prems(2,3) assms(4) most] obtain a where
    h: "result (?h evt) w = Returns (Some err)" "open_order view evt a (exec (?h evt) w)"
      "stock_of a = spec_reserve ?q (stock_of iv)" "\<not> marked_in view (exec (?h evt) w) (op_OrderId evt)"
      "w_settled (exec (?h evt) w) = w_settled w"
    by blast
  have nak: "verdict_of U ?h (delivery msg n) w = VNak"
    using h(1) assms(3) n(1) by (simp add: verdict_of_def delivery_def)
  let ?w1 = "exec (settle Nak) (exec (?h evt) w)"
  have run: "redeliver env U ?h msg n w = redeliver env U ?h msg (Suc n) ?w1"
    using nak assms(3) by (simp add: redeliver.simps [of env U ?h msg n w] Let_def consume_msg_run handled_def
        delivery_data)
  have "int (6 - Suc n) * ?q \<le> spec_available (stock_of a)"
    using rest by (simp add: h(3) spec_available_def spec_reserve_def)
  with Suc.hyps(1) [of "Suc n" a ?w1] Suc.hyps(2) n h obtain w' b where
    "redeliver env U ?h msg (Suc n) ?w1 = (5, w')" "open_order view evt b w'"
    "stock_of b = spec_reserve (int (6 - Suc n) * ?q) (stock_of a)"
    "w_settled w' = w_settled ?w1 @ replicate (5 - Suc n) Nak @ [Term]"
    by (auto simp: open_settled)
  then show ?case
    using h(3,5) unfolding n(2,3) distrib_right by (auto simp: run settled_after spec_reserve_def add.assoc)
qed

text \<open>
  C18: the row is changed before the events are published and nothing undoes it. When the
  database and Redis answer and every publish call fails, an order without a mark, of a
  quantity that is not negative, whose row is not in the cache and has at least five times
  the quantity available, and whose deliveries nothing else comes between, is delivered five
  times, answered with \<open>Nak\<close> four times and then terminated, and each delivery reserves the
  quantity again: the row ends with five reservations for one order.
\<close>

theorem failed_publish_reserves_each_delivery:
  fixes env :: "('c, inv_event) env" and w :: "('c, 'x) inv_world_scheme"
  assumes "redis_up (e_redis env) view" and "publish_down env err" and "rows_ok w"
    and "dec_OrderPlaced dcs (nm_Data msg) = Inr evt"
    and "inv_rows w (op_WarehouseId evt, op_Sku evt) = Some iv"
    and "cache_entry view w (op_WarehouseId evt) (op_Sku evt) = None" and "\<not> marked_in view w (op_OrderId evt)"
    and "0 \<le> sint (op_Quantity evt)" and "5 * sint (op_Quantity evt) \<le> spec_available (stock_of iv)"
  shows "\<exists>w' iv'. redeliver env (dec_OrderPlaced dcs) (orderPlaced_handler env (cached_store env)) msg 1 w = (5, w') \<and>
    inv_rows w' (op_WarehouseId evt, op_Sku evt) = Some iv' \<and>
    stock_of iv' = spec_reserve (5 * sint (op_Quantity evt)) (stock_of iv) \<and>
    w_settled w' = w_settled w @ [Nak, Nak, Nak, Nak, Term]"
proof -
  have "cache_redis env view"
    using assms(1) by (simp add: cache_redis_def)
  moreover have "open_order view evt iv w"
    using assms(3,5,6) by (simp add: open_order_def)
  ultimately show ?thesis
    using deliveries_reserve [of env view err "dec_OrderPlaced dcs" msg evt 1 iv w] assms(2,4,7-9)
    by (auto simp: open_order_def eval_nat_numeral)
qed

definition down_env :: "(mem_redis, inv_event) env" where
  "down_env = demo_env\<lparr>e_publish := \<lambda>n. Some (ErrMsg ''nats: no response from stream'')\<rparr>"

definition one_order :: decoders where
  "one_order = demo_decoders\<lparr>dec_OrderPlaced := \<lambda>_. Inr (demo_order 1)\<rparr>"

theorem failed_publish_reserves_each_delivery_witness:
  "\<exists>iv'. inv_rows (snd (redeliver down_env (dec_OrderPlaced one_order) (orderPlaced_handler down_env (cached_store down_env))
      demo_msg 1 demo_world)) (''JHB'', ''S1'') = Some iv' \<and> reserved (stock_of iv') = 7"
proof -
  have "publish_down down_env (ErrMsg ''nats: no response from stream'')" "redis_up (e_redis down_env) mem_view"
    by (simp_all add: publish_down_def down_env_def db_up_def mem.redis_up_axioms)
  from failed_publish_reserves_each_delivery [OF this(2,1) demo_rows_ok, of one_order demo_msg "demo_order 1" "bus_of_row demo_row"]
  show ?thesis
    using demo_open by (auto simp: one_order_def demo_order_def spec_available_def spec_reserve_def stock_of_def
        bus_of_row_def demo_row_def)
qed

end
