(* ===== verification/Inv_Orders.thy ===== *)
theory Inv_Orders
  imports Inv_Races
begin

section \<open>Orders, one after the other\<close>

text \<open>
  The whole path of an order in the running service (callback, idempotency store, handler,
  cached store, database, settlement) refines a small abstract machine over the stock of
  one row, the set of handled orders and one bit: whether the row is in the cache. The
  machine says exactly what a sequence of orders, redeliveries included, does when nothing
  fails and no two callbacks overlap.
\<close>

subsection \<open>The abstract machine\<close>

record order_machine =
  om_stock :: stock
  om_done :: "string set"
  om_cached :: bool

text \<open>
  An order for a row in the cache is refused; one beyond the available quantity is refused
  and puts the row into the cache; any other is reserved.
\<close>

definition decide_order :: "int \<Rightarrow> order_machine \<Rightarrow> order_machine" where
  "decide_order q st =
     (if om_cached st then st
      else if spec_available (om_stock st) < q then st\<lparr>om_cached := True\<rparr>
      else st\<lparr>om_stock := spec_reserve q (om_stock st)\<rparr>)"

definition accept_order :: "OrderPlaced \<Rightarrow> order_machine \<Rightarrow> order_machine" where
  "accept_order evt st =
     (let i = op_OrderId evt; st' = decide_order (sint (op_Quantity evt)) st in
      if i = [] then st'
      else if i \<in> om_done st then st
      else st'\<lparr>om_done := insert i (om_done st)\<rparr>)"

lemma decide_order_done [simp]: "om_done (decide_order q st) = om_done st"
  by (simp add: decide_order_def)

text \<open>How a world stands for a state of the machine.\<close>

definition machine_of ::
  "('c \<Rightarrow> string \<Rightarrow> redis_val option) \<Rightarrow> string \<Rightarrow> string \<Rightarrow> ('c, 'x) inv_world_scheme \<Rightarrow>
   order_machine \<Rightarrow> bool" where
  "machine_of view l s w st \<longleftrightarrow> rows_ok w \<and>
     (\<exists>iv. inv_rows w (l, s) = Some iv \<and> stock_of iv = om_stock st \<and>
       int64_in (inv_UpdatedAt iv div 1000000000)) \<and>
     (\<forall>i. marked_in view w i \<longleftrightarrow> i \<in> om_done st) \<and>
     (if om_cached st then cached_row view w l s else cache_entry view w l s = None)"

definition clock_fits :: "('c, 'm) env \<Rightarrow> bool" where
  "clock_fits env \<longleftrightarrow> (\<forall>n. int64_in (e_pgtime env (e_now env n) div 1000000000))"

subsection \<open>The handler\<close>

lemma bus_update_time:
  "result (bus_UpdateInventory (time_Now env) S iv u) w = Inr iv' \<Longrightarrow> inv_UpdatedAt iv' = e_now env (w_tick w)"
  by (auto simp: bus_UpdateInventory_def time_Now_def tick_def Let_def split_beta split: option.splits)

lemma machine_cong:
  assumes "machine_of view l s w st" and "inv_rows w' = inv_rows w"
    and "cache_entry view w' l s = cache_entry view w l s" and "\<And>i. marked_in view w' i \<longleftrightarrow> i \<in> D"
  shows "machine_of view l s w' (st\<lparr>om_done := D\<rparr>)"
  using assms rows_ok_same [OF assms(2)] cached_row_same [OF assms(3)] by (simp add: machine_of_def)

lemma machine_same:
  assumes "machine_of view l s w st" and "inv_rows w' = inv_rows w"
    and "cache_entry view w' l s = cache_entry view w l s" and "marked_in view w' = marked_in view w"
  shows "machine_of view l s w' st"
proof -
  have "machine_of view l s w' (st\<lparr>om_done := om_done st\<rparr>)"
    using assms by (intro machine_cong [OF assms(1-3)]) (simp add: machine_of_def)
  then show ?thesis by simp
qed

context cache_redis
begin

lemma machine_seen: "machine_of view l s w st \<Longrightarrow> machine_of view l s (exec (redis_Seen env i) w) st"
  by (erule machine_same) (simp_all add: rows_redis_calls entry_calls mark_calls)

lemma marks_mark: "marked_in view (exec (redis_Mark env i t) w) j \<longleftrightarrow> j = i \<or> marked_in view w j"
  using set_ok [OF set_up, of "''evt:'' @ i"] set_frame [of "''evt:'' @ j" "''evt:'' @ i"]
  by (cases "j = i") (simp_all add: redis_calls marked_in_def)

lemma machine_mark:
  assumes "machine_of view l s w st"
  shows "machine_of view l s (exec (redis_Mark env i t) w) (st\<lparr>om_done := insert i (om_done st)\<rparr>)"
  using assms by (intro machine_cong [OF assms]) (auto simp: rows_redis_calls entry_calls marks_mark machine_of_def)

end

text \<open>The handler on a row that is in the cache, and on one that is not.\<close>

lemma order_hit:
  fixes env :: "('c, inv_event) env" and w :: "('c, 'x) inv_world_scheme"
  assumes "cache_redis env view" and "faultless env" and "cached_row view w (op_WarehouseId evt) (op_Sku evt)"
    and "0 < sint (op_Quantity evt)"
  shows "let h = handleOrderPlaced env (cached_store env) evt in
    result h w = None \<and> inv_rows (exec h w) = inv_rows w \<and>
    cache_entry view (exec h w) = cache_entry view w \<and> marked_in view (exec h w) = marked_in view w"
proof -
  let ?l = "op_WarehouseId evt" and ?s = "op_Sku evt"
  let ?h = "handleOrderPlaced env (cached_store env) evt" and ?w1 = "exec (readCache env ?l ?s) w"
  let ?after = "orderPlaced_after_read env (cached_store env) evt Inventory_zero"
  obtain hit where "result (readCache env ?l ?s) w = Inr hit"
    using cache_redis.cached_reads [OF assms(1,3)] ..
  then have run: "run_state ?h w = run_state ?after ?w1"
    by (simp add: handleOrderPlaced_def bus_GetInventory_def invcache_Store_def invcache_GetInventory_def split_beta)
  have less: "int64_less (inv_OnHand Inventory_zero - inv_Reserved Inventory_zero) (op_Quantity evt)"
    using assms(4) by (simp add: Inventory_zero_def)
  note r = after_read_refused [OF less, of env "cached_store env" ?w1]
  have "cache_entry view (exec ?after ?w1) = cache_entry view ?w1"
    using r by (simp add: cache_entry_def fun_eq_iff)
  then show ?thesis
    using r after_read_rejects [OF assms(2) less, of "cached_store env" ?w1] marked_same [of "exec ?after ?w1" ?w1]
    by (simp add: Let_def run rows_redis_calls cache_redis.entry_calls [OF assms(1)] cache_redis.mark_calls [OF assms(1)])
qed

lemma order_refused:
  fixes env :: "('c, inv_event) env" and w :: "('c, 'x) inv_world_scheme"
  assumes "cache_redis env view" and "faultless env" and "rows_ok w"
    and "inv_rows w (op_WarehouseId evt, op_Sku evt) = Some iv"
    and "cache_entry view w (op_WarehouseId evt) (op_Sku evt) = None"
    and "int64_in (inv_UpdatedAt iv div 1000000000)" and "spec_available (stock_of iv) < sint (op_Quantity evt)"
  shows "let h = handleOrderPlaced env (cached_store env) evt in
    result h w = None \<and> inv_rows (exec h w) = inv_rows w \<and>
    cached_row view (exec h w) (op_WarehouseId evt) (op_Sku evt) \<and> marked_in view (exec h w) = marked_in view w"
proof -
  let ?l = "op_WarehouseId evt" and ?s = "op_Sku evt"
  let ?h = "handleOrderPlaced env (cached_store env) evt"
  let ?after = "orderPlaced_after_read env (cached_store env) evt iv"
  have iv: "inv_ok iv" "inv_LocationID iv = ?l" "inv_SKU iv = ?s"
    using assms(3,4) by (auto simp: rows_ok_def inv_key_def)
  obtain w1 where w1: "run_state (bus_GetInventory (cached_store env) ?l ?s) w = (Inr iv, exec (writeCache env iv) w1)"
    "inv_rows w1 = inv_rows w" "w_redis w1 = w_redis (exec (readCache env ?l ?s) w)"
    using cached_read_db [OF _ faultless_db [OF assms(2)] assms(4)] uncached_read [OF assms(1,5)] by blast
  let ?w2 = "exec (writeCache env iv) w1"
  have run: "run_state ?h w = run_state ?after ?w2"
    by (simp add: handleOrderPlaced_def w1(1))
  have less: "int64_less (inv_OnHand iv - inv_Reserved iv) (op_Quantity evt)"
    using assms(7) invdb_service.available_exact [OF iv(1)] by (simp add: spec_available_def stock_of_def)
  note r = after_read_refused [OF less, of env "cached_store env" ?w2]
  have "cache_entry view w1 ?l ?s = None"
    using w1(3) cache_redis.entry_calls(1) [OF assms(1), of ?l ?s w] assms(5) by (simp add: cache_entry_def fun_eq_iff)
  then have "cached_row view ?w2 ?l ?s"
    using cache_redis.write_caches [OF assms(1) _ assms(6), of w1] by (simp add: iv)
  moreover have "marked_in view ?w2 = marked_in view w"
    by (simp only: cache_redis.mark_calls [OF assms(1)] marked_same [OF w1(3)])
  ultimately show ?thesis
    using r after_read_rejects [OF assms(2) less, of "cached_store env" ?w2] marked_same [of "exec ?after ?w2" ?w2]
    by (simp add: Let_def run rows_redis_calls w1(2) cached_row_def cache_entry_def)
qed

lemma order_reserved:
  fixes env :: "('c, inv_event) env" and w :: "('c, 'x) inv_world_scheme"
  assumes "cache_redis env view" and "faultless env" and "clock_fits env" and "rows_ok w"
    and "inv_rows w (op_WarehouseId evt, op_Sku evt) = Some iv"
    and "cache_entry view w (op_WarehouseId evt) (op_Sku evt) = None"
    and "0 \<le> sint (op_Quantity evt)" and "sint (op_Quantity evt) \<le> spec_available (stock_of iv)"
  shows "let h = handleOrderPlaced env (cached_store env) evt in
    result h w = None \<and>
    (\<exists>iv'. inv_rows (exec h w) = (inv_rows w)((op_WarehouseId evt, op_Sku evt) \<mapsto> iv') \<and>
      stock_of iv' = spec_reserve (sint (op_Quantity evt)) (stock_of iv) \<and>
      int64_in (inv_UpdatedAt iv' div 1000000000)) \<and>
    cache_entry view (exec h w) (op_WarehouseId evt) (op_Sku evt) = None \<and> marked_in view (exec h w) = marked_in view w"
proof -
  obtain w2 w3 upd where r: "run_state (bus_GetInventory (cached_store env) (op_WarehouseId evt) (op_Sku evt)) w = (Inr iv, w2)"
    and u: "run_state (bus_UpdateInventory (time_Now env) (cached_store env) iv
      (no_update\<lparr>upd_Reserved := Some (inv_Reserved iv + op_Quantity evt)\<rparr>)) w2 = (Inr upd, w3)"
    and w3: "inv_rows w3 = (inv_rows w)((op_WarehouseId evt, op_Sku evt) \<mapsto> inv_stored env upd)"
      "stock_of upd = spec_reserve (sint (op_Quantity evt)) (stock_of iv)"
      "cache_entry view w3 (op_WarehouseId evt) (op_Sku evt) = None" "marked_in view w3 = marked_in view w"
    using cached_order_update [OF assms(1) faultless_up [OF assms(2)] assms(4,5) _ assms(7,8)]
      uncached_read [OF assms(1,6)] by blast
  let ?h = "handleOrderPlaced env (cached_store env) evt"
  have "inv_ok iv"
    using assms(4,5) by (auto simp: rows_ok_def)
  then have enough: "\<not> int64_less (inv_OnHand iv - inv_Reserved iv) (op_Quantity evt)"
    using assms(8) invdb_service.available_exact by (simp add: spec_available_def stock_of_def)
  have run: "run_state ?h w = run_state (orderPlaced_after_read env (cached_store env) evt iv) w2"
    by (simp add: handleOrderPlaced_def r)
  have after: "inv_rows (exec ?h w) = inv_rows w3" "w_redis (exec ?h w) = w_redis w3" "result ?h w = None"
    using after_read_world [OF enough u] after_read_publishes [OF assms(2) enough u] by (simp_all add: run)
  have "inv_UpdatedAt upd = e_now env (w_tick w2)"
    using bus_update_time [of env "cached_store env" iv
        "no_update\<lparr>upd_Reserved := Some (inv_Reserved iv + op_Quantity evt)\<rparr>" w2 upd] u by simp
  then have "int64_in (inv_UpdatedAt (inv_stored env upd) div 1000000000)"
    using assms(3) by (simp add: inv_stored_def clock_fits_def)
  then show ?thesis
    unfolding Let_def using after w3 marked_same [OF after(2), of view]
    by (intro conjI exI [where x = "inv_stored env upd"]) (simp_all add: inv_stored_stock cache_entry_def)
qed

lemma order_handled:
  fixes env :: "('c, inv_event) env" and w :: "('c, 'x) inv_world_scheme"
  assumes "cache_redis env view" and "faultless env" and "clock_fits env"
    and "machine_of view (op_WarehouseId evt) (op_Sku evt) w st" and "0 < sint (op_Quantity evt)"
  shows "result (handleOrderPlaced env (cached_store env) evt) w = None \<and>
    machine_of view (op_WarehouseId evt) (op_Sku evt) (exec (handleOrderPlaced env (cached_store env) evt) w)
      (decide_order (sint (op_Quantity evt)) st)"
proof -
  let ?l = "op_WarehouseId evt" and ?s = "op_Sku evt" and ?q = "sint (op_Quantity evt)"
  let ?h = "handleOrderPlaced env (cached_store env) evt"
  obtain iv where row: "inv_rows w (?l, ?s) = Some iv" "stock_of iv = om_stock st"
    "int64_in (inv_UpdatedAt iv div 1000000000)" and ok: "rows_ok w"
    using assms(4) by (auto simp: machine_of_def)
  have ok': "rows_ok (exec ?h w)"
    using keepsD [OF invcache_service.handleOrderPlaced_keeps [unfolded all_ok_rows_ok]] ok by blast
  consider (hit) "om_cached st" | (refused) "\<not> om_cached st" "spec_available (stock_of iv) < ?q"
    | (reserved) "\<not> om_cached st" "?q \<le> spec_available (stock_of iv)"
    by linarith
  then show ?thesis
  proof cases
    case hit
    then have "cached_row view w ?l ?s"
      using assms(4) by (simp add: machine_of_def)
    note h = order_hit [OF assms(1,2) this assms(5), unfolded Let_def]
    have "machine_of view ?l ?s (exec ?h w) st"
      using h by (intro machine_same [OF assms(4)]) simp_all
    then show ?thesis
      using hit h by (simp add: decide_order_def)
  next
    case refused
    then have "cache_entry view w ?l ?s = None"
      using assms(4) by (simp add: machine_of_def)
    from order_refused [OF assms(1,2) ok row(1) this row(3) refused(2)] show ?thesis
      using refused row ok' assms(4) by (simp add: Let_def decide_order_def machine_of_def)
  next
    case reserved
    then have "cache_entry view w ?l ?s = None"
      using assms(4) by (simp add: machine_of_def)
    from order_reserved [OF assms(1-3) ok row(1) this _ reserved(2)] assms(5) show ?thesis
      using reserved row(2) ok' assms(4) by (auto simp: Let_def decide_order_def machine_of_def)
  qed
qed

subsection \<open>The callback\<close>

lemma machine_settle:
  "machine_of view l s (exec (settle v) w) st \<longleftrightarrow> machine_of view l s w st"
  by (simp add: settle_def machine_of_def cached_row_def marked_in_def rows_ok_frames)

lemma seen_tells:
  assumes "cache_redis env view" and "machine_of view l s w st"
  shows "fst (result (redis_Seen env i) w) \<longleftrightarrow> i \<in> om_done st"
proof -
  have up: "redis_up (e_redis env) view"
    using assms(1) by (simp add: cache_redis_def)
  then have laws: "redis_laws (e_redis env) view"
    by (simp add: redis_up_def)
  have "fst (result (redis_Seen env i) w) = marked_in view w i"
    using redis_laws.exists_ok [OF laws, of "''evt:'' @ i" "w_redis w"] redis_up.exists_up [OF up]
    by (auto simp: redis_Seen_def on_redis_def split_beta marked_in_def prod_eq_iff)
  then show ?thesis
    using assms(2) by (simp add: machine_of_def)
qed

lemma order_delivered:
  fixes env :: "('c, inv_event) env" and w :: "('c, 'x) inv_world_scheme"
  assumes "cache_redis env view" and "faultless env" and "clock_fits env"
    and "dec_OrderPlaced dcs (nm_Data msg) = Inr evt" and "0 < sint (op_Quantity evt)"
    and "machine_of view (op_WarehouseId evt) (op_Sku evt) w st"
  shows "machine_of view (op_WarehouseId evt) (op_Sku evt)
      (exec (callback env (cached_store env) dcs COrderPlaced msg) w) (accept_order evt st) \<and>
    w_settled (exec (callback env (cached_store env) dcs COrderPlaced msg) w) = w_settled w @ [Ack]"
proof -
  let ?l = "op_WarehouseId evt" and ?s = "op_Sku evt" and ?i = "op_OrderId evt"
  let ?h = "handleOrderPlaced env (cached_store env) evt"
  let ?c = "callback env (cached_store env) dcs COrderPlaced msg"
  let ?seen = "redis_Seen env ?i" and ?mark = "redis_Mark env ?i one_day"
  have up: "redis_up (e_redis env) view"
    using assms(1) by (simp add: cache_redis_def)
  have settled: "w_settled (exec ?h v) = w_settled v" for v :: "('c, 'x) inv_world_scheme"
    using silent_collapse [OF silent_handlers(1), of env evt v] by simp
  note marked = seen_tells [OF assms(1,6), of ?i]
  note seen = cache_redis.machine_seen [OF assms(1,6), of ?i]
  consider (anonymous) "?i = []" | (again) "?i \<noteq> []" "?i \<in> om_done st" | (first) "?i \<noteq> []" "?i \<notin> om_done st"
    by blast
  then show ?thesis
  proof cases
    case anonymous
    have "exec ?c w = exec (settle Ack) (exec ?h w)"
      using order_handled [OF assms(1-3,6,5)] anonymous assms(4)
      by (simp add: callback_def consume_msg_def orderPlaced_handler_def WithIdempotency_def returning_def split_beta)
    then show ?thesis
      using order_handled [OF assms(1-3,6,5)] anonymous by (simp add: machine_settle accept_order_def) (simp add: settle_def settled)
  next
    case again
    have "exec ?c w = exec (settle Ack) (exec ?seen w)"
      using again marked assms(4)
      by (simp add: callback_def consume_msg_def orderPlaced_handler_def WithIdempotency_def redis_idem_store_def
          split_beta Let_def)
    then show ?thesis
      using again seen by (simp add: machine_settle accept_order_def) (simp add: settle_def redis_calls)
  next
    case first
    note h = order_handled [OF assms(1-3) seen assms(5)]
    have mark: "result ?mark v = None" for v :: "('c, 'x) inv_world_scheme"
      by (rule mark_up [OF up])
    have "exec ?c w = exec (settle Ack) (exec ?mark (exec ?h (exec ?seen w)))"
      using first marked assms(4) h
      by (simp add: callback_def consume_msg_def orderPlaced_handler_def WithIdempotency_def redis_idem_store_def
          returning_def split_beta Let_def mark)
    moreover have "machine_of view ?l ?s (exec ?mark (exec ?h (exec ?seen w))) (accept_order evt st)"
      using cache_redis.machine_mark [OF assms(1) h [THEN conjunct2], of ?i one_day] first
      by (simp add: accept_order_def Let_def)
    ultimately show ?thesis
      by (simp add: machine_settle) (simp add: settle_def redis_calls settled)
  qed
qed

subsection \<open>Sequences of orders\<close>

text \<open>Messages handled one after the other, and what the machine makes of them.\<close>

definition handle_orders ::
  "('c, inv_event) env \<Rightarrow> decoders \<Rightarrow> nats_msg list \<Rightarrow> ('c, 'x) inv_world_scheme \<Rightarrow> ('c, 'x) inv_world_scheme" where
  "handle_orders env dcs msgs w = fold (\<lambda>msg. exec (callback env (cached_store env) dcs COrderPlaced msg)) msgs w"

definition accept_orders :: "decoders \<Rightarrow> nats_msg list \<Rightarrow> order_machine \<Rightarrow> order_machine" where
  "accept_orders dcs msgs st = fold (\<lambda>msg st. case dec_OrderPlaced dcs (nm_Data msg) of
       Inl _ \<Rightarrow> st | Inr evt \<Rightarrow> accept_order evt st) msgs st"

definition order_for :: "decoders \<Rightarrow> string \<Rightarrow> string \<Rightarrow> nats_msg \<Rightarrow> bool" where
  "order_for dcs l s msg \<longleftrightarrow> (case dec_OrderPlaced dcs (nm_Data msg) of Inl _ \<Rightarrow> False
     | Inr evt \<Rightarrow> op_WarehouseId evt = l \<and> op_Sku evt = s \<and> 0 < sint (op_Quantity evt))"

lemma orders_delivered:
  fixes env :: "('c, inv_event) env" and w :: "('c, 'x) inv_world_scheme"
  assumes "cache_redis env view" and "faultless env" and "clock_fits env"
    and "list_all (order_for dcs l s) msgs" and "machine_of view l s w st"
  shows "machine_of view l s (handle_orders env dcs msgs w) (accept_orders dcs msgs st) \<and>
    w_settled (handle_orders env dcs msgs w) = w_settled w @ replicate (length msgs) Ack"
  using assms(4,5)
proof (induction msgs arbitrary: w st)
  case Nil
  then show ?case by (simp add: handle_orders_def accept_orders_def)
next
  case (Cons msg msgs)
  then have "order_for dcs l s msg" and rest: "list_all (order_for dcs l s) msgs"
    by simp_all
  then obtain evt where evt: "dec_OrderPlaced dcs (nm_Data msg) = Inr evt" "op_WarehouseId evt = l" "op_Sku evt = s"
    "0 < sint (op_Quantity evt)"
    by (auto simp: order_for_def split: sum.splits)
  let ?w = "exec (callback env (cached_store env) dcs COrderPlaced msg) w"
  have "machine_of view l s ?w (accept_order evt st)" "w_settled ?w = w_settled w @ [Ack]"
    using order_delivered [OF assms(1-3) evt(1,4), of w st] Cons.prems(2) by (simp_all add: evt)
  moreover have "handle_orders env dcs (msg # msgs) w = handle_orders env dcs msgs ?w"
    "accept_orders dcs (msg # msgs) st = accept_orders dcs msgs (accept_order evt st)"
    by (simp_all add: handle_orders_def accept_orders_def evt(1))
  ultimately show ?case
    using Cons.IH [OF rest, of ?w "accept_order evt st"] by simp
qed

text \<open>An order that is delivered again changes nothing.\<close>

lemma accept_order_again: "op_OrderId evt \<noteq> [] \<Longrightarrow> accept_order evt (accept_order evt st) = accept_order evt st"
  by (simp add: accept_order_def Let_def)

subsection \<open>Properties\<close>

text \<open>
  C7: when nothing fails and no two callbacks overlap, any sequence of orders for a row,
  redeliveries included, takes the running service exactly where the abstract machine goes:
  the stock of the row, the set of marked orders and the presence of the row in the cache
  are those of the machine, and every message is acknowledged. So every order
  with an id counts at most once and exactly with its quantity, until the first order that is refused puts the
  row into the cache: from then on every order is refused.
\<close>

theorem orders_refine_machine:
  fixes env :: "('c, inv_event) env" and w :: "('c, 'x) inv_world_scheme"
  assumes "redis_up (e_redis env) view" and "faultless env" and "clock_fits env"
    and "list_all (order_for dcs l s) msgs" and "machine_of view l s w st"
  shows "machine_of view l s (handle_orders env dcs msgs w) (accept_orders dcs msgs st) \<and>
    w_settled (handle_orders env dcs msgs w) = w_settled w @ replicate (length msgs) Ack"
  using assms(1) by (intro orders_delivered [OF _ assms(2-5)]) (simp add: cache_redis_def)

definition demo_machine :: order_machine where
  "demo_machine = \<lparr>om_stock = \<lparr>on_hand = 10, reserved = 2, incoming = 5\<rparr>, om_done = {}, om_cached = False\<rparr>"

lemma demo_machine_of: "machine_of mem_view ''JHB'' ''S1'' demo_world demo_machine"
  using demo_open by (simp add: machine_of_def demo_machine_def stock_of_def bus_of_row_def demo_row_def int64_in_def)

text \<open>An environment whose clock stands still.\<close>

definition still_env :: "(mem_redis, inv_event) env" where
  "still_env = demo_env\<lparr>e_now := \<lambda>_. 0\<rparr>"

theorem orders_refine_machine_witness:
  "\<exists>iv. inv_rows (handle_orders still_env demo_decoders [demo_msg, demo_msg] demo_world) (''JHB'', ''S1'') = Some iv \<and>
    reserved (stock_of iv) = 5"
proof -
  have "redis_up (e_redis still_env) mem_view" "faultless still_env" "clock_fits still_env"
    by (simp_all add: still_env_def mem.redis_up_axioms faultless_def clock_fits_def int64_in_def)
  moreover have "list_all (order_for demo_decoders ''JHB'' ''S1'') [demo_msg, demo_msg]"
    by (simp add: order_for_def demo_decoders_def demo_order_def)
  ultimately have "machine_of mem_view ''JHB'' ''S1'' (handle_orders still_env demo_decoders [demo_msg, demo_msg] demo_world)
      (accept_orders demo_decoders [demo_msg, demo_msg] demo_machine)"
    using orders_refine_machine [OF _ _ _ _ demo_machine_of] by blast
  then obtain iv where iv:
    "inv_rows (handle_orders still_env demo_decoders [demo_msg, demo_msg] demo_world) (''JHB'', ''S1'') = Some iv"
    "stock_of iv = om_stock (accept_orders demo_decoders [demo_msg, demo_msg] demo_machine)"
    unfolding machine_of_def by blast
  have "reserved (om_stock (accept_orders demo_decoders [demo_msg, demo_msg] demo_machine)) = 5"
    by (simp add: accept_orders_def accept_order_def decide_order_def demo_decoders_def demo_order_def
        demo_machine_def spec_available_def spec_reserve_def Let_def)
  with iv show ?thesis by simp
qed

end
