(* ===== verification/Inv_Lost.thy ===== *)
theory Inv_Lost
  imports Inv_Races
begin

section \<open>Lost reservations\<close>

text \<open>
  Two different orders for one row whose callbacks overlap. The handlers read the row and
  write it back in separate calls, and nothing compares what is written with what was read,
  so the later write removes the reservation of the earlier one.
\<close>

subsection \<open>An order that holds the row it read\<close>

definition holding_order_p ::
  "('c, inv_event) env \<Rightarrow> OrderPlaced \<Rightarrow> Inventory \<Rightarrow> nats_msg \<Rightarrow> (('c, 'x) inv_world_scheme, unit) prog" where
  "holding_order_p env evt iv msg = bindp (atom (writeCache env iv)) (\<lambda>_.
     unseen_p env (op_OrderId evt) (orderPlaced_rest_p env evt iv) msg)"

lemma order_holds_row:
  fixes env :: "('c, inv_event) env" and w :: "('c, 'x) inv_world_scheme"
  assumes "cache_redis env view" and "faultless env" and "i < length ts"
    and "inv_rows w (op_WarehouseId evt, op_Sku evt) = Some iv"
    and "cache_entry view w (op_WarehouseId evt) (op_Sku evt) = None"
  shows "\<exists>w'. (pool_step env dcs D R)\<^sup>*\<^sup>*
      (w, ts[i := Running (unseen_order_p env evt msg)]) (w', ts[i := Running (holding_order_p env evt iv msg)]) \<and>
    inv_rows w' = inv_rows w \<and> w_pub w' = w_pub w \<and> w_settled w' = w_settled w \<and>
    marked_in view w' = marked_in view w \<and> cache_entry view w' = cache_entry view w"
proof -
  define f :: "goerr + Inventory \<Rightarrow> (('c, 'x) inv_world_scheme, unit) prog" where
    "f = (\<lambda>r. unseen_p env (op_OrderId evt) (bindp (case r of
        Inl err \<Rightarrow> Ret (Inl (ErrWrap (''query inventory: locationID['' @ op_WarehouseId evt @ ''], SKU['' @
          op_Sku evt @ '']: '') err))
      | Inr iv \<Rightarrow> Ret (Inr iv))
      (\<lambda>r. case r of Inl err \<Rightarrow> Ret (Some err) | Inr iv \<Rightarrow> orderPlaced_rest_p env evt iv)) msg)"
  have "unseen_order_p env evt msg = bindp (cached_get_p env (op_WarehouseId evt) (op_Sku evt)) f"
    by (simp only: f_def handleOrderPlaced_p_def bus_get_p_def unseen_bindp bindp_assoc)
  moreover have "bindp (atom (writeCache env iv)) (\<lambda>_. f (Inr iv)) = holding_order_p env evt iv msg"
    by (simp add: f_def holding_order_p_def)
  ultimately show ?thesis
    using get_holds_row [OF assms, of dcs D R f] by simp
qed

text \<open>A delivered open order gets to the point where it holds the row.\<close>

lemma order_holds:
  fixes env :: "('c, inv_event) env" and w :: "('c, 'x) inv_world_scheme"
  assumes "cache_redis env view" and "faultless env"
    and "dec_OrderPlaced dcs (nm_Data msg) = Inr evt" and "op_OrderId evt \<noteq> []"
    and "open_order view evt iv w" and "\<not> marked_in view w (op_OrderId evt)"
    and "i < length ts" and "ts ! i = Running (callback_p env dcs COrderPlaced msg)"
  shows "\<exists>w'. (pool_step env dcs D R)\<^sup>*\<^sup>* (w, ts) (w', ts[i := Running (holding_order_p env evt iv msg)]) \<and>
    open_order view evt iv w' \<and> w_pub w' = w_pub w \<and> w_settled w' = w_settled w \<and>
    marked_in view w' = marked_in view w"
proof -
  let ?w1 = "exec (redis_Seen env (op_OrderId evt)) w"
  note seen = seen_unmarked [OF assms(1,5,6)]
  have row: "inv_rows ?w1 (op_WarehouseId evt, op_Sku evt) = Some iv"
    "cache_entry view ?w1 (op_WarehouseId evt) (op_Sku evt) = None"
    using seen(2) by (simp_all add: open_order_def)
  from order_holds_row [OF assms(1,2,7) row, of dcs D R msg] obtain w' where
    run: "(pool_step env dcs D R)\<^sup>*\<^sup>* (?w1, ts[i := Running (unseen_order_p env evt msg)])
      (w', ts[i := Running (holding_order_p env evt iv msg)])"
    and w': "inv_rows w' = inv_rows ?w1" "w_pub w' = w_pub ?w1" "w_settled w' = w_settled ?w1"
      "marked_in view w' = marked_in view ?w1" "cache_entry view w' = cache_entry view ?w1"
    by blast
  have "open_order view evt iv w'"
    using seen(2) w'(1,5) rows_ok_same [OF w'(1)] by (simp add: open_order_def)
  moreover have "marked_in view w' = marked_in view w"
    using w'(4) cache_redis.mark_calls(4) [OF assms(1), of "op_OrderId evt" w] by simp
  ultimately show ?thesis
    using converse_rtranclp_into_rtranclp [OF pool_unseen [OF assms(3,4,7,8) seen(1)] run] w'(2,3) seen(4,5) by auto
qed

text \<open>What it still has to do writes the row it holds, with the reservation.\<close>

lemma holding_order_run:
  fixes env :: "('c, inv_event) env" and w :: "('c, 'x) inv_world_scheme"
  assumes "cache_redis env view" and "faultless env" and "inv_ok iv" and "inv_key iv = (op_WarehouseId evt, op_Sku evt)"
    and "inv_rows w (op_WarehouseId evt, op_Sku evt) \<noteq> None"
    and "0 \<le> sint (op_Quantity evt)" and "sint (op_Quantity evt) \<le> spec_available (stock_of iv)"
  shows "\<exists>iv'. inv_rows (exec (collapse (holding_order_p env evt iv msg)) w) =
      (inv_rows w)((op_WarehouseId evt, op_Sku evt) \<mapsto> iv') \<and>
    stock_of iv' = spec_reserve (sint (op_Quantity evt)) (stock_of iv) \<and>
    w_settled (exec (collapse (holding_order_p env evt iv msg)) w) = w_settled w @ [Ack] \<and>
    announces_order w (exec (collapse (holding_order_p env evt iv msg)) w)"
proof -
  let ?rest = "orderPlaced_after_read env (cached_store env) evt iv" and ?mark = "redis_Mark env (op_OrderId evt) one_day"
  let ?w1 = "exec (writeCache env iv) w"
  have enough: "\<not> int64_less (inv_OnHand iv - inv_Reserved iv) (op_Quantity evt)"
    using assms(7) invdb_service.available_exact [OF assms(3)] by (simp add: spec_available_def stock_of_def)
  have w1: "inv_rows ?w1 = inv_rows w" "w_pub ?w1 = w_pub w" "w_settled ?w1 = w_settled w"
    by (simp_all add: redis_calls)
  obtain w2 upd where u: "run_state (bus_UpdateInventory (time_Now env) (cached_store env) iv
      (no_update\<lparr>upd_Reserved := Some (inv_Reserved iv + op_Quantity evt)\<rparr>)) ?w1 = (Inr upd, w2)"
    and w2: "inv_rows w2 = (inv_rows w)((op_WarehouseId evt, op_Sku evt) \<mapsto> inv_stored env upd)"
      "stock_of upd = spec_reserve (sint (op_Quantity evt)) (stock_of iv)" "w_pub w2 = w_pub w"
    using cached_reserve [OF assms(1) faultless_up [OF assms(2)] assms(3,4), of ?w1 "op_Quantity evt"] assms(5-7) w1 by auto
  have ok: "result ?rest ?w1 = None" "announces_order w (exec ?rest ?w1)"
    using after_read_publishes [OF assms(2) enough u] w2(3) by (auto simp: announces_order_def carries_def)
  have up: "redis_up (e_redis env) view"
    using assms(1) by (simp add: cache_redis_def)
  have run: "exec (collapse (holding_order_p env evt iv msg)) w = exec (settle Ack) (exec ?mark (exec ?rest ?w1))"
    using unseen_success [of "orderPlaced_rest_p env evt iv", OF _ mark_up [OF up]] ok(1)
    by (simp add: holding_order_p_def split_beta)
  have "silent_p (orderPlaced_rest_p env evt iv :: (('c, 'x) inv_world_scheme, goerr option) prog)"
    by (auto simp: orderPlaced_rest_p_def Let_def intro!: silent_rules silent_publish silent_messages silent_store
        split: sum.split option.split)
  from silent_collapse [OF this, of ?w1] have "w_settled (exec ?rest ?w1) = w_settled w"
    using w1(3) by simp
  moreover have "inv_rows (exec (settle Ack) (exec ?mark v)) = inv_rows v"
    "w_settled (exec (settle Ack) (exec ?mark v)) = w_settled v @ [Ack]"
    "w_pub (exec (settle Ack) (exec ?mark v)) = w_pub v" for v :: "('c, 'x) inv_world_scheme"
    by (simp_all add: settle_def rows_ok_frames rows_redis_calls) (simp_all add: redis_calls)
  ultimately show ?thesis
    using w2(1,2) ok(2) after_read_world [OF enough u]
    by (intro exI [where x = "inv_stored env upd"]) (simp add: run announces_order_def inv_stored_stock)
qed

subsection \<open>Properties\<close>

text \<open>The first order reads and is overtaken by the second, which is handled completely.\<close>

lemma order_overtaken:
  fixes env :: "('c, inv_event) env" and w :: "('c, 'x) inv_world_scheme"
  assumes "cache_redis env view" and "faultless env"
    and "dec_OrderPlaced dcs (nm_Data m1) = Inr e1" and "op_OrderId e1 \<noteq> []"
    and "dec_OrderPlaced dcs (nm_Data m2) = Inr e2" and "op_OrderId e2 \<noteq> []"
    and "op_WarehouseId e2 = op_WarehouseId e1" and "op_Sku e2 = op_Sku e1"
    and "open_order view e1 iv w" and "\<not> marked_in view w (op_OrderId e1)" and "\<not> marked_in view w (op_OrderId e2)"
    and "0 \<le> sint (op_Quantity e2)" and "sint (op_Quantity e2) \<le> spec_available (stock_of iv)"
  shows "\<exists>w' iv'. (pool_step env dcs D R)\<^sup>*\<^sup>*
      (w, [Running (callback_p env dcs COrderPlaced m1), Running (callback_p env dcs COrderPlaced m2)])
      (w', [Running (holding_order_p env e1 iv m1), Running (Ret ())]) \<and>
    inv_rows w' (op_WarehouseId e1, op_Sku e1) = Some iv' \<and>
    stock_of iv' = spec_reserve (sint (op_Quantity e2)) (stock_of iv) \<and>
    w_settled w' = w_settled w @ [Ack] \<and> announces_order w w'"
proof -
  let ?steps = "(pool_step env dcs D R)\<^sup>*\<^sup>*"
  let ?p1 = "callback_p env dcs COrderPlaced m1 :: (('c, 'x) inv_world_scheme, unit) prog"
  let ?p2 = "callback_p env dcs COrderPlaced m2 :: (('c, 'x) inv_world_scheme, unit) prog"
  let ?hold = "holding_order_p env e1 iv m1 :: (('c, 'x) inv_world_scheme, unit) prog"
  from order_holds [OF assms(1-4,9,10), of 0 "[Running ?p1, Running ?p2]" D R] obtain w1 where
    held: "?steps (w, [Running ?p1, Running ?p2]) (w1, [Running ?hold, Running ?p2])"
    and w1: "open_order view e1 iv w1" "w_pub w1 = w_pub w" "w_settled w1 = w_settled w"
      "\<not> marked_in view w1 (op_OrderId e2)"
    using assms(11) by auto
  then have "open_order view e2 iv w1"
    by (simp add: open_order_def assms(7,8))
  from order_runs [OF assms(1,2,5,6) this w1(4) assms(12,13), of 1 "[Running ?hold, Running ?p2]" D R]
  obtain w2 a where "?steps (w1, [Running ?hold, Running ?p2]) (w2, [Running ?hold, Running (Ret ())])"
    "open_order view e2 a w2" "stock_of a = spec_reserve (sint (op_Quantity e2)) (stock_of iv)"
    "w_settled w2 = w_settled w1 @ [Ack]" "announces_order w1 w2"
    by auto
  with rtranclp_trans [OF held] w1(2,3) show ?thesis
    by (intro exI [where x = w2] exI [where x = a]) (simp add: open_order_def announces_order_def assms(7,8))
qed

text \<open>
  C17: the read-modify-write of a handler is not isolated. There is a schedule without a crash
  and without a failing call in which the first of two orders for one row has read the row
  from the database and not yet written it into the cache (\<open>holding_order_p\<close>) while the second
  is handled completely, and then goes on: the second is reserved in between, and in the end
  the row holds the reservation of the first only, yet both are announced with
  \<open>InventoryReserved\<close> and \<open>InventoryUpdated\<close> and acknowledged. It is shown for every row
  that is not in the cache and any two orders with ids and no marks, whose quantities are
  not negative and available each by itself, also when the stock does not suffice for both. (A second order that reads after the first
  has filled the cache is refused instead.)
\<close>

theorem overlapping_orders_lose_reservation:
  fixes env :: "('c, inv_event) env" and w :: "('c, 'x) inv_world_scheme"
  assumes "redis_up (e_redis env) view" and "faultless env" and "rows_ok w"
    and "dec_OrderPlaced dcs (nm_Data m1) = Inr e1" and "op_OrderId e1 \<noteq> []"
    and "dec_OrderPlaced dcs (nm_Data m2) = Inr e2" and "op_OrderId e2 \<noteq> []"
    and "op_WarehouseId e2 = op_WarehouseId e1" and "op_Sku e2 = op_Sku e1"
    and "inv_rows w (op_WarehouseId e1, op_Sku e1) = Some iv"
    and "cache_entry view w (op_WarehouseId e1) (op_Sku e1) = None"
    and "\<not> marked_in view w (op_OrderId e1)" and "\<not> marked_in view w (op_OrderId e2)"
    and "0 \<le> sint (op_Quantity e1)" and "sint (op_Quantity e1) \<le> spec_available (stock_of iv)"
    and "0 \<le> sint (op_Quantity e2)" and "sint (op_Quantity e2) \<le> spec_available (stock_of iv)"
  shows "let D = (\<lambda>c m. c = COrderPlaced \<and> (m = m1 \<or> m = m2)); k = (op_WarehouseId e1, op_Sku e1)
    in \<exists>w1 iv1 w' iv' calls. pool_reachable env dcs D R w (w1, [Running (holding_order_p env e1 iv m1), Running (Ret ())]) \<and>
      inv_rows w1 k = Some iv1 \<and> stock_of iv1 = spec_reserve (sint (op_Quantity e2)) (stock_of iv) \<and>
      (pool_step env dcs D R)\<^sup>*\<^sup>* (w1, [Running (holding_order_p env e1 iv m1), Running (Ret ())])
        (w', [Running (Ret ()), Running (Ret ())]) \<and>
      inv_rows w' k = Some iv' \<and> stock_of iv' = spec_reserve (sint (op_Quantity e1)) (stock_of iv) \<and>
      w_settled w' = w_settled w @ [Ack, Ack] \<and> w_pub w' = w_pub w @ calls \<and>
      map pc_Subject calls = [Subject_InventoryReserved, Subject_InventoryUpdated,
        Subject_InventoryReserved, Subject_InventoryUpdated]"
proof -
  let ?D = "\<lambda>c m. c = COrderPlaced \<and> (m = m1 \<or> m = m2)"
  let ?steps = "(pool_step env dcs ?D R)\<^sup>*\<^sup>*"
  let ?p1 = "callback_p env dcs COrderPlaced m1 :: (('c, 'x) inv_world_scheme, unit) prog"
  let ?p2 = "callback_p env dcs COrderPlaced m2 :: (('c, 'x) inv_world_scheme, unit) prog"
  let ?hold = "holding_order_p env e1 iv m1 :: (('c, 'x) inv_world_scheme, unit) prog"
  have redis: "cache_redis env view"
    using assms(1) by (simp add: cache_redis_def)
  have ready: "open_order view e1 iv w"
    using assms(3,10,11) by (simp add: open_order_def)
  have row: "inv_ok iv" "inv_key iv = (op_WarehouseId e1, op_Sku e1)"
    using assms(3,10) by (auto simp: rows_ok_def)
  from order_overtaken [OF redis assms(2,4-9) ready assms(12,13,16,17), of ?D R] obtain w2 a where
    over: "?steps (w, [Running ?p1, Running ?p2]) (w2, [Running ?hold, Running (Ret ())])"
    and w2: "inv_rows w2 (op_WarehouseId e1, op_Sku e1) = Some a"
      "stock_of a = spec_reserve (sint (op_Quantity e2)) (stock_of iv)" "w_settled w2 = w_settled w @ [Ack]" "announces_order w w2"
    by blast
  let ?w3 = "exec (collapse ?hold) w2"
  obtain b where b: "inv_rows ?w3 = (inv_rows w2)((op_WarehouseId e1, op_Sku e1) \<mapsto> b)"
    "stock_of b = spec_reserve (sint (op_Quantity e1)) (stock_of iv)" "w_settled ?w3 = w_settled w2 @ [Ack]"
    "announces_order w2 ?w3"
    using holding_order_run [OF redis assms(2) row _ assms(14,15), of w2 m1] w2(1) by auto
  have "?steps (w, []) (w, [Running ?p1, Running ?p2])"
    using pool_deliver [of ?D COrderPlaced m1 env dcs R w "[]"]
      pool_deliver [of ?D COrderPlaced m2 env dcs R w "[Running ?p1]"] by auto
  also note over
  finally have "pool_reachable env dcs ?D R w (w2, [Running ?hold, Running (Ret ())])"
    by (rule pool_steps_reachable) (rule pool_start)
  moreover have "?steps (w2, [Running ?hold, Running (Ret ())]) (?w3, [Running (Ret ()), Running (Ret ())])"
    using run_to_end [of 0 "[Running ?hold, Running (Ret ())]" env dcs ?D R w2 ?hold] by simp
  ultimately show ?thesis
    using b w2 unfolding announces_order_def Let_def
    by (intro exI [where x = w2] exI [where x = a] exI [where x = ?w3] exI [where x = b]) auto
qed

definition two_orders :: decoders where
  "two_orders = demo_decoders\<lparr>dec_OrderPlaced := (\<lambda>data. Inr (if data = [] then demo_order 5
     else (demo_order 1)\<lparr>op_OrderId := ''O2''\<rparr>))\<rparr>"

abbreviation second_msg :: nats_msg where
  "second_msg \<equiv> demo_msg\<lparr>nm_Data := ''2''\<rparr>"

theorem overlapping_orders_lose_reservation_witness:
  "\<exists>w' iv'. pool_reachable demo_env two_orders (\<lambda>c m. c = COrderPlaced \<and> (m = demo_msg \<or> m = second_msg)) (\<lambda>_ _. False)
      demo_world (w', [Running (Ret ()), Running (Ret ())]) \<and>
    inv_rows w' (''JHB'', ''S1'') = Some iv' \<and> reserved (stock_of iv') = 7 \<and> w_settled w' = [Ack, Ack]"
proof -
  let ?iv = "bus_of_row demo_row" and ?e2 = "(demo_order 1)\<lparr>op_OrderId := ''O2''\<rparr>"
  let ?D = "\<lambda>c m. c = COrderPlaced \<and> (m = demo_msg \<or> m = second_msg)"
  have stock: "stock_of ?iv = \<lparr>on_hand = 10, reserved = 2, incoming = 5\<rparr>"
    by (simp add: stock_of_def bus_of_row_def demo_row_def)
  have dec: "dec_OrderPlaced two_orders (nm_Data demo_msg) = Inr (demo_order 5)"
    "dec_OrderPlaced two_orders (nm_Data second_msg) = Inr ?e2"
    by (simp_all add: two_orders_def demo_msg_def)
  have order: "op_OrderId (demo_order q) = ''O1''" "op_WarehouseId (demo_order q) = ''JHB''"
    "op_Sku (demo_order q) = ''S1''" "op_Quantity (demo_order q) = q" for q
    by (simp_all add: demo_order_def)
  obtain w1 t w' iv' where "pool_reachable demo_env two_orders ?D (\<lambda>_ _. False) demo_world (w1, t)"
    "(pool_step demo_env two_orders ?D (\<lambda>_ _. False))\<^sup>*\<^sup>* (w1, t) (w', [Running (Ret ()), Running (Ret ())])"
    "inv_rows w' (''JHB'', ''S1'') = Some iv'" "stock_of iv' = spec_reserve 5 (stock_of ?iv)"
    "w_settled w' = w_settled demo_world @ [Ack, Ack]"
    using overlapping_orders_lose_reservation [OF demo_redis_up faultless_calm demo_rows_ok dec(1) _ dec(2),
        of ?iv "\<lambda>_ _. False", unfolded Let_def] demo_open stock order
    by (fastforce simp: spec_available_def)
  with pool_steps_reachable [OF this(2,1)] stock show ?thesis
    by (intro exI [where x = w'] exI [where x = iv']) (simp add: spec_reserve_def demo_world_def)
qed

end
