(* ===== verification/Shp_Messaging.thy ===== *)
theory Shp_Messaging
  imports Inv_Messaging
begin

section \<open>Messaging of the shipment service\<close>

text \<open>
  \<open>services/shipment/internal/messaging\<close> and \<open>internal/metrics\<close>: the publisher and its
  dead letter queue, the middleware chain (\<open>wrapMiddleware\<close>, \<open>Panics\<close>,
  \<open>Timeout\<close>, \<open>Metrics\<close>, \<open>WithTryClaim\<close>, \<open>WithIdempotency\<close>), the consumer
  callback and \<open>EnsureStream\<close>. The message and stream types are those of
  \<open>Inv_Messaging\<close>; the two services have their own copies of the code over them.
\<close>

subsection \<open>Metrics\<close>

record metrics =
  mt_goroutines :: int64
  mt_requests :: int64
  mt_errors :: int64
  mt_panics :: int64

record 'c met_world = "'c world" +
  w_metrics :: metrics

definition metrics_init :: metrics where
  "metrics_init = \<lparr>mt_goroutines = 0, mt_requests = 0, mt_errors = 0, mt_panics = 0\<rparr>"

text \<open>
  The context a handler gets: its deadline, and whether \<open>metrics.Inject\<close> stored the
  singleton in it. \<open>get\<close> falls back to the same singleton, so the counters are those of
  the world either way.
\<close>

record ctx =
  cx_Deadline :: "gotime option"
  cx_Metrics :: bool

definition background :: ctx where
  "background = \<lparr>cx_Deadline = None, cx_Metrics = False\<rparr>"

definition metrics_Inject :: "ctx \<Rightarrow> ctx" where
  "metrics_Inject c = c\<lparr>cx_Metrics := True\<rparr>"

definition UpdateGoroutines :: "(nat \<Rightarrow> int64) \<Rightarrow> (('c, 'x) met_world_scheme, int64) state" where
  "UpdateGoroutines NumGoroutine = State (\<lambda>w. let g = NumGoroutine (w_tick w) in
     (g, w\<lparr>w_metrics := (w_metrics w)\<lparr>mt_goroutines := g\<rparr>\<rparr>))"

definition AddRequest :: "(('c, 'x) met_world_scheme, int64) state" where
  "AddRequest = State (\<lambda>w. let n = mt_requests (w_metrics w) + 1 in
     (n, w\<lparr>w_metrics := (w_metrics w)\<lparr>mt_requests := n\<rparr>\<rparr>))"

definition AddError :: "(('c, 'x) met_world_scheme, int64) state" where
  "AddError = State (\<lambda>w. let n = mt_errors (w_metrics w) + 1 in
     (n, w\<lparr>w_metrics := (w_metrics w)\<lparr>mt_errors := n\<rparr>\<rparr>))"

definition AddPanic :: "(('c, 'x) met_world_scheme, int64) state" where
  "AddPanic = State (\<lambda>w. let n = mt_panics (w_metrics w) + 1 in
     (n, w\<lparr>w_metrics := (w_metrics w)\<lparr>mt_panics := n\<rparr>\<rparr>))"

subsection \<open>Handlers and middleware\<close>

type_synonym ('w, 'evt) ctx_Handler = "ctx \<Rightarrow> 'evt \<Rightarrow> ('w, goerr option call) state"

type_synonym ('w, 'evt) Middleware = "('w, 'evt) ctx_Handler \<Rightarrow> ('w, 'evt) ctx_Handler"

text \<open>The loop runs from the last middleware to the first; nil entries are skipped.\<close>

definition wrapMiddleware ::
  "('w, 'evt) Middleware option list \<Rightarrow> ('w, 'evt) ctx_Handler \<Rightarrow> ('w, 'evt) ctx_Handler" where
  "wrapMiddleware mw handler =
     fold (\<lambda>mwFunc h. case mwFunc of None \<Rightarrow> h | Some f \<Rightarrow> f h) (rev mw) handler"

definition mw_Panics :: "(('c, 'x) met_world_scheme, 'evt) Middleware" where
  "mw_Panics next ctx evt =
     do {
       r \<leftarrow> next ctx evt;
       case r of
         Returns e \<Rightarrow> State_Monad.return (Returns e)
       | Panics p \<Rightarrow> do { _ \<leftarrow> AddPanic; State_Monad.return (Returns (Some (ErrMsg (''panic: '' @ p)))) }
     }"

definition earlier :: "gotime option \<Rightarrow> gotime \<Rightarrow> gotime option" where
  "earlier parent t = (case parent of None \<Rightarrow> Some t | Some p \<Rightarrow> Some (min p t))"

definition mw_Timeout :: "('c, 'm) env \<Rightarrow> int \<Rightarrow> (('c, 'x) world_scheme, 'evt) Middleware" where
  "mw_Timeout env d next ctx evt =
     do {
       t \<leftarrow> time_Now env;
       next (ctx\<lparr>cx_Deadline := earlier (cx_Deadline ctx) (t + d)\<rparr>) evt
     }"

definition mw_Metrics :: "(nat \<Rightarrow> int64) \<Rightarrow> (('c, 'x) met_world_scheme, 'evt) Middleware" where
  "mw_Metrics NumGoroutine next ctx evt =
     do {
       r \<leftarrow> next (metrics_Inject ctx) evt;
       case r of
         Panics p \<Rightarrow> State_Monad.return (Panics p)
       | Returns err \<Rightarrow>
           do {
             n \<leftarrow> AddRequest;
             _ \<leftarrow> (if sint n mod 1000 = 0 then UpdateGoroutines NumGoroutine else State_Monad.return 0);
             _ \<leftarrow> (if err \<noteq> None then AddError else State_Monad.return 0);
             State_Monad.return (Returns err)
           }
     }"

subsection \<open>Idempotency\<close>

record 'w claim_store =
  cl_Seen :: "string \<Rightarrow> ('w, bool \<times> goerr option) state"
  cl_Mark :: "string \<Rightarrow> int \<Rightarrow> ('w, goerr option) state"
  cl_TryClaim :: "string \<Rightarrow> int \<Rightarrow> ('w, bool \<times> goerr option) state"

definition mw_WithTryClaim ::
  "'w claim_store \<Rightarrow> int \<Rightarrow> ('evt \<Rightarrow> string) \<Rightarrow> ('w, 'evt) Middleware" where
  "mw_WithTryClaim store ttl extractID next ctx evt =
     (let eid = extractID evt in
      if eid = [] then next ctx evt
      else
        do {
          c \<leftarrow> cl_TryClaim store eid ttl;
          if snd c \<noteq> None then State_Monad.return (Returns (snd c))
          else if \<not> fst c then State_Monad.return (Returns None)
          else next ctx evt
        })"

text \<open>The handler argument of the outer function is shadowed and never used.\<close>

definition mw_WithIdempotency ::
  "'w claim_store \<Rightarrow> int \<Rightarrow> ('evt \<Rightarrow> string) \<Rightarrow> ('w, 'evt) ctx_Handler \<Rightarrow> ('w, 'evt) Middleware" where
  "mw_WithIdempotency store ttl extractID shadowed next ctx evt =
     (let eid = extractID evt in
      if eid = [] then next ctx evt
      else
        do {
          s \<leftarrow> cl_Seen store eid;
          if fst s then State_Monad.return (Returns None)
          else
            do {
              r \<leftarrow> next ctx evt;
              case r of
                Panics p \<Rightarrow> State_Monad.return (Panics p)
              | Returns (Some err) \<Rightarrow> State_Monad.return (Returns (Some err))
              | Returns None \<Rightarrow> do { m \<leftarrow> cl_Mark store eid ttl; State_Monad.return (Returns m) }
            }
        })"

definition claim_key :: "string \<Rightarrow> string" where
  "claim_key eid = ''evt:'' @ eid"

definition claim_Seen :: "('c, 'm) env \<Rightarrow> string \<Rightarrow> (('c, 'x) world_scheme, bool \<times> goerr option) state" where
  "claim_Seen env eid =
     do { r \<leftarrow> on_redis (Exists (e_redis env) (claim_key eid)); State_Monad.return (0 < fst r, snd r) }"

definition claim_Mark :: "('c, 'm) env \<Rightarrow> string \<Rightarrow> int \<Rightarrow> (('c, 'x) world_scheme, goerr option) state" where
  "claim_Mark env eid ttl = on_redis (SetTTL (e_redis env) (claim_key eid) ''1'' ttl)"

definition claim_TryClaim ::
  "('c, 'm) env \<Rightarrow> string \<Rightarrow> int \<Rightarrow> (('c, 'x) world_scheme, bool \<times> goerr option) state" where
  "claim_TryClaim env eid ttl = on_redis (SetNX (e_redis env) (claim_key eid) ''1'' ttl)"

definition redis_claim_store :: "('c, 'm) env \<Rightarrow> (('c, 'x) world_scheme) claim_store" where
  "redis_claim_store env = \<lparr>cl_Seen = claim_Seen env, cl_Mark = claim_Mark env, cl_TryClaim = claim_TryClaim env\<rparr>"

subsection \<open>Publisher\<close>

definition shp_Publish :: "('c, 'm) env \<Rightarrow> string \<Rightarrow> 'm \<Rightarrow> (('c, 'x) world_scheme, goerr option) state" where
  "shp_Publish env subject msg =
     (case e_marshal env msg of
        Inl err \<Rightarrow> State_Monad.return (Some err)
      | Inr data \<Rightarrow>
          do {
            hdr \<leftarrow> inject_header env Map.empty;
            msgId \<leftarrow> uuid_NewString env;
            js_PublishMsg env \<lparr>pc_Subject = subject, pc_Data = data, pc_Header = hdr, pc_MsgId = msgId\<rparr>
          })"

text \<open>\<open>strings.SplitN(subject, ".", 2)\<close>: the part before the first dot, and the part behind it.\<close>

definition split_subject :: "string \<Rightarrow> string \<times> string option" where
  "split_subject subject =
     (case dropWhile (\<lambda>c. c \<noteq> CHR ''.'') subject of
        [] \<Rightarrow> (subject, None)
      | _ # rest \<Rightarrow> (takeWhile (\<lambda>c. c \<noteq> CHR ''.'') subject, Some rest))"

definition dlq_subject :: "string \<Rightarrow> string" where
  "dlq_subject subject =
     (case split_subject subject of
        (first, None) \<Rightarrow> ''dlq.'' @ subject
      | (first, Some rest) \<Rightarrow> first @ ''.dlq.'' @ rest)"

definition shp_PublishDLQ ::
  "('c, 'm) env \<Rightarrow> nats_msg \<Rightarrow> string \<Rightarrow> (('c, 'x) world_scheme, goerr option) state" where
  "shp_PublishDLQ env original reason =
     do {
       hdr \<leftarrow> inject_header env ((nm_Header original)
         (''dlq-reason'' \<mapsto> [reason], ''dlq-original-subject'' \<mapsto> [nm_Subject original]));
       msgId \<leftarrow> uuid_NewString env;
       js_PublishMsg env \<lparr>pc_Subject = dlq_subject (nm_Subject original), pc_Data = nm_Data original,
         pc_Header = hdr, pc_MsgId = msgId\<rparr>
     }"

subsection \<open>The consumer callback\<close>

text \<open>There is no recovery in the callback: a panic of the handler is a panic of the callback.\<close>

definition shp_consume ::
  "('c, 'm) env \<Rightarrow> (string \<Rightarrow> goerr + 'evt) \<Rightarrow> ctx \<Rightarrow> (('c, 'x) world_scheme, 'evt) ctx_Handler \<Rightarrow> nats_msg \<Rightarrow>
   (('c, 'x) world_scheme, unit call) state" where
  "shp_consume env Unmarshal ctx wrapped msg =
     (case Unmarshal (nm_Data msg) of
        Inl _ \<Rightarrow> do { _ \<leftarrow> settle Term; State_Monad.return (Returns ()) }
      | Inr evt \<Rightarrow>
          do {
            r \<leftarrow> wrapped ctx evt;
            case r of
              Panics p \<Rightarrow> State_Monad.return (Panics p)
            | Returns None \<Rightarrow> do { _ \<leftarrow> settle Ack; State_Monad.return (Returns ()) }
            | Returns (Some err) \<Rightarrow>
                (case nm_NumDelivered msg of
                   Some n \<Rightarrow>
                     if 5 \<le> n
                     then do { _ \<leftarrow> shp_PublishDLQ env msg (error_text err); _ \<leftarrow> settle Term;
                               State_Monad.return (Returns ()) }
                     else do { _ \<leftarrow> settle Nak; State_Monad.return (Returns ()) }
                 | None \<Rightarrow> do { _ \<leftarrow> settle Nak; State_Monad.return (Returns ()) })
          })"

text \<open>\<open>Consume\<close> wraps the handler once and hands the callback to the subscription.\<close>

definition shp_callback ::
  "('c, 'm) env \<Rightarrow> (string \<Rightarrow> goerr + 'evt) \<Rightarrow> ctx \<Rightarrow> (('c, 'x) world_scheme, 'evt) Middleware option list \<Rightarrow>
   (('c, 'x) world_scheme, 'evt) ctx_Handler \<Rightarrow> nats_msg \<Rightarrow> (('c, 'x) world_scheme, unit call) state" where
  "shp_callback env Unmarshal ctx mw handler = shp_consume env Unmarshal ctx (wrapMiddleware mw handler)"

text \<open>
  The publisher and the subscriber with what they hold. \<open>QueueSubscribe\<close> is the argument
  \<open>ssb_js\<close>: it takes the subject, the queue, the callback and the two options the code
  gives. A publisher acts on the environment, which stands for its connection.
\<close>

record ('l, 't, 'j) shp_Publisher =
  shpub_log :: 'l
  shpub_trace :: 't
  shpub_js :: 'j

definition shp_NewPublisher :: "'l \<Rightarrow> 'j \<Rightarrow> 't \<Rightarrow> ('l, 't, 'j) shp_Publisher" where
  "shp_NewPublisher logger js tracer = \<lparr>shpub_log = logger, shpub_trace = tracer, shpub_js = js\<rparr>"

record shp_options =
  so_Durable :: string
  so_ManualAck :: bool

type_synonym ('w, 'sub) shp_queue_subscribe =
  "string \<Rightarrow> string \<Rightarrow> (nats_msg \<Rightarrow> ('w, unit call) state) \<Rightarrow> shp_options \<Rightarrow> ('w, goerr + 'sub) state"

record ('w, 'evt, 'sub, 'l, 't, 'p, 'r) shp_Subscriber =
  ssb_js :: "('w, 'sub) shp_queue_subscribe"
  ssb_mw :: "('w, 'evt) Middleware option list"
  ssb_trace :: 't
  ssb_pub :: "('l, 't, 'p) shp_Publisher"
  ssb_redis :: 'r

definition shp_NewSubscriber ::
  "('w, 'sub) shp_queue_subscribe \<Rightarrow> 't \<Rightarrow> ('l, 't, 'p) shp_Publisher \<Rightarrow> 'r \<Rightarrow> ('w, 'evt) Middleware option list \<Rightarrow>
   ('w, 'evt, 'sub, 'l, 't, 'p, 'r) shp_Subscriber" where
  "shp_NewSubscriber js tracer pub redis mw =
     \<lparr>ssb_js = js, ssb_mw = mw, ssb_trace = tracer, ssb_pub = pub, ssb_redis = redis\<rparr>"

definition shp_Subscriber_Consume ::
  "(('c, 'x) world_scheme, 'evt, 'sub, 'l, 't, ('c, 'm) env, 'r) shp_Subscriber \<Rightarrow> ctx \<Rightarrow> string \<Rightarrow> string \<Rightarrow> string \<Rightarrow>
   (string \<Rightarrow> goerr + 'evt) \<Rightarrow> (('c, 'x) world_scheme, 'evt) ctx_Handler \<Rightarrow> (('c, 'x) world_scheme, goerr + 'sub) state" where
  "shp_Subscriber_Consume s ctx subject durable queue Unmarshal handler =
     ssb_js s subject queue (shp_callback (shpub_js (ssb_pub s)) Unmarshal ctx (ssb_mw s) handler)
       \<lparr>so_Durable = durable, so_ManualAck = True\<rparr>"

subsection \<open>EnsureStream\<close>

definition equalSubjects :: "string list \<Rightarrow> string list \<Rightarrow> bool" where
  "equalSubjects a b \<longleftrightarrow> length a = length b \<and> (\<forall>s \<in> set b. s \<in> set a)"

definition shp_EnsureStream :: "'w stream_admin \<Rightarrow> string \<Rightarrow> ('w, goerr option) state" where
  "shp_EnsureStream js env_name =
     (let expected = events_stream env_name in
      do {
        info \<leftarrow> js_StreamInfo js ''EVENTS'';
        case info of
          Inr config \<Rightarrow>
            if str_Storage config \<noteq> str_Storage expected
            then State_Monad.return (Some (ErrMsg ''stream EVENTS has wrong storage type''))
            else if str_MaxAge config \<noteq> str_MaxAge expected \<or>
                \<not> equalSubjects (str_Subjects config) (str_Subjects expected)
            then js_UpdateStream js expected
            else State_Monad.return None
        | Inl _ \<Rightarrow> js_AddStream js expected
      })"

text \<open>
  \<open>equalSubjects\<close> ignores the order, but it compares sets in one direction only, so that
  duplicates make it asymmetric. Against the single expected subject it is exact.
\<close>

lemma equalSubjects_asymmetric:
  "equalSubjects [''a'', ''b''] [''a'', ''a''] \<and> \<not> equalSubjects [''a'', ''a''] [''a'', ''b'']"
  by (simp add: equalSubjects_def)

lemma equalSubjects_single: "equalSubjects a [s] \<longleftrightarrow> a = [s]"
  by (cases a) (auto simp: equalSubjects_def)

lemma EnsureStream_accepts:
  assumes "result (js_StreamInfo js ''EVENTS'') w = Inr config"
    and "str_Storage config = FileStorage" and "str_MaxAge config = three_days"
    and "str_Subjects config = [e @ ''.>'']"
  shows "run_state (shp_EnsureStream js e) w = (None, exec (js_StreamInfo js ''EVENTS'') w)"
  using assms by (simp add: shp_EnsureStream_def Let_def events_stream_def equalSubjects_single split_beta)

subsection \<open>The middleware chain\<close>

lemma wrapMiddleware_Nil [simp]: "wrapMiddleware [] h = h"
  by (simp add: wrapMiddleware_def)

lemma wrapMiddleware_Cons [simp]:
  "wrapMiddleware (m # mw) h = (case m of None \<Rightarrow> wrapMiddleware mw h | Some f \<Rightarrow> f (wrapMiddleware mw h))"
  by (cases m) (simp_all add: wrapMiddleware_def)

text \<open>The first entry of the list is the outermost; nil entries leave no trace.\<close>

lemma wrapMiddleware_append: "wrapMiddleware (mw @ mw') h = wrapMiddleware mw (wrapMiddleware mw' h)"
  by (induction mw) (simp_all split: option.splits)

definition panic_error :: "string \<Rightarrow> goerr" where
  "panic_error p = ErrMsg (''panic: '' @ p)"

definition recovered :: "goerr option call \<Rightarrow> goerr option" where
  "recovered r = (case r of Returns e \<Rightarrow> e | Panics p \<Rightarrow> Some (panic_error p))"

definition panics_of :: "'a call \<Rightarrow> int64" where
  "panics_of r = (case r of Returns _ \<Rightarrow> 0 | Panics _ \<Rightarrow> 1)"

lemma Panics_run:
  "result (mw_Panics h c evt) w = Returns (recovered (result (h c evt) w))"
  "w_settled (exec (mw_Panics h c evt) w) = w_settled (exec (h c evt) w)"
  "w_metrics (exec (mw_Panics h c evt) w) = (w_metrics (exec (h c evt) w))
     \<lparr>mt_panics := mt_panics (w_metrics (exec (h c evt) w)) + panics_of (result (h c evt) w)\<rparr>"
  by (simp_all add: mw_Panics_def AddPanic_def Let_def recovered_def panic_error_def panics_of_def split_beta
      split: call.splits)

lemma Metrics_result: "result (mw_Metrics ng h c evt) w = result (h (metrics_Inject c) evt) w"
  by (simp add: mw_Metrics_def split_beta split: call.splits)

lemma Metrics_counts:
  "mt_requests (w_metrics (exec (mw_Metrics ng h c evt) w)) =
     mt_requests (w_metrics (exec (h (metrics_Inject c) evt) w)) + (1 - panics_of (result (h (metrics_Inject c) evt) w))"
  "mt_errors (w_metrics (exec (mw_Metrics ng h c evt) w)) =
     mt_errors (w_metrics (exec (h (metrics_Inject c) evt) w)) +
     (if \<exists>e. result (h (metrics_Inject c) evt) w = Returns (Some e) then 1 else 0)"
  "mt_panics (w_metrics (exec (mw_Metrics ng h c evt) w)) =
     mt_panics (w_metrics (exec (h (metrics_Inject c) evt) w))"
  by (auto simp: mw_Metrics_def AddRequest_def AddError_def UpdateGoroutines_def Let_def panics_of_def
      split_beta split: call.splits)

lemmas chain_runs = Panics_run Metrics_result Metrics_counts

subsection \<open>The contract of a claim store\<close>

text \<open>What \<open>WithTryClaim\<close> relies on: a successful claim is exclusive and lasting.\<close>

locale claim_laws =
  fixes store :: "'w claim_store"
    and claimed :: "'w \<Rightarrow> string \<Rightarrow> bool"
  assumes try_answer: "snd (result (cl_TryClaim store eid ttl) w) = None \<Longrightarrow>
      fst (result (cl_TryClaim store eid ttl) w) \<longleftrightarrow> \<not> claimed w eid"
    and try_claims: "snd (result (cl_TryClaim store eid ttl) w) = None \<Longrightarrow>
      claimed (exec (cl_TryClaim store eid ttl) w) eid"
    and try_frame: "eid' \<noteq> eid \<Longrightarrow> claimed (exec (cl_TryClaim store eid ttl) w) eid' = claimed w eid'"
    and try_error: "snd (result (cl_TryClaim store eid ttl) w) \<noteq> None \<Longrightarrow>
      \<not> fst (result (cl_TryClaim store eid ttl) w)"
begin

lemma first_claim_runs:
  assumes "extractID evt \<noteq> []" and "\<not> claimed w (extractID evt)"
    and "snd (result (cl_TryClaim store (extractID evt) ttl) w) = None"
  shows "run_state (mw_WithTryClaim store ttl extractID h c evt) w =
    run_state (h c evt) (exec (cl_TryClaim store (extractID evt) ttl) w)"
  using assms try_answer by (simp add: mw_WithTryClaim_def Let_def split_beta)

lemma second_claim_skips:
  assumes "extractID evt \<noteq> []" and "claimed w (extractID evt)"
    and "snd (result (cl_TryClaim store (extractID evt) ttl) w) = None"
  shows "run_state (mw_WithTryClaim store ttl extractID h c evt) w =
    (Returns None, exec (cl_TryClaim store (extractID evt) ttl) w)"
  using assms try_answer by (simp add: mw_WithTryClaim_def Let_def split_beta)

lemma unanswered_claim_fails:
  assumes "extractID evt \<noteq> []"
    and "snd (result (cl_TryClaim store (extractID evt) ttl) w) = Some e"
  shows "run_state (mw_WithTryClaim store ttl extractID h c evt) w =
    (Returns (Some e), exec (cl_TryClaim store (extractID evt) ttl) w)"
  using assms by (simp add: mw_WithTryClaim_def Let_def split_beta)

end

definition claimed_in ::
  "('c \<Rightarrow> string \<Rightarrow> redis_val option) \<Rightarrow> ('c, 'x) world_scheme \<Rightarrow> string \<Rightarrow> bool" where
  "claimed_in view w eid \<longleftrightarrow> view (w_redis w) (claim_key eid) \<noteq> None"

locale redis_claims = redis_laws "e_redis env" view
  for env :: "('c, 'm) env" and view :: "'c \<Rightarrow> string \<Rightarrow> redis_val option"

sublocale redis_claims \<subseteq> claims: claim_laws "redis_claim_store env" "claimed_in view"
proof unfold_locales
  fix eid eid' ttl w
  let ?k = "claim_key eid"
  let ?r = "SetNX (e_redis env) ?k ''1'' ttl (w_redis w)"
  have run: "run_state (cl_TryClaim (redis_claim_store env) eid ttl) w = (fst ?r, w\<lparr>w_redis := snd ?r\<rparr>)"
    by (simp add: redis_claim_store_def claim_TryClaim_def on_redis_def split_beta)
  show "snd (result (cl_TryClaim (redis_claim_store env) eid ttl) w) = None \<Longrightarrow>
      fst (result (cl_TryClaim (redis_claim_store env) eid ttl) w) = (\<not> claimed_in view w eid)"
    using setnx_ok [of ?k "''1''" ttl "w_redis w" "fst (fst ?r)"]
    by (simp add: run claimed_in_def prod_eq_iff)
  show "snd (result (cl_TryClaim (redis_claim_store env) eid ttl) w) = None \<Longrightarrow>
      claimed_in view (exec (cl_TryClaim (redis_claim_store env) eid ttl) w) eid"
    using setnx_ok [of ?k "''1''" ttl "w_redis w" "fst (fst ?r)"]
    by (auto simp: run claimed_in_def prod_eq_iff split: if_splits)
  show "eid' \<noteq> eid \<Longrightarrow>
      claimed_in view (exec (cl_TryClaim (redis_claim_store env) eid ttl) w) eid' = claimed_in view w eid'"
    by (simp add: run claimed_in_def setnx_frame claim_key_def)
  show "snd (result (cl_TryClaim (redis_claim_store env) eid ttl) w) \<noteq> None \<Longrightarrow>
      \<not> fst (result (cl_TryClaim (redis_claim_store env) eid ttl) w)"
    using setnx_err [of ?k "''1''" ttl "w_redis w" "fst (fst ?r)"]
    by (cases "fst ?r") (auto simp: run prod_eq_iff)
qed

interpretation mem_claims: redis_claims "env\<lparr>e_redis := mem_api\<rparr>" mem_view
  by (simp add: redis_claims_def mem.redis_laws_axioms)

context redis_claims
begin

lemma claim_then_skip:
  fixes w u :: "('c, 'x) world_scheme"
  assumes "extractID evt \<noteq> []" and "\<not> claimed_in view w (extractID evt)"
    and answers: "\<And>u :: ('c, 'x) world_scheme. snd (result (claim_TryClaim env (extractID evt) ttl) u) = None"
    and stays: "\<And>u. claimed_in view u (extractID evt) \<Longrightarrow> claimed_in view (exec (h c evt) u) (extractID evt)"
  shows "run_state (mw_WithTryClaim (redis_claim_store env) ttl extractID h c evt) w =
      run_state (h c evt) (exec (claim_TryClaim env (extractID evt) ttl) w)"
    and "claimed_in view (exec (mw_WithTryClaim (redis_claim_store env) ttl extractID h c evt) w) (extractID evt)"
    and "claimed_in view u (extractID evt) \<Longrightarrow>
      run_state (mw_WithTryClaim (redis_claim_store env) ttl extractID h' c' evt) u =
        (Returns None, exec (claim_TryClaim env (extractID evt) ttl) u)"
proof -
  have cl: "cl_TryClaim (redis_claim_store env) = claim_TryClaim env"
    by (simp add: redis_claim_store_def)
  show first: "run_state (mw_WithTryClaim (redis_claim_store env) ttl extractID h c evt) w =
      run_state (h c evt) (exec (claim_TryClaim env (extractID evt) ttl) w)"
    using claims.first_claim_runs [of extractID evt w ttl h c] assms(1,2) answers by (simp add: cl)
  show "claimed_in view (exec (mw_WithTryClaim (redis_claim_store env) ttl extractID h c evt) w) (extractID evt)"
    unfolding first
    using claims.try_claims [of "extractID evt" ttl w] answers by (intro stays) (simp add: cl)
  show "claimed_in view u (extractID evt) \<Longrightarrow>
      run_state (mw_WithTryClaim (redis_claim_store env) ttl extractID h' c' evt) u =
        (Returns None, exec (claim_TryClaim env (extractID evt) ttl) u)"
    using claims.second_claim_skips [of extractID evt u ttl h' c'] assms(1) answers by (simp add: cl)
qed

end

subsection \<open>Properties\<close>

text \<open>What the callback does, as a function of the wrapped handler's outcome.\<close>

definition shp_settlement :: "goerr option \<Rightarrow> nats_msg \<Rightarrow> settlement" where
  "shp_settlement r msg =
     (case r of None \<Rightarrow> Ack
      | Some _ \<Rightarrow> if nm_NumDelivered msg \<noteq> None \<and> 5 \<le> the (nm_NumDelivered msg) then Term else Nak)"

lemma shp_DLQ_run:
  "w_settled (exec (shp_PublishDLQ env msg reason) w) = w_settled w"
  "w_redis (exec (shp_PublishDLQ env msg reason) w) = w_redis w"
  "map pc_Subject (w_pub (exec (shp_PublishDLQ env msg reason) w)) =
     map pc_Subject (w_pub w) @ [dlq_subject (nm_Subject msg)]"
  by (simp_all add: shp_PublishDLQ_def run_defs tick_def)

lemma shp_consume_returns:
  assumes "U (nm_Data msg) = Inr evt" and "result (wrapped c evt) w = Returns r"
  shows "result (shp_consume env U c wrapped msg) w = Returns ()"
    and "w_settled (exec (shp_consume env U c wrapped msg) w) =
      w_settled (exec (wrapped c evt) w) @ [shp_settlement r msg]"
    and "map pc_Subject (w_pub (exec (shp_consume env U c wrapped msg) w)) =
      map pc_Subject (w_pub (exec (wrapped c evt) w)) @
        (if shp_settlement r msg = Term then [dlq_subject (nm_Subject msg)] else [])"
    and "shp_settlement r msg \<noteq> Term \<Longrightarrow> exec (shp_consume env U c wrapped msg) w =
      exec (settle (shp_settlement r msg)) (exec (wrapped c evt) w)"
  using assms
  by (auto simp: shp_consume_def split_beta shp_settlement_def settled_after shp_DLQ_run
      split: option.splits)


lemma shp_consume_undecodable:
  assumes "U (nm_Data msg) = Inl e"
  shows "run_state (shp_consume env U c wrapped msg) w = (Returns (), exec (settle Term) w)"
  using assms by (simp add: shp_consume_def split_beta)

text \<open>
  \<open>WithTryClaim\<close> loses a message whose first handling fails: the claim is taken before
  the handler runs and nothing gives it back, so the first delivery is answered with Nak and
  the second one is acknowledged without running the handler.
\<close>

theorem failed_claim_is_lost:
  fixes w :: "('c, 'x) world_scheme"
  assumes "redis_laws (e_redis env) view"
    and "U (nm_Data msg) = Inr evt" and "extractID evt \<noteq> []"
    and "\<not> claimed_in view w (extractID evt)"
    and "\<And>u :: ('c, 'x) world_scheme. snd (result (claim_TryClaim env (extractID evt) ttl) u) = None"
    and "\<And>u :: ('c, 'x) world_scheme. claimed_in view u (extractID evt) \<Longrightarrow>
      claimed_in view (exec (h c evt) u) (extractID evt)"
    and "result (h c evt) (exec (claim_TryClaim env (extractID evt) ttl) w) = Returns (Some err)"
    and "w1 = exec (shp_callback env U c [Some (mw_WithTryClaim (redis_claim_store env) ttl extractID)] h
      (delivery msg 1)) w"
  shows "w1 = exec (settle Nak) (exec (h c evt) (exec (claim_TryClaim env (extractID evt) ttl) w)) \<and>
    run_state (shp_callback env U c [Some (mw_WithTryClaim (redis_claim_store env) ttl extractID)] h
      (delivery msg 2)) w1 =
      (Returns (), exec (settle Ack) (exec (claim_TryClaim env (extractID evt) ttl) w1))"
proof -
  let ?m = "mw_WithTryClaim (redis_claim_store env) ttl extractID h c evt"
  note claim = redis_claims.claim_then_skip [where env = env and view = view and w = w and
      extractID = extractID and evt = evt and ttl = ttl and h = h and c = c,
      OF redis_claims.intro [OF assms(1)] assms(3,4,5,6)]
  have run: "run_state ?m w = run_state (h c evt) (exec (claim_TryClaim env (extractID evt) ttl) w)"
    by (rule claim(1))
  have w1: "w1 = exec (settle Nak) (exec ?m w)"
    unfolding assms(8) shp_callback_def
    by (subst shp_consume_returns(4) [where evt = evt and r = "Some err"])
      (simp_all add: assms(2,7) run delivery_def shp_settlement_def)
  have lasting: "claimed_in view w1 (extractID evt)"
    using claim(2) by (simp add: w1 claimed_in_def settle_def)
  have again: "run_state ?m w1 = (Returns None, exec (claim_TryClaim env (extractID evt) ttl) w1)"
    by (rule claim(3)) (simp_all add: lasting)
  have "result ?m w1 = Returns None"
    by (simp add: again)
  note second = shp_consume_returns [where U = U and msg = "delivery msg 2" and evt = evt and env = env and
      wrapped = "mw_WithTryClaim (redis_claim_store env) ttl extractID h" and c = c and w = w1,
      OF _ this, simplified delivery_def, simplified, OF assms(2)]
  have "w1 = exec (settle Nak) (exec (h c evt) (exec (claim_TryClaim env (extractID evt) ttl) w))"
    by (simp add: w1 run)
  moreover have "run_state (shp_callback env U c [Some (mw_WithTryClaim (redis_claim_store env) ttl extractID)] h
      (delivery msg 2)) w1 = (Returns (), exec (settle Ack) (exec (claim_TryClaim env (extractID evt) ttl) w1))"
    using second(1,4) by (simp add: shp_callback_def delivery_def shp_settlement_def again prod_eq_iff)
  ultimately show ?thesis
    by blast
qed

lemma quiet_TryClaim:
  "run_state (claim_TryClaim quiet_env eid ttl) u =
    (if w_redis u (claim_key eid) = None
     then ((True, None), u\<lparr>w_redis := (w_redis u)(claim_key eid \<mapsto> MString ''1'')\<rparr>) else ((False, None), u))"
  by (simp add: claim_TryClaim_def on_redis_def mem_api_def)

theorem failed_claim_is_lost_witness:
  "let call = shp_callback quiet_env (\<lambda>_. Inr ()) background
      [Some (mw_WithTryClaim (redis_claim_store quiet_env) 1 (\<lambda>_. ''O1''))] (\<lambda>_. failing_handler) in
    w_settled (exec (call (delivery demo_msg 2)) (exec (call (delivery demo_msg 1)) calm_world)) = [Nak, Ack]"
proof -
  let ?call = "shp_callback quiet_env (\<lambda>_. Inr ()) background
      [Some (mw_WithTryClaim (redis_claim_store quiet_env) 1 (\<lambda>_. ''O1''))] (\<lambda>_. failing_handler)"
  have both: "exec (?call (delivery demo_msg 1)) calm_world =
      exec (settle Nak) (exec (failing_handler ()) (exec (claim_TryClaim quiet_env ''O1'' 1) calm_world)) \<and>
    run_state (?call (delivery demo_msg 2)) (exec (?call (delivery demo_msg 1)) calm_world) =
      (Returns (), exec (settle Ack) (exec (claim_TryClaim quiet_env ''O1'' 1)
        (exec (?call (delivery demo_msg 1)) calm_world)))"
    by (rule failed_claim_is_lost [where extractID = "\<lambda>_. ''O1''" and view = mem_view and err = "ErrNew ''boom''"
        and evt = "()"])
      (rule refl | simp add: mem.redis_laws_axioms claimed_in_def mem_view_def calm_world_def
        quiet_TryClaim failing_handler_def)+
  have first: "exec (?call (delivery demo_msg 1)) calm_world =
      calm_world\<lparr>w_redis := [claim_key ''O1'' \<mapsto> MString ''1''], w_settled := [Nak]\<rparr>"
    using conjunct1 [OF both] by (simp add: quiet_TryClaim settle_def failing_handler_def calm_world_def)
  show ?thesis
    unfolding Let_def
    by (simp only: conjunct2 [OF both] snd_conv)
      (simp only: first, simp add: quiet_TryClaim settle_def calm_world_def)
qed


definition panicking_handler :: "('w, unit) ctx_Handler" where
  "panicking_handler c evt = State_Monad.return (Panics ''boom'')"

definition metrics_world :: "mem_redis met_world" where
  "metrics_world = \<lparr>w_redis = Map.empty, w_pub = [], w_settled = [], w_tick = 0,
     w_metrics = metrics_init\<rparr>"


text \<open>
  \<open>Metrics\<close> outside \<open>Panics\<close> counts every handled message as one request and
  every failure, a panic included, as one error, and \<open>Panics\<close> counts the panic and turns
  it into an error; nil entries of the chain are skipped. In the other order a panic passes
  \<open>Metrics\<close> uncounted: neither the requests nor the errors move.
\<close>

theorem middleware_counts:
  assumes "\<And>c u. w_metrics (exec (h c evt) u) = w_metrics u"
  shows "let outer = wrapMiddleware [Some (mw_Metrics ng), None, Some mw_Panics] h;
      swapped = wrapMiddleware [Some mw_Panics, None, Some (mw_Metrics ng)] h;
      r = result (h (metrics_Inject c) evt) w;
      m = w_metrics w; m' = w_metrics (exec (outer c evt) w); m'' = w_metrics (exec (swapped c evt) w) in
    result (outer c evt) w = Returns (recovered r) \<and>
    mt_requests m' = mt_requests m + 1 \<and>
    mt_errors m' = mt_errors m + (if r = Returns None then 0 else 1) \<and>
    mt_panics m' = mt_panics m + panics_of r \<and>
    (\<forall>p. r = Panics p \<longrightarrow> mt_requests m'' = mt_requests m \<and> mt_errors m'' = mt_errors m \<and>
      mt_panics m'' = mt_panics m + 1)"
proof -
  let ?r = "result (h (metrics_Inject c) evt) w"
  have "(\<exists>e. recovered ?r = Some e) \<longleftrightarrow> ?r \<noteq> Returns None"
    by (cases ?r) (auto simp: recovered_def)
  then show ?thesis
    by (cases ?r) (auto simp: Let_def chain_runs assms panics_of_def)
qed

theorem middleware_counts_witness:
  "mt_errors (w_metrics (exec (wrapMiddleware [Some (mw_Metrics (\<lambda>_. 7)), None, Some mw_Panics]
      panicking_handler background ()) metrics_world)) = 1"
  using middleware_counts [of panicking_handler "()" "\<lambda>_. 7" background metrics_world]
  by (simp add: Let_def panicking_handler_def metrics_world_def metrics_init_def)

end
