(* ===== verification/Shp_Claims.thy ===== *)
theory Shp_Claims
  imports Inv_Progress Shp_Messaging
begin

section \<open>Overlapping callbacks of the shipment messaging\<close>

text \<open>
  The consumer callback of the shipment service with its middleware chain as a program of
  one step per outside call (\<open>Inv_Tasks\<close>), that it is the callback of \<open>Shp_Messaging\<close>
  when nothing interrupts it, and what \<open>WithTryClaim\<close> gives when deliveries of one event
  overlap: at most one of them gets to the handler.
\<close>

subsection \<open>Middleware as programs\<close>

type_synonym ('w, 'evt) ctx_handler_p = "ctx \<Rightarrow> 'evt \<Rightarrow> ('w, goerr option call) prog"

type_synonym ('w, 'evt) middleware_p = "('w, 'evt) ctx_handler_p \<Rightarrow> ('w, 'evt) ctx_handler_p"

definition wrapMiddleware_p ::
  "('w, 'evt) middleware_p option list \<Rightarrow> ('w, 'evt) ctx_handler_p \<Rightarrow> ('w, 'evt) ctx_handler_p" where
  "wrapMiddleware_p mw handler =
     fold (\<lambda>mwFunc h. case mwFunc of None \<Rightarrow> h | Some f \<Rightarrow> f h) (rev mw) handler"

definition Panics_p :: "(('c, 'x) met_world_scheme, 'evt) middleware_p" where
  "Panics_p next ctx evt =
     bindp (next ctx evt) (\<lambda>r.
       case r of
         Returns e \<Rightarrow> Ret (Returns e)
       | Panics p \<Rightarrow> bindp (atom AddPanic) (\<lambda>_. Ret (Returns (Some (ErrMsg (''panic: '' @ p))))))"

definition Timeout_p :: "('c, 'm) env \<Rightarrow> int \<Rightarrow> (('c, 'x) world_scheme, 'evt) middleware_p" where
  "Timeout_p env d next ctx evt =
     bindp (atom (time_Now env)) (\<lambda>t. next (ctx\<lparr>cx_Deadline := earlier (cx_Deadline ctx) (t + d)\<rparr>) evt)"

text \<open>\<open>AddRequest\<close> is two calls: the counter is raised, then read, by then perhaps raised again.\<close>

definition AddRequest_p :: "(('c, 'x) met_world_scheme, int64) prog" where
  "AddRequest_p =
     bindp (atom (State (\<lambda>w. ((), w\<lparr>w_metrics := (w_metrics w)\<lparr>mt_requests := mt_requests (w_metrics w) + 1\<rparr>\<rparr>))))
       (\<lambda>_. atom (State (\<lambda>w. (mt_requests (w_metrics w), w))))"

definition Metrics_p :: "(nat \<Rightarrow> int64) \<Rightarrow> (('c, 'x) met_world_scheme, 'evt) middleware_p" where
  "Metrics_p NumGoroutine next ctx evt =
     bindp (next (metrics_Inject ctx) evt) (\<lambda>r.
       case r of
         Panics p \<Rightarrow> Ret (Panics p)
       | Returns err \<Rightarrow>
           bindp AddRequest_p (\<lambda>n.
           bindp (if sint n mod 1000 = 0 then atom (UpdateGoroutines NumGoroutine) else Ret 0) (\<lambda>_.
           bindp (if err \<noteq> None then atom AddError else Ret 0) (\<lambda>_.
             Ret (Returns err)))))"

definition WithTryClaim_p ::
  "('c, 'm) env \<Rightarrow> int \<Rightarrow> ('evt \<Rightarrow> string) \<Rightarrow> (('c, 'x) world_scheme, 'evt) middleware_p" where
  "WithTryClaim_p env ttl extractID next ctx evt =
     (let eid = extractID evt in
      if eid = [] then next ctx evt
      else
        bindp (atom (claim_TryClaim env eid ttl)) (\<lambda>c.
          if snd c \<noteq> None then Ret (Returns (snd c))
          else if \<not> fst c then Ret (Returns None)
          else next ctx evt))"

definition shp_WithIdempotency_p ::
  "('c, 'm) env \<Rightarrow> int \<Rightarrow> ('evt \<Rightarrow> string) \<Rightarrow> (('c, 'x) world_scheme, 'evt) middleware_p" where
  "shp_WithIdempotency_p env ttl extractID next ctx evt =
     (let eid = extractID evt in
      if eid = [] then next ctx evt
      else
        bindp (atom (claim_Seen env eid)) (\<lambda>s.
          if fst s then Ret (Returns None)
          else
            bindp (next ctx evt) (\<lambda>r.
              case r of
                Panics p \<Rightarrow> Ret (Panics p)
              | Returns (Some err) \<Rightarrow> Ret (Returns (Some err))
              | Returns None \<Rightarrow> bindp (atom (claim_Mark env eid ttl)) (\<lambda>m. Ret (Returns m)))))"

subsection \<open>The callback\<close>

definition shp_PublishDLQ_p ::
  "('c, 'm) env \<Rightarrow> nats_msg \<Rightarrow> string \<Rightarrow> (('c, 'x) world_scheme, goerr option) prog" where
  "shp_PublishDLQ_p env original reason =
     bindp (atom (inject_header env ((nm_Header original)
         (''dlq-reason'' \<mapsto> [reason], ''dlq-original-subject'' \<mapsto> [nm_Subject original])))) (\<lambda>hdr.
     bindp (atom (uuid_NewString env)) (\<lambda>msgId.
       atom (js_PublishMsg env \<lparr>pc_Subject = dlq_subject (nm_Subject original), pc_Data = nm_Data original,
         pc_Header = hdr, pc_MsgId = msgId\<rparr>)))"

definition shp_consume_p ::
  "('c, 'm) env \<Rightarrow> (string \<Rightarrow> goerr + 'evt) \<Rightarrow> ctx \<Rightarrow> (('c, 'x) world_scheme, 'evt) ctx_handler_p \<Rightarrow> nats_msg \<Rightarrow>
   (('c, 'x) world_scheme, unit call) prog" where
  "shp_consume_p env Unmarshal ctx wrapped msg =
     (case Unmarshal (nm_Data msg) of
        Inl _ \<Rightarrow> bindp (atom (settle Term)) (\<lambda>_. Ret (Returns ()))
      | Inr evt \<Rightarrow>
          bindp (wrapped ctx evt) (\<lambda>r.
            case r of
              Panics p \<Rightarrow> Ret (Panics p)
            | Returns None \<Rightarrow> bindp (atom (settle Ack)) (\<lambda>_. Ret (Returns ()))
            | Returns (Some err) \<Rightarrow>
                (case nm_NumDelivered msg of
                   Some n \<Rightarrow>
                     if 5 \<le> n
                     then bindp (shp_PublishDLQ_p env msg (error_text err)) (\<lambda>_.
                            bindp (atom (settle Term)) (\<lambda>_. Ret (Returns ())))
                     else bindp (atom (settle Nak)) (\<lambda>_. Ret (Returns ()))
                 | None \<Rightarrow> bindp (atom (settle Nak)) (\<lambda>_. Ret (Returns ())))))"

definition shp_callback_p ::
  "('c, 'm) env \<Rightarrow> (string \<Rightarrow> goerr + 'evt) \<Rightarrow> ctx \<Rightarrow> (('c, 'x) world_scheme, 'evt) middleware_p option list \<Rightarrow>
   (('c, 'x) world_scheme, 'evt) ctx_handler_p \<Rightarrow> nats_msg \<Rightarrow> (('c, 'x) world_scheme, unit call) prog" where
  "shp_callback_p env Unmarshal ctx mw handler = shp_consume_p env Unmarshal ctx (wrapMiddleware_p mw handler)"

subsection \<open>The program without interruption\<close>

text \<open>\<open>runs_as f g\<close>: the middleware program \<open>f\<close> is the middleware \<open>g\<close> when nothing interrupts it.\<close>

definition runs_as :: "('w, 'evt) middleware_p \<Rightarrow> ('w, 'evt) Middleware \<Rightarrow> bool" where
  "runs_as f g \<longleftrightarrow> (\<forall>next ctx evt. collapse (f next ctx evt) = g (\<lambda>c e. collapse (next c e)) ctx evt)"

lemma collapse_AddRequest [simp]: "collapse AddRequest_p = AddRequest"
  by (rule state_eqI) (simp add: AddRequest_p_def AddRequest_def Let_def)

lemma middleware_runs_as:
  "runs_as Panics_p mw_Panics" "runs_as (Timeout_p env d) (mw_Timeout env d)"
  "runs_as (Metrics_p ng) (mw_Metrics ng)"
  "runs_as (WithTryClaim_p env ttl ex) (mw_WithTryClaim (redis_claim_store env) ttl ex)"
  "runs_as (shp_WithIdempotency_p env ttl ex) (mw_WithIdempotency (redis_claim_store env) ttl ex shadowed)"
  by (simp_all add: runs_as_def Panics_p_def mw_Panics_def Timeout_p_def mw_Timeout_def Metrics_p_def mw_Metrics_def
      WithTryClaim_p_def mw_WithTryClaim_def shp_WithIdempotency_p_def mw_WithIdempotency_def redis_claim_store_def
      collapse_cases cong: case_congs)

lemma wrapMiddleware_p_simps [simp]:
  "wrapMiddleware_p [] h = h"
  "wrapMiddleware_p (m # mw) h = (case m of None \<Rightarrow> wrapMiddleware_p mw h | Some f \<Rightarrow> f (wrapMiddleware_p mw h))"
  by (cases m; simp add: wrapMiddleware_p_def)+

lemma collapse_wrapMiddleware:
  assumes "list_all2 (rel_option runs_as) mps ms"
  shows "collapse (wrapMiddleware_p mps h ctx evt) = wrapMiddleware ms (\<lambda>c e. collapse (h c e)) ctx evt"
  using assms
proof (induction arbitrary: ctx evt)
  case (Cons mp mps m ms)
  then have "(\<lambda>c e. collapse (wrapMiddleware_p mps h c e)) = wrapMiddleware ms (\<lambda>c e. collapse (h c e))"
    by (intro ext)
  with Cons.hyps(1) show ?case
    by (cases rule: option.rel_cases) (simp_all add: runs_as_def Cons.IH)
qed simp

lemma collapse_shp_PublishDLQ [simp]: "collapse (shp_PublishDLQ_p env m r) = shp_PublishDLQ env m r"
  by (simp add: shp_PublishDLQ_p_def shp_PublishDLQ_def)

lemma collapse_shp_consume:
  "collapse (shp_consume_p env U ctx h msg) = shp_consume env U ctx (\<lambda>c e. collapse (h c e)) msg"
  by (simp add: shp_consume_p_def shp_consume_def collapse_cases cong: case_congs)

text \<open>
  The callback program with any chain of these middleware functions, run without
  interruption, is the callback of \<open>Shp_Messaging\<close> with the chain they stand for.
\<close>

theorem shp_callback_program:
  assumes "list_all2 (rel_option runs_as) mps ms"
  shows "collapse (shp_callback_p env U ctx mps h msg) = shp_callback env U ctx ms (\<lambda>c e. collapse (h c e)) msg"
  by (simp add: shp_callback_p_def shp_callback_def collapse_shp_consume collapse_wrapMiddleware [OF assms])

subsection \<open>Deliveries that claim\<close>

text \<open>
  A delivery to a consumer whose chain is \<open>Panics\<close> and \<open>WithTryClaim\<close>; \<open>h\<close> is the
  handler with any further middleware around it.
\<close>

definition claim_task ::
  "('c, 'm) env \<Rightarrow> (string \<Rightarrow> goerr + 'evt) \<Rightarrow> int \<Rightarrow> ('evt \<Rightarrow> string) \<Rightarrow>
   (('c, 'x) met_world_scheme, 'evt) ctx_handler_p \<Rightarrow> nats_msg \<Rightarrow> (('c, 'x) met_world_scheme, unit) prog" where
  "claim_task env U ttl ex h msg =
     bindp (shp_callback_p env U background [Some Panics_p, Some (WithTryClaim_p env ttl ex)] h msg) (\<lambda>_. Ret ())"

text \<open>What is left of a delivery once the handler, behind the claim, is entered.\<close>

definition handling_p ::
  "('c, 'm) env \<Rightarrow> (('c, 'x) met_world_scheme, goerr option call) prog \<Rightarrow> nats_msg \<Rightarrow>
   (('c, 'x) met_world_scheme, unit) prog" where
  "handling_p env p msg =
     bindp (shp_consume_p env (\<lambda>_. Inr ()) background (Panics_p (\<lambda>_ _. p)) msg) (\<lambda>_. Ret ())"

lemma claim_task_step:
  assumes "U (nm_Data msg) = Inr evt" and "ex evt \<noteq> []"
  shows "claim_task env U ttl ex h msg = bindp (atom (claim_TryClaim env (ex evt) ttl)) (\<lambda>c.
    if snd c \<noteq> None then handling_p env (Ret (Returns (snd c))) msg
    else if fst c then handling_p env (h background evt) msg else bindp (atom (settle Ack)) (\<lambda>_. Ret ()))"
  using assms
  by (simp add: claim_task_def shp_callback_p_def shp_consume_p_def Panics_p_def WithTryClaim_p_def Let_def
      bindp_assoc)
    (auto intro!: arg_cong2 [of _ _ _ _ bindp] simp: fun_eq_iff bindp_assoc handling_p_def shp_consume_p_def
      Panics_p_def split: call.split)

lemma claim_first_step:
  assumes "U (nm_Data msg) = Inr evt" and "ex evt \<noteq> []"
  shows "\<exists>m. claim_task env U ttl ex h msg = Step m \<and>
    (\<forall>w. let c = result (claim_TryClaim env (ex evt) ttl) w in
      exec m w = exec (claim_TryClaim env (ex evt) ttl) w \<and>
      result m w = (if snd c \<noteq> None then handling_p env (Ret (Returns (snd c))) msg
        else if fst c then handling_p env (h background evt) msg else bindp (atom (settle Ack)) (\<lambda>_. Ret ())))"
  using assms by (simp add: claim_task_step bindp_atom Let_def)

text \<open>A delivery of the event \<open>eid\<close> that has not made its first call.\<close>

definition fresh_claim ::
  "('c, 'm) env \<Rightarrow> (string \<Rightarrow> goerr + 'evt) \<Rightarrow> int \<Rightarrow> ('evt \<Rightarrow> string) \<Rightarrow> (('c, 'x) met_world_scheme, 'evt) ctx_handler_p \<Rightarrow>
   string \<Rightarrow> (('c, 'x) met_world_scheme, unit) prog \<Rightarrow> bool" where
  "fresh_claim env U ttl ex h eid p \<longleftrightarrow>
     (\<exists>msg evt. U (nm_Data msg) = Inr evt \<and> ex evt = eid \<and> p = claim_task env U ttl ex h msg)"

text \<open>
  The runs of such deliveries, all of the event \<open>eid\<close>: they arrive at any time, make
  their calls in any order, die with their process, and Redis may change by itself as
  \<open>R\<close> says. The number counts how often a delivery passed from its claim into the handler.
\<close>

inductive claim_runs ::
  "('c, 'm) env \<Rightarrow> (string \<Rightarrow> goerr + 'evt) \<Rightarrow> int \<Rightarrow> ('evt \<Rightarrow> string) \<Rightarrow> (('c, 'x) met_world_scheme, 'evt) ctx_handler_p \<Rightarrow>
   string \<Rightarrow> ('c \<Rightarrow> 'c \<Rightarrow> bool) \<Rightarrow> ('c, 'x) met_world_scheme \<Rightarrow> nat \<Rightarrow>
   ('c, 'x) met_world_scheme \<Rightarrow> (('c, 'x) met_world_scheme) task list \<Rightarrow> bool"
  for env U ttl ex h eid R w0 where
  claim_start: "claim_runs env U ttl ex h eid R w0 0 w0 []"
| claim_deliver: "claim_runs env U ttl ex h eid R w0 n w ts \<Longrightarrow> fresh_claim env U ttl ex h eid p \<Longrightarrow>
    claim_runs env U ttl ex h eid R w0 n w (ts @ [Running p])"
| claim_call: "claim_runs env U ttl ex h eid R w0 n w ts \<Longrightarrow> i < length ts \<Longrightarrow> ts ! i = Running (Step m) \<Longrightarrow>
    claim_runs env U ttl ex h eid R w0
      (if fresh_claim env U ttl ex h eid (Step m) \<and> fst (result (claim_TryClaim env eid ttl) w) then Suc n else n)
      (exec m w) (ts[i := Running (result m w)])"
| claim_crash: "claim_runs env U ttl ex h eid R w0 n w ts \<Longrightarrow> i < length ts \<Longrightarrow> ts ! i = Running (Step m) \<Longrightarrow>
    claim_runs env U ttl ex h eid R w0 n w (ts[i := Killed])"
| claim_redis: "claim_runs env U ttl ex h eid R w0 n w ts \<Longrightarrow> R (w_redis w) c \<Longrightarrow>
    claim_runs env U ttl ex h eid R w0 n (w\<lparr>w_redis := c\<rparr>) ts"

context redis_claims
begin

lemma claim_answer:
  assumes "snd (result (claim_TryClaim env eid ttl) w) = None"
  shows "fst (result (claim_TryClaim env eid ttl) w) \<longleftrightarrow> \<not> claimed_in view w eid"
    and "claimed_in view (exec (claim_TryClaim env eid ttl) w) eid"
  using claims.try_answer [of eid ttl w] claims.try_claims [of eid ttl w] assms
  by (simp_all add: redis_claim_store_def)

end

lemma try_claim:
  assumes "redis_up (e_redis env) view"
  shows "fst (result (claim_TryClaim env eid ttl) w) \<longleftrightarrow> \<not> claimed_in view w eid"
    and "claimed_in view (exec (claim_TryClaim env eid ttl) w) eid"
proof -
  have laws: "redis_claims env view"
    using assms by (simp add: redis_claims_def redis_up_def)
  have "snd (result (claim_TryClaim env eid ttl) w) = None"
    by (simp add: claim_TryClaim_def on_redis_def split_beta redis_up.setnx_up [OF assms])
  from redis_claims.claim_answer [OF laws this]
  show "fst (result (claim_TryClaim env eid ttl) w) \<longleftrightarrow> \<not> claimed_in view w eid"
    "claimed_in view (exec (claim_TryClaim env eid ttl) w) eid" .
qed

text \<open>Everything around the handler keeps the claim.\<close>

lemma keeps_claim_calls:
  assumes "redis_up (e_redis env) view"
    and C: "C = (\<lambda>w :: ('c, 'x) met_world_scheme. claimed_in view w eid)"
  shows "keeps_p C any (atom (claim_TryClaim env eid ttl))" "keeps_p C any (atom (settle s))"
    "keeps_p C any (atom AddPanic)" "keeps_p C any (shp_PublishDLQ_p env msg reason)"
proof -
  show "keeps_p C any (atom (claim_TryClaim env eid ttl))"
    unfolding C by (rule keeps_atom) (simp add: try_claim [OF assms(1)])
  show "keeps_p C any (atom (settle s))" "keeps_p C any (atom AddPanic)" "keeps_p C any (shp_PublishDLQ_p env msg reason)"
    unfolding C shp_PublishDLQ_p_def
    by (intro keeps_bindp [where Q = any] keeps_atom; simp add: claimed_in_def settle_def AddPanic_def Let_def run_defs tick_def)+
qed

lemma keeps_fresh:
  assumes "redis_up (e_redis env) view" and "fresh_claim env U ttl ex h eid p"
    and "\<And>evt. keeps_p (\<lambda>w. claimed_in view w eid) any (h background evt)"
  shows "keeps_p (\<lambda>w. claimed_in view w eid) any p"
  using assms(2,3)
  by (auto simp: fresh_claim_def claim_task_def shp_callback_p_def shp_consume_p_def Panics_p_def WithTryClaim_p_def
      Let_def intro!: keeps_bindp [where Q = any] keeps_p.keeps_Ret keeps_claim_calls [OF assms(1) refl]
      split: call.split option.split)

lemma fresh_call:
  assumes "redis_up (e_redis env) view" and "eid \<noteq> []" and "fresh_claim env U ttl ex h eid (Step m)"
    and "\<And>evt. keeps_p (\<lambda>w. claimed_in view w eid) any (h background evt)"
  shows "claimed_in view (exec m w) eid" and "keeps_p (\<lambda>w. claimed_in view w eid) any (result m w)"
proof -
  from assms(3) obtain msg evt where evt: "U (nm_Data msg) = Inr evt" "ex evt = eid"
    "claim_task env U ttl ex h msg = Step m"
    by (auto simp: fresh_claim_def)
  with claim_first_step [of U msg evt ex env ttl h] assms(2)
  have m: "exec m w = exec (claim_TryClaim env eid ttl) w"
    "result m w = (let c = result (claim_TryClaim env eid ttl) w in
      if snd c \<noteq> None then handling_p env (Ret (Returns (snd c))) msg
      else if fst c then handling_p env (h background evt) msg else bindp (atom (settle Ack)) (\<lambda>_. Ret ()))"
    by (auto simp: Let_def)
  then show "claimed_in view (exec m w) eid"
    by (simp add: try_claim [OF assms(1)])
  show "keeps_p (\<lambda>w. claimed_in view w eid) any (result m w)"
    unfolding m(2) Let_def using assms(4)
    by (auto simp: handling_p_def shp_consume_p_def Panics_p_def intro!: keeps_bindp [where Q = any] keeps_p.keeps_Ret
        keeps_claim_calls [OF assms(1) refl] split: call.split option.split)
qed

text \<open>
  The invariant: as long as the event is not claimed, no delivery has made a call; from then
  on every running program keeps the claim, and at most one delivery has won it.
\<close>

definition claim_inv ::
  "(('c, 'x) met_world_scheme \<Rightarrow> bool) \<Rightarrow> ((('c, 'x) met_world_scheme, unit) prog \<Rightarrow> bool) \<Rightarrow> nat \<Rightarrow>
   ('c, 'x) met_world_scheme \<Rightarrow> (('c, 'x) met_world_scheme) task list \<Rightarrow> bool" where
  "claim_inv C fresh n w ts \<longleftrightarrow> n \<le> 1 \<and>
     (if C w then \<forall>p. Running p \<in> set ts \<longrightarrow> keeps_p C any p
      else n = 0 \<and> (\<forall>p. Running p \<in> set ts \<longrightarrow> fresh p))"

lemma claim_runs_inv:
  assumes up: "redis_up (e_redis env) view" and "eid \<noteq> []" and "\<not> claimed_in view w0 eid"
    and h: "\<And>evt. keeps_p (\<lambda>w. claimed_in view w eid) any (h background evt)"
    and R: "\<And>c c'. R c c' \<Longrightarrow> view c (claim_key eid) \<noteq> None \<Longrightarrow> view c' (claim_key eid) \<noteq> None"
    and "claim_runs env U ttl ex h eid R w0 n w ts"
  shows "claim_inv (\<lambda>w. claimed_in view w eid) (fresh_claim env U ttl ex h eid) n w ts"
proof -
  note fresh = keeps_fresh [where env = env and view = view and eid = eid and h = h, OF up _ h]
  note call = fresh_call [where env = env and view = view and eid = eid and h = h, OF up assms(2) _ h]
  show ?thesis
    using assms(6)
  proof induction
    case claim_start
    show ?case using assms(3) by (simp add: claim_inv_def)
  next
    case (claim_deliver n w ts p)
    then show ?case
      using fresh by (auto simp: claim_inv_def)
  next
    case (claim_call n w ts i m)
    have running: "Running (Step m) \<in> set ts"
      using claim_call.hyps(2,3) by (metis nth_mem)
    show ?case
    proof (cases "claimed_in view w eid")
      case True
      with claim_call.IH running have "keeps_p (\<lambda>w. claimed_in view w eid) any (Step m)"
        by (auto simp: claim_inv_def)
      with True have "claimed_in view (exec m w) eid" "keeps_p (\<lambda>w. claimed_in view w eid) any (result m w)"
        by (auto elim: keeps_StepE)
      then show ?thesis
        using claim_call.IH True try_claim(1) [OF up]
        by (auto simp: claim_inv_def dest: set_update_subset_insert [THEN subsetD])
    next
      case False
      with claim_call.IH running have m: "fresh_claim env U ttl ex h eid (Step m)" "n = 0"
        and ts: "\<forall>p. Running p \<in> set ts \<longrightarrow> fresh_claim env U ttl ex h eid p"
        by (auto simp: claim_inv_def)
      have "\<forall>p. Running p \<in> set (ts[i := Running (result m w)]) \<longrightarrow> keeps_p (\<lambda>w. claimed_in view w eid) any p"
        using call(2) [OF m(1)] ts fresh by (auto dest!: set_update_subset_insert [THEN subsetD])
      then show ?thesis
        using call(1) [OF m(1)] m(2) by (simp add: claim_inv_def)
    qed
  next
    case (claim_crash n w ts i m)
    then show ?case
      by (auto simp: claim_inv_def dest: set_update_subset_insert [THEN subsetD])
  next
    case (claim_redis n w ts c)
    have "claimed_in view w eid \<Longrightarrow> claimed_in view (w\<lparr>w_redis := c\<rparr>) eid"
      using R [OF claim_redis.hyps(2)] by (simp add: claimed_in_def)
    then show ?case
      using claim_redis.IH fresh by (auto simp: claim_inv_def split: if_splits)
  qed
qed

subsection \<open>Properties\<close>

text \<open>A delivery that finds the event claimed: its first call leaves it with the acknowledgement only.\<close>

lemma later_delivery_acked:
  assumes "redis_up (e_redis env) view" and "claimed_in view w eid" and "eid \<noteq> []"
    and "fresh_claim env U ttl ex h eid p"
  shows "\<exists>m. p = Step m \<and> exec m w = exec (claim_TryClaim env eid ttl) w \<and>
    result m w = bindp (atom (settle Ack)) (\<lambda>_. Ret ())"
proof -
  have "snd (result (claim_TryClaim env eid ttl) w) = None"
    by (simp add: claim_TryClaim_def on_redis_def split_beta redis_up.setnx_up [OF assms(1)])
  moreover obtain msg evt where "U (nm_Data msg) = Inr evt" "ex evt = eid" "p = claim_task env U ttl ex h msg"
    using assms(4) by (auto simp: fresh_claim_def)
  ultimately show ?thesis
    using claim_first_step [of U msg evt ex env ttl h] assms(2,3) try_claim(1) [OF assms(1), of eid ttl w]
    by (auto simp: Let_def)
qed

text \<open>
  C32: \<open>WithTryClaim\<close> admits one delivery for as long as Redis answers every command and
  keeps the claim (\<open>R\<close>: no change of Redis by itself removes it, so its time to live has not
  run out), and as the handler does not touch it. Of all deliveries of one event with an id
  that is not claimed at the start, in any number and however they overlap, die and fail, at
  most one passes from its claim into the handler. From the moment one has, the first call of
  every other delivery, whenever it comes in the interleaving, leaves it with nothing to do
  but to acknowledge, also when the one that won has failed or died.
\<close>

theorem claims_admit_one:
  assumes "redis_up (e_redis env) view" and "eid \<noteq> []" and "\<not> claimed_in view w0 eid"
    and "\<And>evt. keeps_p (\<lambda>w. claimed_in view w eid) any (h background evt)"
    and "\<And>c c'. R c c' \<Longrightarrow> view c (claim_key eid) \<noteq> None \<Longrightarrow> view c' (claim_key eid) \<noteq> None"
    and "claim_runs env U ttl ex h eid R w0 n w ts"
  shows "n \<le> 1 \<and> (n = 1 \<longrightarrow> (\<forall>p. fresh_claim env U ttl ex h eid p \<longrightarrow>
    (\<exists>m. p = Step m \<and> exec m w = exec (claim_TryClaim env eid ttl) w \<and>
      result m w = bindp (atom (settle Ack)) (\<lambda>_. Ret ()))))"
proof -
  have "claim_inv (\<lambda>w. claimed_in view w eid) (fresh_claim env U ttl ex h eid) n w ts"
    by (rule claim_runs_inv [where env = env and view = view and h = h, OF assms])
  then show ?thesis
    using later_delivery_acked [OF assms(1) _ assms(2), of w U]
    by (auto simp: claim_inv_def split: if_splits)
qed

definition failing_p :: "(mem_redis met_world, unit) ctx_handler_p" where
  "failing_p c evt = Ret (Returns (Some (ErrMsg ''down'')))"

theorem claims_admit_one_witness:
  "\<exists>m' w ts. claim_runs quiet_env (\<lambda>_. Inr ()) 60 (\<lambda>_. ''E1'') failing_p ''E1'' (\<lambda>_ _. False) metrics_world 1 w ts \<and>
    claim_task quiet_env (\<lambda>_. Inr ()) 60 (\<lambda>_. ''E1'') failing_p demo_msg = Step m' \<and>
    result m' w = bindp (atom (settle Ack)) (\<lambda>_. Ret ())"
proof -
  let ?U = "\<lambda>_. Inr ()" and ?ex = "\<lambda>_. ''E1''"
  let ?task = "claim_task quiet_env ?U 60 ?ex failing_p demo_msg" and ?R = "\<lambda>_ _. False"
  obtain m where m: "?task = Step m" "exec m metrics_world = exec (claim_TryClaim quiet_env ''E1'' 60) metrics_world"
    using claim_first_step [of ?U demo_msg "()" ?ex quiet_env 60 failing_p] by (auto simp: Let_def)
  have fresh: "fresh_claim quiet_env ?U 60 ?ex failing_p ''E1'' (Step m)"
    unfolding fresh_claim_def using m(1) [symmetric] by auto
  have free: "\<not> claimed_in mem_view metrics_world ''E1''"
    by (simp add: claimed_in_def metrics_world_def mem_view_def)
  have run: "claim_runs quiet_env ?U 60 ?ex failing_p ''E1'' ?R metrics_world 1
      (exec m metrics_world) [Running (result m metrics_world)]"
    using claim_call [OF claim_deliver [OF claim_start [of _ _ _ _ _ _ ?R metrics_world] fresh], of 0 m] fresh free
      try_claim(1) [OF quiet_redis_up, of "''E1''" 60 metrics_world] by simp
  have h: "keeps_p (\<lambda>w. claimed_in mem_view w ''E1'') any (failing_p background evt)" for evt
    by (simp add: failing_p_def keeps_p.keeps_Ret)
  from claims_admit_one [OF quiet_redis_up _ free h _ run] fresh obtain m' where
    "Step m = Step m'" "result m' (exec m metrics_world) = bindp (atom (settle Ack)) (\<lambda>_. Ret ())"
    by auto
  with run m(1) show ?thesis by blast
qed

end
