(* ===== verification/DBArray.thy ===== *)
theory DBArray
  imports Strconv "HOL-Library.Sublist"
begin

section \<open>PostgreSQL array texts: parseArray\<close>

text \<open>
  \<open>parseArray\<close> and \<open>scanLinearArray\<close> of
  \<open>pkg/sdks/sqldb/dbarray/dbarray.go\<close>. A position \<open>i\<close> of the Go code is the suffix
  \<open>src[i:]\<close> here; the offset of an error is the difference of the lengths. The loop
  between the \<open>Element\<close> label and its \<open>goto\<close> is \<open>parse_loop\<close>, a
  \<open>partial_function\<close>: \<open>None\<close> is a run that never returns, which an empty delimiter
  can cause. \<open>Panics\<close> is the integer division by zero in the final check of the
  dimensions. The theory proves that neither happens for a nonempty delimiter, and that a
  rendered one-dimensional array parses back.
\<close>

datatype arr_error =
    Expected char nat
  | Unexpected char nat
  | DimensionsMismatch
  | MultiDimensional "nat list" string

type_synonym elem = "string option"

subsection \<open>Reading an element\<close>

text \<open>
  A quoted element, from behind its opening quote: its bytes and the rest of the text.
  \<open>None\<close>: the text ends before the closing quote.
\<close>

fun read_quoted :: "bool \<Rightarrow> string \<Rightarrow> string \<Rightarrow> (string \<times> string) option" where
  "read_quoted escape e [] = None"
| "read_quoted escape e (c # s) =
     (if escape then read_quoted False (e @ [c]) s
      else if c = CHR 0x5C then read_quoted True e s
      else if c = CHR 0x22 then Some (e, s)
      else read_quoted False (e @ [c]) s)"

text \<open>
  An unquoted element ends before a delimiter or a closing brace. The result is the element
  and the rest; \<open>None\<close>: the text ends first.
\<close>

fun read_plain :: "string \<Rightarrow> string \<Rightarrow> string \<Rightarrow> (string \<times> string) option" where
  "read_plain del e [] = None"
| "read_plain del e (c # s) =
     (if prefix del (c # s) \<or> c = CHR ''}'' then Some (e, c # s)
      else read_plain del (e @ [c]) s)"

text \<open>Where the scanner stands: the rest of the text, the depth, the dimensions, the elements.\<close>

record scan_state =
  sc_rest :: string
  sc_depth :: nat
  sc_dims :: "nat list"
  sc_elems :: "elem list"

text \<open>The loop at label \<open>Element\<close>: opening braces up to the known depth, then one element.\<close>

fun array_element :: "nat \<Rightarrow> string \<Rightarrow> string \<Rightarrow> nat \<Rightarrow> nat list \<Rightarrow> elem list \<Rightarrow> arr_error + scan_state" where
  "array_element n del [] depth dims elems = Inr \<lparr>sc_rest = [], sc_depth = depth, sc_dims = dims, sc_elems = elems\<rparr>"
| "array_element n del (c # s) depth dims elems =
     (if c = CHR ''{'' then
        if depth = length dims
        then Inr \<lparr>sc_rest = c # s, sc_depth = depth, sc_dims = dims, sc_elems = elems\<rparr>
        else array_element n del s (Suc depth) (dims[depth := 0]) elems
      else if c = CHR 0x22 then
        (case read_quoted False [] s of
           None \<Rightarrow> Inr \<lparr>sc_rest = [], sc_depth = depth, sc_dims = dims, sc_elems = elems\<rparr>
         | Some (e, s') \<Rightarrow> Inr \<lparr>sc_rest = s', sc_depth = depth, sc_dims = dims, sc_elems = elems @ [Some e]\<rparr>)
      else
        (case read_plain del [] (c # s) of
           None \<Rightarrow> Inr \<lparr>sc_rest = [], sc_depth = depth, sc_dims = dims, sc_elems = elems\<rparr>
         | Some (e, s') \<Rightarrow>
             if e = [] then Inl (Unexpected (hd s') (n - length s'))
             else Inr \<lparr>sc_rest = s', sc_depth = depth, sc_dims = dims,
               sc_elems = elems @ [if e = ''NULL'' then None else Some e]\<rparr>))"

text \<open>
  The loop behind an element: closing braces, until the text ends (\<open>Finished\<close>) or a
  delimiter sends the control back to \<open>Element\<close> (\<open>Again\<close>).
\<close>

datatype after = Finished nat "nat list" | Again string nat "nat list"

fun array_after :: "nat \<Rightarrow> string \<Rightarrow> string \<Rightarrow> nat \<Rightarrow> nat list \<Rightarrow> arr_error + after" where
  "array_after n del [] depth dims = Inr (Finished depth dims)"
| "array_after n del (c # s) depth dims =
     (if prefix del (c # s) \<and> 0 < depth then
        Inr (Again (drop (length del) (c # s)) depth (dims[depth - 1 := Suc (dims ! (depth - 1))]))
      else if c = CHR ''}'' \<and> 0 < depth then
        array_after n del s (depth - 1) (dims[depth - 1 := Suc (dims ! (depth - 1))])
      else Inl (Unexpected c (n - length (c # s))))"

partial_function (option) parse_loop ::
  "nat \<Rightarrow> string \<Rightarrow> string \<Rightarrow> nat \<Rightarrow> nat list \<Rightarrow> elem list \<Rightarrow> (arr_error + scan_state) option" where
  "parse_loop n del s depth dims elems =
     (case array_element n del s depth dims elems of
        Inl err \<Rightarrow> Some (Inl err)
      | Inr st \<Rightarrow>
          (case array_after n del (sc_rest st) (sc_depth st) (sc_dims st) of
             Inl err \<Rightarrow> Some (Inl err)
           | Inr (Finished depth' dims') \<Rightarrow>
               Some (Inr \<lparr>sc_rest = [], sc_depth = depth', sc_dims = dims', sc_elems = sc_elems st\<rparr>)
           | Inr (Again s' depth' dims') \<Rightarrow> parse_loop n del s' depth' dims' (sc_elems st)))"

subsection \<open>The whole text\<close>

text \<open>The loop at label \<open>Close\<close>.\<close>

fun array_close :: "nat \<Rightarrow> string \<Rightarrow> nat \<Rightarrow> arr_error + nat" where
  "array_close n [] depth = Inr depth"
| "array_close n (c # s) depth =
     (if c = CHR ''}'' \<and> 0 < depth then array_close n s (depth - 1)
      else Inl (Unexpected c (n - length (c # s))))"

text \<open>The loop over the dimensions; it goes on after a mismatch.\<close>

fun check_dims :: "nat \<Rightarrow> nat list \<Rightarrow> arr_error option \<Rightarrow> arr_error option call" where
  "check_dims k [] err = Returns err"
| "check_dims k (d # ds) err =
     (if d = 0 then Panics ''runtime error: integer divide by zero''
      else check_dims k ds (if k mod d \<noteq> 0 then Some DimensionsMismatch else err))"

definition finish_array ::
  "nat \<Rightarrow> nat \<Rightarrow> nat list \<Rightarrow> elem list \<Rightarrow> (arr_error + (nat list \<times> elem list)) call" where
  "finish_array n depth dims elems =
     (if 0 < depth then Returns (Inl (Expected (CHR ''}'') n))
      else case check_dims (length elems) dims None of
          Panics p \<Rightarrow> Panics p
        | Returns (Some err) \<Rightarrow> Returns (Inl err)
        | Returns None \<Rightarrow> Returns (Inr (dims, elems)))"

text \<open>The opening braces: their number and the text behind them.\<close>

fun array_open :: "nat \<Rightarrow> string \<Rightarrow> nat \<times> string" where
  "array_open depth [] = (depth, [])"
| "array_open depth (c # s) = (if c = CHR ''{'' then array_open (Suc depth) s else (depth, c # s))"

definition parseArray :: "string \<Rightarrow> string \<Rightarrow> ((arr_error + (nat list \<times> elem list)) call) option" where
  "parseArray src del =
     (let n = length src in
      if src = [] \<or> hd src \<noteq> CHR ''{'' then Some (Returns (Inl (Expected (CHR ''{'') 0)))
      else
        (case array_open 0 src of (depth, s) \<Rightarrow>
           if s \<noteq> [] \<and> hd s = CHR ''}'' then
             (case array_close n s depth of
                Inl err \<Rightarrow> Some (Returns (Inl err))
              | Inr depth' \<Rightarrow> Some (finish_array n depth' [] []))
           else
             (case parse_loop n del s depth (replicate depth 0) [] of
                None \<Rightarrow> None
              | Some (Inl err) \<Rightarrow> Some (Returns (Inl err))
              | Some (Inr st) \<Rightarrow> Some (finish_array n (sc_depth st) (sc_dims st) (sc_elems st)))))"

definition scanLinearArray :: "string \<Rightarrow> string \<Rightarrow> string \<Rightarrow> ((arr_error + elem list) call) option" where
  "scanLinearArray src del typ =
     (case parseArray src del of
        None \<Rightarrow> None
      | Some (Panics p) \<Rightarrow> Some (Panics p)
      | Some (Returns (Inl err)) \<Rightarrow> Some (Returns (Inl err))
      | Some (Returns (Inr (dims, elems))) \<Rightarrow>
          if 1 < length dims then Some (Returns (Inl (MultiDimensional dims typ)))
          else Some (Returns (Inr elems)))"

subsection \<open>Termination\<close>

lemma read_quoted_shorter: "read_quoted b e s = Some (e', s') \<Longrightarrow> length s' < length s"
  by (induction b e s rule: read_quoted.induct) (auto split: if_splits)

lemma read_plain_shorter: "read_plain del e s = Some (e', s') \<Longrightarrow> length s' \<le> length s"
  by (induction del e s rule: read_plain.induct) (auto split: if_splits)

lemma array_element_shorter:
  "array_element n del s depth dims elems = Inr st \<Longrightarrow> length (sc_rest st) \<le> length s"
  by (induction n del s depth dims elems rule: array_element.induct)
    (auto split: if_splits option.splits dest!: read_quoted_shorter read_plain_shorter)

lemma array_after_shorter:
  "array_after n del s depth dims = Inr (Again s' depth' dims') \<Longrightarrow> del \<noteq> [] \<Longrightarrow> length s' < length s"
proof (induction n del s depth dims rule: array_after.induct)
  case (2 n del c s depth dims)
  show ?case
  proof (cases "prefix del (c # s) \<and> 0 < depth")
    case True
    with 2 have "s' = drop (length del) (c # s)"
      by simp
    with \<open>del \<noteq> []\<close> show ?thesis
      by (cases del) simp_all
  next
    case False
    with 2 show ?thesis
      by (auto split: if_splits)
  qed
qed simp

lemma parse_loop_returns:
  assumes "del \<noteq> []"
  shows "\<exists>r. parse_loop n del s depth dims elems = Some r"
proof (induction "length s" arbitrary: s depth dims elems rule: less_induct)
  case less
  show ?case
  proof (cases "array_element n del s depth dims elems")
    case (Inl err)
    then show ?thesis by (simp add: parse_loop.simps)
  next
    case (Inr st)
    have "\<exists>r. parse_loop n del s' d m (sc_elems st) = Some r"
      if "array_after n del (sc_rest st) (sc_depth st) (sc_dims st) = Inr (Again s' d m)" for s' d m
      using less array_element_shorter [OF Inr] array_after_shorter [OF that assms] by simp
    then show ?thesis
      using Inr by (simp add: parse_loop.simps [of n del s] split: sum.splits after.splits)
  qed
qed

subsection \<open>The final division never divides by zero\<close>

text \<open>Every dimension whose bracket is closed again has been counted.\<close>

definition dims_inv :: "nat \<Rightarrow> nat list \<Rightarrow> bool" where
  "dims_inv depth dims \<longleftrightarrow> depth \<le> length dims \<and> (\<forall>k. depth \<le> k \<and> k < length dims \<longrightarrow> 0 < dims ! k)"

lemma dims_inv_open: "dims_inv depth dims \<Longrightarrow> depth \<noteq> length dims \<Longrightarrow> dims_inv (Suc depth) (dims[depth := 0])"
  by (auto simp: dims_inv_def nth_list_update)

lemma dims_inv_count: "dims_inv depth dims \<Longrightarrow> dims_inv depth (dims[k := Suc v])"
  by (cases "k < length dims") (auto simp: dims_inv_def nth_list_update)

lemma dims_inv_close:
  "dims_inv depth dims \<Longrightarrow> 0 < depth \<Longrightarrow> dims_inv (depth - Suc 0) (dims[depth - Suc 0 := Suc v])"
  by (auto simp: dims_inv_def nth_list_update)

lemma array_element_inv:
  "array_element n del s depth dims elems = Inr st \<Longrightarrow> dims_inv depth dims \<Longrightarrow>
    dims_inv (sc_depth st) (sc_dims st)"
  by (induction n del s depth dims elems rule: array_element.induct)
    (auto split: if_splits option.splits dest: dims_inv_open)

lemma array_after_inv:
  "array_after n del s depth dims = Inr a \<Longrightarrow> dims_inv depth dims \<Longrightarrow>
    (case a of Finished d m \<Rightarrow> dims_inv d m | Again s' d m \<Rightarrow> dims_inv d m)"
  by (induction n del s depth dims rule: array_after.induct)
    (auto split: if_splits intro: dims_inv_count dims_inv_close)

lemma parse_loop_inv:
  assumes "del \<noteq> []"
  shows "dims_inv depth dims \<Longrightarrow> parse_loop n del s depth dims elems = Some (Inr st) \<Longrightarrow>
    dims_inv (sc_depth st) (sc_dims st)"
proof (induction "length s" arbitrary: s depth dims elems rule: less_induct)
  case less
  obtain mid where mid: "array_element n del s depth dims elems = Inr mid"
    using less.prems(2) by (cases "array_element n del s depth dims elems") (simp_all add: parse_loop.simps)
  obtain a where a: "array_after n del (sc_rest mid) (sc_depth mid) (sc_dims mid) = Inr a"
    using less.prems(2) mid by (cases "array_after n del (sc_rest mid) (sc_depth mid) (sc_dims mid)")
      (simp_all add: parse_loop.simps)
  note ok = array_after_inv [OF a array_element_inv [OF mid less.prems(1)]]
  show ?case
  proof (cases a)
    case (Finished d m)
    with less.prems(2) mid a ok show ?thesis
      by (auto simp: parse_loop.simps)
  next
    case (Again s' d m)
    then have "length s' < length s"
      using array_after_shorter [OF a [unfolded Again] assms] array_element_shorter [OF mid] by simp
    moreover have "parse_loop n del s' d m (sc_elems mid) = Some (Inr st)"
      using less.prems(2) mid a Again by (simp add: parse_loop.simps [of n del s])
    ultimately show ?thesis
      using less.hyps ok Again by simp
  qed
qed

lemma check_dims_returns: "\<forall>d \<in> set dims. 0 < d \<Longrightarrow> \<exists>r. check_dims k dims err = Returns r"
  by (induction k dims err rule: check_dims.induct) auto

lemma finish_array_returns: "dims_inv depth dims \<Longrightarrow> \<exists>r. finish_array n depth dims elems = Returns r"
  using check_dims_returns [of dims "length elems" None]
  by (fastforce simp: finish_array_def dims_inv_def in_set_conv_nth split: option.splits)

subsection \<open>Round trip of one dimension\<close>

text \<open>
  \<open>reads_as t e\<close>: a text that the scanner, inside one bracket and before a comma or a
  closing brace, reads as exactly the element \<open>e\<close>.
\<close>

definition reads_as :: "string \<Rightarrow> elem \<Rightarrow> bool" where
  "reads_as t e \<longleftrightarrow> (\<forall>n c s k elems. c \<in> {CHR '','', CHR ''}''} \<longrightarrow>
     array_element n '','' (t @ c # s) 1 [k] elems =
       Inr \<lparr>sc_rest = c # s, sc_depth = 1, sc_dims = [k], sc_elems = elems @ [e]\<rparr>)"

text \<open>A bare text: nonempty, without the characters that end or quote an element, not NULL.\<close>

definition bare :: "string \<Rightarrow> bool" where
  "bare t \<longleftrightarrow> t \<noteq> [] \<and> t \<noteq> ''NULL'' \<and> hd t \<noteq> CHR ''{'' \<and> hd t \<noteq> CHR 0x22 \<and>
     CHR '','' \<notin> set t \<and> CHR ''}'' \<notin> set t"

lemma read_plain_bare:
  "CHR '','' \<notin> set t \<Longrightarrow> CHR ''}'' \<notin> set t \<Longrightarrow> c \<in> {CHR '','', CHR ''}''} \<Longrightarrow>
    read_plain '','' e (t @ c # s) = Some (e @ t, c # s)"
  by (induction t arbitrary: e) auto

lemma reads_bare: "bare t \<Longrightarrow> reads_as t (Some t)"
  unfolding reads_as_def
proof (intro allI impI)
  fix n c s k elems
  assume t: "bare t" and c: "c \<in> {CHR '','', CHR ''}''}"
  then obtain x u where "t = x # u" "x \<noteq> CHR ''{''" "x \<noteq> CHR 0x22"
    by (cases t) (auto simp: bare_def)
  moreover have "read_plain '','' [] (t @ c # s) = Some (t, c # s)"
    using t c read_plain_bare [of t c "[]" s] by (simp add: bare_def)
  ultimately show "array_element n '','' (t @ c # s) 1 [k] elems =
      Inr \<lparr>sc_rest = c # s, sc_depth = 1, sc_dims = [k], sc_elems = elems @ [Some t]\<rparr>"
    using t by (simp add: bare_def)
qed

text \<open>What \<open>append\<close> and the loop of the \<open>Value\<close> methods build.\<close>

definition join_texts :: "string list \<Rightarrow> string" where
  "join_texts ts = fold (\<lambda>t b. b @ '','' @ t) (tl ts) (CHR ''{'' # hd ts) @ ''}''"

fun comma_texts :: "string list \<Rightarrow> string" where
  "comma_texts [] = ''}''"
| "comma_texts (t # ts) = CHR '','' # t @ comma_texts ts"

lemma fold_comma: "fold (\<lambda>t b. b @ '','' @ t) ts b @ ''}'' = b @ comma_texts ts"
  by (induction ts arbitrary: b) simp_all

lemma join_texts_Cons: "join_texts (t # ts) = CHR ''{'' # t @ comma_texts ts"
  by (simp add: join_texts_def fold_comma del: append_Cons)

lemma comma_texts_cases: "\<exists>c s. c \<in> {CHR '','', CHR ''}''} \<and> comma_texts ts = c # s"
  by (cases ts) auto

lemma parse_loop_texts:
  assumes "list_all2 reads_as (t # ts) (e # es)"
  shows "parse_loop n '','' (t @ comma_texts ts) 1 [k] elems =
    Some (Inr \<lparr>sc_rest = [], sc_depth = 0, sc_dims = [k + length (t # ts)], sc_elems = elems @ e # es\<rparr>)"
  using assms
proof (induction ts arbitrary: t e es k elems)
  case Nil
  then have "array_element n '','' (t @ CHR ''}'' # []) 1 [k] elems =
      Inr \<lparr>sc_rest = ''}'', sc_depth = 1, sc_dims = [k], sc_elems = elems @ [e]\<rparr>" and "es = []"
    by (simp_all add: reads_as_def)
  then show ?case
    by (simp add: parse_loop.simps)
next
  case (Cons t' ts)
  then obtain e' es' where es: "es = e' # es'" "reads_as t e" "list_all2 reads_as (t' # ts) (e' # es')"
    by (auto simp: list_all2_Cons1)
  then have "array_element n '','' (t @ CHR '','' # t' @ comma_texts ts) 1 [k] elems =
      Inr \<lparr>sc_rest = CHR '','' # t' @ comma_texts ts, sc_depth = 1, sc_dims = [k], sc_elems = elems @ [e]\<rparr>"
    by (simp add: reads_as_def)
  then have "parse_loop n '','' (t @ comma_texts (t' # ts)) 1 [k] elems =
      parse_loop n '','' (t' @ comma_texts ts) 1 [Suc k] (elems @ [e])"
    by (simp add: parse_loop.simps [of n "'',''" "t @ CHR '','' # t' @ comma_texts ts"])
  with Cons.IH [OF es(3), of "Suc k" "elems @ [e]"] es(1) show ?case
    by simp
qed

lemma reads_as_head:
  assumes "reads_as t e"
  shows "\<exists>x u. t = x # u \<and> x \<noteq> CHR ''{'' \<and> x \<noteq> CHR ''}''"
proof -
  have r: "array_element 0 '','' (t @ '','') 1 [0] [] =
      Inr \<lparr>sc_rest = '','', sc_depth = 1, sc_dims = [0], sc_elems = [e]\<rparr>"
    using assms by (simp add: reads_as_def)
  then show ?thesis
    by (cases t) (auto split: if_splits)
qed

lemma parse_join_texts:
  assumes "list_all2 reads_as ts es" and "ts \<noteq> []"
  shows "parseArray (join_texts ts) '','' = Some (Returns (Inr ([length ts], es)))"
proof -
  obtain t ts' e es' where ts: "ts = t # ts'" "es = e # es'" "reads_as t e"
    using assms by (cases ts; cases es) auto
  obtain x u where t: "t = x # u" "x \<noteq> CHR ''{''" "x \<noteq> CHR ''}''"
    using reads_as_head [OF ts(3)] by blast
  have opened: "array_open 0 (join_texts ts) = (1, t @ comma_texts ts')"
    using t by (simp add: ts(1) join_texts_Cons)
  have hd: "hd (t @ comma_texts ts') \<noteq> CHR ''}''" "join_texts ts \<noteq> []" "hd (join_texts ts) = CHR ''{''"
    using t by (simp_all add: ts(1) join_texts_Cons)
  have len: "length es = length ts"
    using list_all2_lengthD [OF assms(1)] by simp
  have loop: "parse_loop n '','' (t @ comma_texts ts') 1 [0] [] =
      Some (Inr \<lparr>sc_rest = [], sc_depth = 0, sc_dims = [length ts], sc_elems = es\<rparr>)" for n
    using parse_loop_texts [of t ts' e es' n 0 "[]"] assms(1) ts by simp
  show ?thesis
    using assms(2) len unfolding parseArray_def Let_def opened prod.case
    by (simp add: hd loop [unfolded One_nat_def] finish_array_def)
qed

lemma scan_join_texts:
  "list_all2 reads_as ts es \<Longrightarrow> ts \<noteq> [] \<Longrightarrow>
    scanLinearArray (join_texts ts) '','' typ = Some (Returns (Inr es))"
  by (simp add: scanLinearArray_def parse_join_texts)

lemma scan_empty: "scanLinearArray ''{}'' '','' typ = Some (Returns (Inr []))"
  by (simp add: scanLinearArray_def parseArray_def finish_array_def)

subsection \<open>Quoted elements\<close>

definition is_special :: "char \<Rightarrow> bool" where
  "is_special c \<longleftrightarrow> c = CHR 0x22 \<or> c = CHR 0x5C"

text \<open>The loop of \<open>appendArrayQuotedBytes\<close>; \<open>i\<close> is \<open>bytes.IndexAny(v, ...)\<close>.\<close>

function quote_loop :: "string \<Rightarrow> string \<Rightarrow> string" where
  "quote_loop b v =
     (let i = length (takeWhile (\<lambda>c. \<not> is_special c) v) in
      if i = length v then b @ v
      else quote_loop (b @ take i v @ [CHR 0x5C, v ! i]) (drop (Suc i) v))"
  by pat_completeness auto
termination
proof (relation "measure (\<lambda>(b, v). length v)", simp)
  fix b v :: string and i
  assume "i = length (takeWhile (\<lambda>c. \<not> is_special c) v)" "i \<noteq> length v"
  moreover have "length (takeWhile (\<lambda>c. \<not> is_special c) v) \<le> length v"
    by (rule length_takeWhile_le)
  ultimately show "((b @ take i v @ [CHR 0x5C, v ! i], drop (Suc i) v), b, v) \<in> measure (\<lambda>(b, v). length v)"
    by simp
qed

declare quote_loop.simps [simp del]

definition appendArrayQuotedBytes :: "string \<Rightarrow> string \<Rightarrow> string" where
  "appendArrayQuotedBytes b v = quote_loop (b @ [CHR 0x22]) v @ [CHR 0x22]"

definition escaped :: "string \<Rightarrow> string" where
  "escaped v = concat (map (\<lambda>c. if is_special c then [CHR 0x5C, c] else [c]) v)"

lemma escaped_plain: "\<forall>c \<in> set v. \<not> is_special c \<Longrightarrow> escaped v = v"
  by (induction v) (simp_all add: escaped_def)

lemma quote_loop_escaped: "quote_loop b v = b @ escaped v"
proof (induction b v rule: quote_loop.induct)
  case (1 b v)
  let ?p = "takeWhile (\<lambda>c. \<not> is_special c) v" and ?i = "length (takeWhile (\<lambda>c. \<not> is_special c) v)"
  have plain: "escaped ?p = ?p"
    by (rule escaped_plain) (auto dest: set_takeWhileD)
  show ?case
  proof (cases "?i = length v")
    case True
    then have "?p = v"
      by (metis takeWhile_eq_take take_all order_refl)
    then show ?thesis
      using True plain by (simp only: quote_loop.simps [of b v] Let_def) simp
  next
    case False
    then have lt: "?i < length v"
      using length_takeWhile_le [of "\<lambda>c. \<not> is_special c" v] by linarith
    then have sp: "is_special (v ! ?i)"
      using nth_length_takeWhile [of "\<lambda>c. \<not> is_special c" v] by simp
    have v: "v = ?p @ v ! ?i # drop (Suc ?i) v"
      using lt by (metis Cons_nth_drop_Suc takeWhile_eq_take append_take_drop_id)
    have "escaped v = ?p @ [CHR 0x5C, v ! ?i] @ escaped (drop (Suc ?i) v)"
      by (subst (1) v) (use sp plain in \<open>simp add: escaped_def\<close>)
    moreover have "quote_loop b v = quote_loop (b @ take ?i v @ [CHR 0x5C, v ! ?i]) (drop (Suc ?i) v)"
      using False by (simp add: quote_loop.simps [of b v] Let_def)
    moreover have "take ?i v = ?p"
      by (metis takeWhile_eq_take)
    ultimately show ?thesis
      using 1 False by simp
  qed
qed

lemma quoted_text: "appendArrayQuotedBytes b v = b @ CHR 0x22 # escaped v @ [CHR 0x22]"
  by (simp add: appendArrayQuotedBytes_def quote_loop_escaped)

lemma read_quoted_escaped:
  "read_quoted False e (escaped v @ CHR 0x22 # s) = Some (e @ v, s)"
  by (induction v arbitrary: e) (auto simp: escaped_def is_special_def)

lemma reads_quoted: "reads_as (appendArrayQuotedBytes [] v) (Some v)"
  by (simp add: reads_as_def quoted_text read_quoted_escaped)

subsection \<open>Properties\<close>

lemma parseArray_returns:
  assumes del: "del \<noteq> []"
  shows "\<exists>r. parseArray src del = Some (Returns r)"
proof -
  obtain depth s where opened: "array_open 0 src = (depth, s)"
    by fastforce
  have close: "\<exists>r. finish_array n d [] [] = Returns r" for n d
    by (simp add: finish_array_def)
  have loop: "\<exists>r. finish_array n (sc_depth st) (sc_dims st) (sc_elems st) = Returns r"
    if "parse_loop n del s depth (replicate depth 0) [] = Some (Inr st)" for n st
    by (rule finish_array_returns [OF parse_loop_inv [OF del _ that]]) (simp add: dims_inv_def)
  obtain r where "parse_loop (length src) del s depth (replicate depth 0) [] = Some r"
    using parse_loop_returns [OF del] by blast
  with loop [of "length src"] close [of "length src"] show ?thesis
    by (cases r; cases "array_close (length src) s depth") (auto simp: parseArray_def Let_def opened)
qed

lemma parse_loop_diverges:
  assumes "parse_loop n del s depth dims elems = Some y"
  shows "\<not> (del = [] \<and> s = ''{'' \<and> depth = 1 \<and> length dims = 1)"
proof (rule parse_loop.raw_induct [where P = "\<lambda>n del s depth dims elems y.
    \<not> (del = [] \<and> s = ''{'' \<and> depth = 1 \<and> length dims = 1)", OF _ assms], goal_cases)
  case (1 loop n del s depth dims elems y)
  show ?case
  proof
    assume c: "del = [] \<and> s = ''{'' \<and> depth = 1 \<and> length dims = 1"
    then have "loop n [] ''{'' 1 (dims[0 := Suc (dims ! 0)]) elems = Some y"
      using 1(2) by simp
    from 1(1) [OF this] c show False
      by simp
  qed
qed

text \<open>
  C36: \<open>parseArray\<close> returns for every text and every nonempty delimiter, and it never
  panics: the final check never divides by zero. With an empty delimiter, which a
  \<open>Delimiter\<close> implementation may return, there are texts on which it never returns.
\<close>

theorem parseArray_total:
  "(del \<noteq> [] \<longrightarrow> (\<exists>r. parseArray src del = Some (Returns r))) \<and>
    parseArray [CHR ''{'', CHR 0x22, CHR ''a'', CHR 0x22, CHR ''{''] [] = None"
proof (intro conjI impI)
  assume "del \<noteq> []"
  then show "\<exists>r. parseArray src del = Some (Returns r)"
    by (rule parseArray_returns)
next
  have "parse_loop n [] ''{'' 1 [1] [Some ''a''] = None" for n
    by (cases "parse_loop n [] ''{'' 1 [1] [Some ''a'']") (auto dest: parse_loop_diverges)
  then show "parseArray [CHR ''{'', CHR 0x22, CHR ''a'', CHR 0x22, CHR ''{''] [] = None"
    by (simp add: parseArray_def parse_loop.simps [of _ _ "CHR 0x22 # _"])
qed

theorem parseArray_total_witness: "\<exists>r. parseArray ''{{1,2}}'' '','' = Some (Returns r)"
  using parseArray_total [of "'',''" "''{{1,2}}''"] by simp

text \<open>
  every one-dimensional array text built from readable element texts, and every one built
  from quoted byte strings in particular, is parsed back to exactly its elements.
\<close>

theorem scanLinearArray_round_trip:
  assumes "list_all2 reads_as ts es" and "ts \<noteq> []"
  shows "scanLinearArray (join_texts ts) '','' typ = Some (Returns (Inr es)) \<and>
    (vs \<noteq> [] \<longrightarrow> scanLinearArray (join_texts (map (appendArrayQuotedBytes []) vs)) '','' typ =
      Some (Returns (Inr (map Some vs))))"
proof -
  have "list_all2 reads_as (map (appendArrayQuotedBytes []) vs) (map Some vs)"
    by (simp add: list_all2_conv_all_nth reads_quoted)
  then show ?thesis
    using scan_join_texts assms by auto
qed

theorem scanLinearArray_round_trip_witness:
  "scanLinearArray (join_texts [''12'']) '','' ''Int64'' = Some (Returns (Inr [Some ''12'']))"
proof -
  have "list_all2 reads_as [''12''] [Some ''12'']"
    by (simp add: reads_bare bare_def)
  then show ?thesis
    using scanLinearArray_round_trip [of "[''12'']" "[Some ''12'']" "''Int64''" "[]"] by simp
qed

end
