(* ===== verification/DBArray_Encode.thy ===== *)
theory DBArray_Encode
  imports Strconv
begin

section \<open>PostgreSQL value texts: encode.go\<close>

text \<open>
  \<open>pkg/sdks/sqldb/dbarray/encode.go\<close>: the bytea codec in its hex and its legacy escape
  format, \<open>encode\<close> with its panics, and the texts of time stamps with
  \<open>EnableInfinityTS\<close>. \<open>encoding/hex\<close> and the calendar arithmetic of \<open>time\<close> that
  the code uses are standard library code and modelled here.
\<close>

subsection \<open>encoding/hex\<close>

definition hex_digit :: "nat \<Rightarrow> char" where
  "hex_digit d = (if d < 10 then char_of (48 + d) else char_of (87 + d))"

definition hex_Encode :: "string \<Rightarrow> string" where
  "hex_Encode src = concat (map (\<lambda>c. let n = (of_char c :: nat) in
     [hex_digit (n div 16), hex_digit (n mod 16)]) src)"

definition from_hex :: "char \<Rightarrow> nat option" where
  "from_hex c = (case digit_value c of Some d \<Rightarrow> if d < 16 then Some d else None | None \<Rightarrow> None)"

datatype hex_error = InvalidByte char | ErrLength

fun hex_Decode :: "string \<Rightarrow> hex_error + string" where
  "hex_Decode [] = Inr []"
| "hex_Decode [c] = (case from_hex c of None \<Rightarrow> Inl (InvalidByte c) | Some _ \<Rightarrow> Inl ErrLength)"
| "hex_Decode (p # q # s) =
     (case from_hex p of
        None \<Rightarrow> Inl (InvalidByte p)
      | Some a \<Rightarrow>
          (case from_hex q of
             None \<Rightarrow> Inl (InvalidByte q)
           | Some b \<Rightarrow>
               (case hex_Decode s of Inl e \<Rightarrow> Inl e | Inr r \<Rightarrow> Inr (char_of (a * 16 + b) # r))))"

lemma from_hex_digit [simp]: "d < 16 \<Longrightarrow> from_hex (hex_digit d) = Some d"
  by (auto simp: from_hex_def hex_digit_def digit_value_def Let_def)

lemma of_char_less_256: "(of_char c :: nat) < 256"
  using of_char_mod_256 [of c] by (metis mod_less_divisor zero_less_numeral)

lemma top_octal_digit: "is_digit (digit_char (of_char c div 64))"
proof -
  have "of_char c div 64 < (10 :: nat)"
    using of_char_less_256 [of c] by linarith
  then show ?thesis by simp
qed

lemma hex_Decode_Encode: "hex_Decode (hex_Encode s) = Inr s"
proof (induction s)
  case Nil
  show ?case by (simp add: hex_Encode_def)
next
  case (Cons c s)
  let ?n = "of_char c :: nat"
  have "?n < 256" by (rule of_char_less_256)
  then have "?n div 16 < 16" by linarith
  with Cons show ?case
    by (simp add: hex_Encode_def Let_def)
qed

subsection \<open>bytea\<close>

datatype bytea_error = HexError hex_error | InvalidSequence string | InvalidOctal num_error

function parse_escape :: "string \<Rightarrow> string \<Rightarrow> bytea_error + string" where
  "parse_escape s res =
     (if s = [] then Inr res
      else if hd s = CHR 0x5C then
        (if 2 \<le> length s \<and> s ! 1 = CHR 0x5C then parse_escape (drop 2 s) (res @ [CHR 0x5C])
         else if length s < 4 then Inl (InvalidSequence s)
         else case ParseUint (take 3 (tl s)) 8 8 of
             Inl err \<Rightarrow> Inl (InvalidOctal err)
           | Inr r \<Rightarrow> parse_escape (drop 4 s) (res @ [char_of r]))
      else
        let i = length (takeWhile (\<lambda>c. c \<noteq> CHR 0x5C) s) in
        if i = length s then Inr (res @ s)
        else parse_escape (drop i s) (res @ take i s))"
  by pat_completeness auto
termination
  by (relation "measure (\<lambda>(s, res). length s)") (auto simp: neq_Nil_conv)

declare parse_escape.simps [simp del]

definition parseBytea :: "string \<Rightarrow> bytea_error + string" where
  "parseBytea s =
     (if 2 \<le> length s \<and> take 2 s = [CHR 0x5C, CHR ''x''] then
        (case hex_Decode (drop 2 s) of Inl e \<Rightarrow> Inl (HexError e) | Inr r \<Rightarrow> Inr r)
      else parse_escape s [])"

definition octal3 :: "nat \<Rightarrow> string" where
  "octal3 n = [digit_char (n div 64), digit_char (n div 8 mod 8), digit_char (n mod 8)]"

definition escape_byte :: "char \<Rightarrow> string" where
  "escape_byte b =
     (if b = CHR 0x5C then [CHR 0x5C, CHR 0x5C]
      else if (of_char b :: nat) < 0x20 \<or> 0x7e < (of_char b :: nat) then CHR 0x5C # octal3 (of_char b)
      else [b])"

definition encodeBytea :: "int \<Rightarrow> string \<Rightarrow> string" where
  "encodeBytea serverVersion v =
     (if 90000 \<le> serverVersion then [CHR 0x5C, CHR ''x''] @ hex_Encode v
      else concat (map escape_byte v))"

lemma parse_escape_plain:
  assumes "c \<noteq> CHR 0x5C"
  shows "parse_escape (c # s) r = parse_escape s (r @ [c])"
proof -
  let ?p = "takeWhile (\<lambda>c. c \<noteq> CHR 0x5C) s"
  show ?thesis
  proof (cases s)
    case Nil
    then show ?thesis
      using assms by (simp add: parse_escape.simps [of "[c]" r] parse_escape.simps [of "[]"] Let_def)
  next
    case (Cons d t)
    show ?thesis
    proof (cases "d = CHR 0x5C")
      case True
      then show ?thesis
        using assms Cons by (subst parse_escape.simps) (simp add: Let_def)
    next
      case False
      then have "parse_escape s (r @ [c]) =
          (if length ?p = length s then Inr ((r @ [c]) @ s)
           else parse_escape (drop (length ?p) s) ((r @ [c]) @ take (length ?p) s))"
        using Cons by (subst parse_escape.simps) (simp add: Let_def)
      moreover have "parse_escape (c # s) r =
          (if length ?p = length s then Inr (r @ c # s)
           else parse_escape (drop (length ?p) s) (r @ c # take (length ?p) s))"
        using assms by (subst parse_escape.simps) (simp add: Let_def)
      ultimately show ?thesis by simp
    qed
  qed
qed

lemma ParseUint_octal3:
  assumes "n < 256"
  shows "ParseUint (octal3 n) 8 8 = Inr n"
proof -
  have "n div 64 < 8" "n div 8 mod 8 < 8" "n mod 8 < 8"
    using assms by simp_all
  moreover have "(n div 64 * 8 + n div 8 mod 8) * 8 + n mod 8 = n"
    by (simp add: div_mult2_eq [of n 8 8, simplified])
  moreover have "n div 64 \<le> 255" "n div 64 * 8 + n div 8 mod 8 \<le> 255"
    using assms by simp_all
  ultimately show ?thesis
    using assms by (simp add: ParseUint_def octal3_def not_le)
qed

lemma parse_escape_byte: "parse_escape (escape_byte b @ s) r = parse_escape s (r @ [b])"
proof (cases "b = CHR 0x5C \<or> \<not> ((of_char b :: nat) < 0x20 \<or> 0x7e < (of_char b :: nat))")
  case True
  then show ?thesis
    by (auto simp: escape_byte_def parse_escape_plain parse_escape.simps [of "CHR 0x5C # CHR 0x5C # s"])
next
  case False
  let ?n = "of_char b :: nat"
  have o: "ParseUint (octal3 ?n) 8 8 = Inr ?n"
    by (rule ParseUint_octal3) (rule of_char_less_256)
  have "is_digit (digit_char (?n div 64))"
    by (rule top_octal_digit)
  then have "digit_char (?n div 64) \<noteq> CHR 0x5C"
    by (auto simp: is_digit_def)
  with False o show ?thesis
    by (simp add: escape_byte_def octal3_def parse_escape.simps [of "CHR 0x5C # _ # _"])
qed

lemma parse_escape_concat: "parse_escape (concat (map escape_byte v)) r = Inr (r @ v)"
proof (induction v arbitrary: r)
  case Nil
  show ?case by (simp add: parse_escape.simps)
next
  case (Cons b v)
  then show ?case by (simp add: parse_escape_byte)
qed

lemma escape_not_hex: "take 2 (concat (map escape_byte v)) \<noteq> [CHR 0x5C, CHR ''x'']"
proof (cases v)
  case (Cons b u)
  have "is_digit (digit_char (of_char b div 64))"
    by (rule top_octal_digit)
  then have "digit_char (of_char b div 64) \<noteq> CHR ''x''"
    by (auto simp: is_digit_def)
  with Cons show ?thesis
    by (cases "concat (map escape_byte u)") (auto simp: escape_byte_def octal3_def)
qed simp

lemma parseBytea_encodeBytea: "parseBytea (encodeBytea version v) = Inr v"
  using escape_not_hex [of v]
  by (auto simp: parseBytea_def encodeBytea_def hex_Decode_Encode parse_escape_concat)

subsection \<open>Time stamps\<close>

text \<open>
  A \<open>time.Time\<close> as \<open>Format\<close> sees it: its calendar fields in a fixed zone, and the
  zone's offset in seconds east of UTC.
\<close>

record civil =
  cv_Year :: int
  cv_Month :: nat
  cv_Day :: nat
  cv_Hour :: nat
  cv_Min :: nat
  cv_Sec :: nat
  cv_Nano :: nat
  cv_Offset :: int

definition leap :: "int \<Rightarrow> bool" where
  "leap y \<longleftrightarrow> (4 dvd y \<and> \<not> 100 dvd y) \<or> 400 dvd y"

definition days_before_month :: "int \<Rightarrow> nat \<Rightarrow> int" where
  "days_before_month y m =
     [0, 31, 59, 90, 120, 151, 181, 212, 243, 273, 304, 334] ! (m - 1) +
     (if leap y \<and> 2 < m then 1 else 0)"

text \<open>The instant, in nanoseconds since the start of year 1, which \<open>Before\<close> compares.\<close>

definition instant :: "civil \<Rightarrow> int" where
  "instant t =
     (let y = cv_Year t - 1;
          days = 365 * y + y div 4 - y div 100 + y div 400 +
            days_before_month (cv_Year t) (cv_Month t) + int (cv_Day t) - 1;
          secs = days * 86400 + int (cv_Hour t) * 3600 + int (cv_Min t) * 60 + int (cv_Sec t) - cv_Offset t
      in secs * 1000000000 + int (cv_Nano t))"

definition Before :: "civil \<Rightarrow> civil \<Rightarrow> bool" where
  "Before t u \<longleftrightarrow> instant t < instant u"

definition After :: "civil \<Rightarrow> civil \<Rightarrow> bool" where
  "After t u \<longleftrightarrow> instant u < instant t"

text \<open>\<open>t.AddDate(years, 0, 0)\<close> normalises a February 29 that the new year does not have.\<close>

definition AddYears :: "civil \<Rightarrow> int \<Rightarrow> civil" where
  "AddYears t years =
     (let y = cv_Year t + years in
      if cv_Month t = 2 \<and> cv_Day t = 29 \<and> \<not> leap y
      then t\<lparr>cv_Year := y, cv_Month := 3, cv_Day := 1\<rparr>
      else t\<lparr>cv_Year := y\<rparr>)"

definition pad :: "nat \<Rightarrow> nat \<Rightarrow> string" where
  "pad w n = replicate (w - length (dec n)) (CHR ''0'') @ dec n"

definition pad_int :: "nat \<Rightarrow> int \<Rightarrow> string" where
  "pad_int w i = (if i < 0 then CHR ''-'' # pad w (nat (- i)) else pad w (nat i))"

definition format_zone :: "int \<Rightarrow> string" where
  "format_zone offset =
     (if offset = 0 then ''Z''
      else
        let zone = nat \<bar>offset\<bar> div 60 in
        (if offset < 0 \<and> 0 < zone then ''-'' else ''+'') @ pad 2 (zone div 60) @ '':'' @ pad 2 (zone mod 60))"

definition format_nano :: "nat \<Rightarrow> string" where
  "format_nano n =
     (if n = 0 then []
      else CHR ''.'' # rev (dropWhile (\<lambda>c. c = CHR ''0'') (rev (pad 9 n))))"

text \<open>\<open>t.Format("2006-01-02 15:04:05.999999999Z07:00")\<close>.\<close>

definition Format :: "civil \<Rightarrow> string" where
  "Format t = pad_int 4 (cv_Year t) @ ''-'' @ pad 2 (cv_Month t) @ ''-'' @ pad 2 (cv_Day t) @ '' '' @
     pad 2 (cv_Hour t) @ '':'' @ pad 2 (cv_Min t) @ '':'' @ pad 2 (cv_Sec t) @ format_nano (cv_Nano t) @
     format_zone (cv_Offset t)"

definition formatTimestamp :: "civil \<Rightarrow> string" where
  "formatTimestamp t =
     (let bc = (cv_Year t \<le> 0);
          t' = (if bc then AddYears t ((- cv_Year t) * 2 + 1) else t);
          b = Format t';
          offset = nat \<bar>cv_Offset t'\<bar> mod 60;
          b' = (if offset \<noteq> 0
                then b @ '':'' @ (if offset < 10 then ''0'' else []) @ FormatInt (int offset)
                else b)
      in if bc then b' @ '' BC'' else b')"

subsection \<open>Infinite time stamps\<close>

record infinityTS =
  its_Enabled :: bool
  its_Negative :: civil
  its_Positive :: civil

definition infinityTSEnabledAlready :: string where
  [simp]: "infinityTSEnabledAlready = ''database: infinity timestamp enabled already''"

definition infinityTSNegativeMustBeSmaller :: string where
  [simp]: "infinityTSNegativeMustBeSmaller =
     ''database: infinity timestamp: negative value must be smaller (before) than positive''"

definition EnableInfinityTS :: "infinityTS \<Rightarrow> civil \<Rightarrow> civil \<Rightarrow> infinityTS call" where
  "EnableInfinityTS its negative positive =
     (if its_Enabled its then Panics infinityTSEnabledAlready
      else if \<not> Before negative positive
      then Panics infinityTSNegativeMustBeSmaller
      else Returns \<lparr>its_Enabled = True, its_Negative = negative, its_Positive = positive\<rparr>)"

definition formatTS :: "infinityTS \<Rightarrow> civil \<Rightarrow> string" where
  "formatTS its t =
     (if its_Enabled its \<and> \<not> After t (its_Negative its) then ''-infinity''
      else if its_Enabled its \<and> \<not> Before t (its_Positive its) then ''infinity''
      else formatTimestamp t)"

subsection \<open>encode\<close>

text \<open>
  The driver values; \<open>'f\<close> are the float64 values, whose texts \<open>strconv.AppendFloat\<close>
  writes. A missing \<open>parameterStatus\<close> is a nil pointer.
\<close>

datatype 'f driver_value = VInt64 int64 | VFloat64 'f | VBytes string | VString string
  | VBool bool | VTime civil | VOther string

definition oidBytea :: int where
  "oidBytea = 17"

definition server_bytea :: "int option \<Rightarrow> string \<Rightarrow> string call" where
  "server_bytea parameterStatus v =
     (case parameterStatus of
        None \<Rightarrow> Panics ''runtime error: invalid memory address or nil pointer dereference''
      | Some serverVersion \<Rightarrow> Returns (encodeBytea serverVersion v))"

definition errorf :: "string \<Rightarrow> 'a call" where
  [simp]: "errorf s = Panics (''pq: '' @ s)"

definition encode ::
  "('f \<Rightarrow> string) \<Rightarrow> infinityTS \<Rightarrow> int option \<Rightarrow> 'f driver_value \<Rightarrow> int \<Rightarrow> string call" where
  "encode AppendFloat its parameterStatus x oid =
     (case x of
        VInt64 v \<Rightarrow> Returns (FormatInt (sint v))
      | VFloat64 v \<Rightarrow> Returns (AppendFloat v)
      | VBytes v \<Rightarrow> if oid = oidBytea then server_bytea parameterStatus v else Returns v
      | VString v \<Rightarrow> if oid = oidBytea then server_bytea parameterStatus v else Returns v
      | VBool v \<Rightarrow> Returns (if v then ''true'' else ''false'')
      | VTime v \<Rightarrow> Returns (formatTS its v)
      | VOther t \<Rightarrow> errorf (''encode: unknown type for '' @ t))"

subsection \<open>Properties\<close>

text \<open>
  C38: every byte string survives \<open>encodeBytea\<close> and \<open>parseBytea\<close>, in the hex format of
  servers from version 9.0 and in the escape format of older ones; an escaped text is never
  mistaken for a hex text.
\<close>

theorem bytea_round_trip:
  "parseBytea (encodeBytea serverVersion v) = Inr v \<and>
    (encode af its (Some serverVersion) (VBytes v) 17 = Returns t \<longrightarrow> parseBytea t = Inr v)"
  by (auto simp: parseBytea_encodeBytea encode_def oidBytea_def server_bytea_def)

theorem bytea_round_trip_witness: "parseBytea [CHR 0x5C, CHR ''x''] = Inr []"
  using bytea_round_trip [of 90000 "[]" "\<lambda>_. []" its "[CHR 0x5C, CHR ''x'']"]
  by (simp add: encode_def oidBytea_def server_bytea_def encodeBytea_def hex_Encode_def)

text \<open>
  \<open>EnableInfinityTS\<close> succeeds at most once and only with a lower bound before the
  upper one; from then on the two infinities and the finite texts split the time line: at
  or before the lower bound, at or after the upper bound, and between.
\<close>

theorem infinity_bounds:
  assumes "EnableInfinityTS its negative positive = Returns its'"
  shows "instant negative < instant positive \<and>
    (\<exists>p. EnableInfinityTS its' n' p' = Panics p) \<and>
    (instant t \<le> instant negative \<longrightarrow> formatTS its' t = ''-infinity'') \<and>
    (instant positive \<le> instant t \<longrightarrow> formatTS its' t = ''infinity'') \<and>
    (instant negative < instant t \<and> instant t < instant positive \<longrightarrow> formatTS its' t = formatTimestamp t)"
  using assms
  by (auto simp: EnableInfinityTS_def formatTS_def Before_def After_def split: if_splits)

definition demo_date :: "int \<Rightarrow> nat \<Rightarrow> nat \<Rightarrow> civil" where
  "demo_date y m d = \<lparr>cv_Year = y, cv_Month = m, cv_Day = d, cv_Hour = 0, cv_Min = 0, cv_Sec = 0, cv_Nano = 0,
     cv_Offset = 0\<rparr>"

lemma demo_enable: "EnableInfinityTS \<lparr>its_Enabled = False, its_Negative = t, its_Positive = t\<rparr>
    (demo_date 1 1 1) (demo_date 2 1 1) =
  Returns \<lparr>its_Enabled = True, its_Negative = demo_date 1 1 1, its_Positive = demo_date 2 1 1\<rparr>"
  by (simp add: EnableInfinityTS_def Before_def instant_def demo_date_def days_before_month_def leap_def)

theorem infinity_bounds_witness:
  "formatTS \<lparr>its_Enabled = True, its_Negative = demo_date 1 1 1, its_Positive = demo_date 2 1 1\<rparr>
    (demo_date 3 1 1) = ''infinity''"
  using infinity_bounds [OF demo_enable [of "demo_date 1 1 1"], of _ _ "demo_date 3 1 1"]
  by (simp add: instant_def demo_date_def days_before_month_def leap_def)

text \<open>
  a date before the year 1 is printed with the year \<open>1 - y\<close> and the suffix \<open>BC\<close>, but
  a February 29 of such a year, which is a leap day, is printed as March 1 of a year that
  has no February 29: two different days have the same text.
\<close>

theorem bc_dates:
  "(cv_Year t \<le> 0 \<and> \<not> (cv_Month t = 2 \<and> cv_Day t = 29) \<and> cv_Offset t = 0 \<longrightarrow>
      formatTimestamp t = Format (t\<lparr>cv_Year := 1 - cv_Year t\<rparr>) @ '' BC'') \<and>
    formatTimestamp (demo_date 0 2 29) = formatTimestamp (demo_date 0 3 1) \<and>
    instant (demo_date 0 2 29) \<noteq> instant (demo_date 0 3 1)"
  by (auto simp: formatTimestamp_def AddYears_def Let_def demo_date_def leap_def instant_def
      days_before_month_def)

theorem bc_dates_witness: "formatTimestamp (demo_date 0 1 1) = Format (demo_date 1 1 1) @ '' BC''"
  using bc_dates [of "demo_date 0 1 1"] by (simp add: demo_date_def)

end
