(* ===== verification/DBArray_Types.thy ===== *)
theory DBArray_Types
  imports DBArray DBArray_Encode
begin

section \<open>The array types of dbarray.go\<close>

text \<open>
  The \<open>Scan\<close>, \<open>scanBytes\<close> and \<open>Value\<close> methods of \<open>Bool\<close>, \<open>Int64\<close>,
  \<open>Int32\<close>, \<open>String\<close>, \<open>Bytea\<close>, \<open>Float64\<close>, \<open>Float32\<close> and \<open>Generic\<close>.
  A slice that may be nil is an \<open>option\<close>; \<open>Value\<close> returns \<open>None\<close> for the SQL
  NULL. The locale \<open>array_codec\<close> states what an element type must provide for
  \<open>Scan\<close> to invert \<open>Value\<close>, and is interpreted for every type.
\<close>

subsection \<open>Scanning\<close>

datatype elem_error = NumError num_error | InvalidBoolean string | ByteaError bytea_error | NilString

datatype scan_error = ArrayError arr_error | ElementError nat elem_error | CannotConvert string

text \<open>The dynamic type of \<open>src\<close> in the type switches.\<close>

datatype sql_src = SrcBytes string | SrcString string | SrcNil | SrcOther string

text \<open>The loop over the parsed elements; the first failure ends it.\<close>

fun convert_elems ::
  "(elem \<Rightarrow> elem_error + 'a) \<Rightarrow> nat \<Rightarrow> elem list \<Rightarrow> 'a list \<Rightarrow> scan_error + 'a list" where
  "convert_elems conv i [] b = Inr b"
| "convert_elems conv i (v # vs) b =
     (case conv v of Inl err \<Rightarrow> Inl (ElementError i err) | Inr x \<Rightarrow> convert_elems conv (Suc i) vs (b @ [x]))"

type_synonym 'a scanned = "((scan_error + 'a list option) call) option"

definition scan_bytes ::
  "string \<Rightarrow> (elem \<Rightarrow> elem_error + 'a) \<Rightarrow> 'a list option \<Rightarrow> string \<Rightarrow> 'a scanned" where
  "scan_bytes typ conv a src =
     (case scanLinearArray src '','' typ of
        None \<Rightarrow> None
      | Some (Panics p) \<Rightarrow> Some (Panics p)
      | Some (Returns (Inl err)) \<Rightarrow> Some (Returns (Inl (ArrayError err)))
      | Some (Returns (Inr elems)) \<Rightarrow>
          if a \<noteq> None \<and> elems = [] then Some (Returns (Inr (Some (take 0 (the a)))))
          else
            (case convert_elems conv 0 elems [] of
               Inl err \<Rightarrow> Some (Returns (Inl err))
             | Inr b \<Rightarrow> Some (Returns (Inr (Some b)))))"

definition scan_src :: "string \<Rightarrow> (string \<Rightarrow> 'a scanned) \<Rightarrow> sql_src \<Rightarrow> 'a scanned" where
  "scan_src typ scanBytes src =
     (case src of
        SrcBytes s \<Rightarrow> scanBytes s
      | SrcString s \<Rightarrow> scanBytes s
      | SrcNil \<Rightarrow> Some (Returns (Inr None))
      | SrcOther t \<Rightarrow> Some (Returns (Inl (CannotConvert typ))))"

text \<open>The bytes of an element; a NULL element is a nil slice, whose string is empty.\<close>

definition elem_bytes :: "elem \<Rightarrow> string" where
  "elem_bytes v = (case v of None \<Rightarrow> [] | Some s \<Rightarrow> s)"

subsection \<open>Bool\<close>

definition bool_elem :: "elem \<Rightarrow> elem_error + bool" where
  "bool_elem v =
     (if length (elem_bytes v) \<noteq> 1 then Inl (InvalidBoolean (elem_bytes v))
      else if elem_bytes v ! 0 = CHR ''t'' then Inr True
      else if elem_bytes v ! 0 = CHR ''f'' then Inr False
      else Inl (InvalidBoolean (elem_bytes v)))"

definition Bool_scanBytes :: "bool list option \<Rightarrow> string \<Rightarrow> bool scanned" where
  "Bool_scanBytes = scan_bytes ''Bool'' bool_elem"

definition Bool_Scan :: "bool list option \<Rightarrow> sql_src \<Rightarrow> bool scanned" where
  "Bool_Scan a = scan_src ''Bool'' (Bool_scanBytes a)"

definition bool_text :: "bool \<Rightarrow> string" where
  "bool_text x = (if x then ''t'' else ''f'')"

text \<open>The buffer of \<open>1 + 2 * n\<close> bytes: a comma and a letter per element, then the brackets.\<close>

definition Bool_Value :: "bool list option \<Rightarrow> string option" where
  "Bool_Value a =
     (case a of
        None \<Rightarrow> None
      | Some xs \<Rightarrow>
          let n = length xs in
          if 0 < n then
            Some ((concat (map (\<lambda>x. CHR '','' # bool_text x) xs) @ [CHR 0x00])
              [0 := CHR ''{'', 2 * n := CHR ''}''])
          else Some ''{}'')"

subsection \<open>Bytea\<close>

definition bytea_elem :: "elem \<Rightarrow> elem_error + string" where
  "bytea_elem v = (case parseBytea (elem_bytes v) of Inl err \<Rightarrow> Inl (ByteaError err) | Inr r \<Rightarrow> Inr r)"

definition Bytea_scanBytes :: "string list option \<Rightarrow> string \<Rightarrow> string scanned" where
  "Bytea_scanBytes = scan_bytes ''Bytea'' bytea_elem"

definition Bytea_Scan :: "string list option \<Rightarrow> sql_src \<Rightarrow> string scanned" where
  "Bytea_Scan a = scan_src ''Bytea'' (Bytea_scanBytes a)"

definition bytea_text :: "string \<Rightarrow> string" where
  "bytea_text x = [CHR 0x22, CHR 0x5C, CHR 0x5C, CHR ''x''] @ hex_Encode x @ [CHR 0x22]"

definition Bytea_Value :: "string list option \<Rightarrow> string option" where
  "Bytea_Value a =
     (case a of
        None \<Rightarrow> None
      | Some xs \<Rightarrow>
          let n = length xs; size = 1 + 6 * n + sum_list (map (\<lambda>x. 2 * length x) xs) in
          if 0 < n then
            Some ((concat (map (\<lambda>x. CHR '','' # bytea_text x) xs) @ [CHR 0x00])
              [0 := CHR ''{'', size - 1 := CHR ''}''])
          else Some ''{}'')"

subsection \<open>Int64 and Int32\<close>

definition int64_elem :: "elem \<Rightarrow> elem_error + int64" where
  "int64_elem v = (case ParseInt (elem_bytes v) 10 64 of Inl err \<Rightarrow> Inl (NumError err) | Inr i \<Rightarrow> Inr (word_of_int i))"

definition Int64_scanBytes :: "int64 list option \<Rightarrow> string \<Rightarrow> int64 scanned" where
  "Int64_scanBytes = scan_bytes ''Int64'' int64_elem"

definition Int64_Scan :: "int64 list option \<Rightarrow> sql_src \<Rightarrow> int64 scanned" where
  "Int64_Scan a = scan_src ''Int64'' (Int64_scanBytes a)"

definition Int64_Value :: "int64 list option \<Rightarrow> string option" where
  "Int64_Value a =
     (case a of
        None \<Rightarrow> None
      | Some xs \<Rightarrow> Some (if 0 < length xs then join_texts (map (\<lambda>x. FormatInt (sint x)) xs) else ''{}''))"

definition int32_elem :: "elem \<Rightarrow> elem_error + 32 word" where
  "int32_elem v = (case ParseInt (elem_bytes v) 10 32 of Inl err \<Rightarrow> Inl (NumError err) | Inr i \<Rightarrow> Inr (word_of_int i))"

definition Int32_scanBytes :: "32 word list option \<Rightarrow> string \<Rightarrow> 32 word scanned" where
  "Int32_scanBytes = scan_bytes ''Int32'' int32_elem"

definition Int32_Scan :: "32 word list option \<Rightarrow> sql_src \<Rightarrow> 32 word scanned" where
  "Int32_Scan a = scan_src ''Int32'' (Int32_scanBytes a)"

definition Int32_Value :: "32 word list option \<Rightarrow> string option" where
  "Int32_Value a =
     (case a of
        None \<Rightarrow> None
      | Some xs \<Rightarrow> Some (if 0 < length xs then join_texts (map (\<lambda>x. FormatInt (sint x)) xs) else ''{}''))"

subsection \<open>String\<close>

definition string_elem :: "elem \<Rightarrow> elem_error + string" where
  "string_elem v = (case v of None \<Rightarrow> Inl NilString | Some s \<Rightarrow> Inr s)"

definition String_scanBytes :: "string list option \<Rightarrow> string \<Rightarrow> string scanned" where
  "String_scanBytes = scan_bytes ''String'' string_elem"

definition String_Scan :: "string list option \<Rightarrow> sql_src \<Rightarrow> string scanned" where
  "String_Scan a = scan_src ''String'' (String_scanBytes a)"

definition String_Value :: "string list option \<Rightarrow> string option" where
  "String_Value a =
     (case a of
        None \<Rightarrow> None
      | Some xs \<Rightarrow> Some (if 0 < length xs then join_texts (map (appendArrayQuotedBytes []) xs) else ''{}''))"

subsection \<open>Float64 and Float32\<close>

text \<open>
  \<open>AppendFloat\<close> and \<open>ParseFloat\<close> of \<open>strconv\<close> at the bit size of the type are
  arguments.
\<close>

definition float_elem :: "(string \<Rightarrow> num_error + 'f) \<Rightarrow> elem \<Rightarrow> elem_error + 'f" where
  "float_elem ParseFloat v = (case ParseFloat (elem_bytes v) of Inl err \<Rightarrow> Inl (NumError err) | Inr x \<Rightarrow> Inr x)"

definition Float64_scanBytes :: "(string \<Rightarrow> num_error + 'f) \<Rightarrow> 'f list option \<Rightarrow> string \<Rightarrow> 'f scanned" where
  "Float64_scanBytes ParseFloat = scan_bytes ''Float64'' (float_elem ParseFloat)"

definition Float64_Scan :: "(string \<Rightarrow> num_error + 'f) \<Rightarrow> 'f list option \<Rightarrow> sql_src \<Rightarrow> 'f scanned" where
  "Float64_Scan ParseFloat a = scan_src ''Float64'' (Float64_scanBytes ParseFloat a)"

definition Float64_Value :: "('f \<Rightarrow> string) \<Rightarrow> 'f list option \<Rightarrow> string option" where
  "Float64_Value AppendFloat a =
     (case a of
        None \<Rightarrow> None
      | Some xs \<Rightarrow> Some (if 0 < length xs then join_texts (map AppendFloat xs) else ''{}''))"

text \<open>
  \<open>Float32\<close> parses to a float64 and narrows it; it widens its elements to print them.
\<close>

definition float32_elem :: "(string \<Rightarrow> num_error + 'f64) \<Rightarrow> ('f64 \<Rightarrow> 'f32) \<Rightarrow> elem \<Rightarrow> elem_error + 'f32" where
  "float32_elem ParseFloat narrow v =
     (case ParseFloat (elem_bytes v) of Inl err \<Rightarrow> Inl (NumError err) | Inr x \<Rightarrow> Inr (narrow x))"

definition Float32_scanBytes ::
  "(string \<Rightarrow> num_error + 'f64) \<Rightarrow> ('f64 \<Rightarrow> 'f32) \<Rightarrow> 'f32 list option \<Rightarrow> string \<Rightarrow> 'f32 scanned" where
  "Float32_scanBytes ParseFloat narrow = scan_bytes ''Float32'' (float32_elem ParseFloat narrow)"

definition Float32_Scan ::
  "(string \<Rightarrow> num_error + 'f64) \<Rightarrow> ('f64 \<Rightarrow> 'f32) \<Rightarrow> 'f32 list option \<Rightarrow> sql_src \<Rightarrow> 'f32 scanned" where
  "Float32_Scan ParseFloat narrow a = scan_src ''Float32'' (Float32_scanBytes ParseFloat narrow a)"

definition Float32_Value :: "('f64 \<Rightarrow> string) \<Rightarrow> ('f32 \<Rightarrow> 'f64) \<Rightarrow> 'f32 list option \<Rightarrow> string option" where
  "Float32_Value AppendFloat widen a =
     (case a of
        None \<Rightarrow> None
      | Some xs \<Rightarrow> Some (if 0 < length xs then join_texts (map (\<lambda>x. AppendFloat (widen x)) xs) else ''{}''))"

subsection \<open>What an element type must provide\<close>

locale array_codec =
  fixes elem_text :: "'a \<Rightarrow> string"
    and elem_value :: "'a \<Rightarrow> elem"
    and conv :: "elem \<Rightarrow> elem_error + 'a"
  assumes reads: "reads_as (elem_text x) (elem_value x)"
    and converts: "conv (elem_value x) = Inr x"
begin

lemma convert_values: "convert_elems conv i (map elem_value xs) b = Inr (b @ xs)"
  by (induction xs arbitrary: i b) (simp_all add: converts)

lemma scan_texts:
  "scan_bytes typ conv a (if 0 < length xs then join_texts (map elem_text xs) else ''{}'') =
    Some (Returns (Inr (Some xs)))"
proof (cases "xs = []")
  case True
  then show ?thesis
    by (simp add: scan_bytes_def scan_empty)
next
  case False
  then have "scanLinearArray (join_texts (map elem_text xs)) '','' typ =
      Some (Returns (Inr (map elem_value xs)))"
    by (intro scan_join_texts) (simp_all add: list_all2_conv_all_nth reads)
  with False show ?thesis
    by (simp add: scan_bytes_def convert_values)
qed

end

lemma bare_number: "bare (FormatInt i)"
proof -
  have "is_num_char c" if "c \<in> set (FormatInt i)" for c
    using that by (rule FormatInt_chars)
  moreover have "hd (FormatInt i) \<in> set (FormatInt i)"
    by simp
  moreover have "\<not> is_num_char (CHR '','')" "\<not> is_num_char (CHR ''}'')" "\<not> is_num_char (CHR ''{'')"
    "\<not> is_num_char (CHR 0x22)" "\<not> is_num_char (CHR ''N'')"
    by (simp_all add: is_num_char_def is_digit_def)
  ultimately show ?thesis
    unfolding bare_def by (metis FormatInt_nonempty list.set_intros(1))
qed

interpretation int64_array: array_codec "\<lambda>x :: int64. FormatInt (sint x)" "\<lambda>x. Some (FormatInt (sint x))" int64_elem
  by unfold_locales (simp_all add: reads_bare bare_number int64_elem_def elem_bytes_def)

interpretation int32_array: array_codec "\<lambda>x :: 32 word. FormatInt (sint x)" "\<lambda>x. Some (FormatInt (sint x))" int32_elem
  by unfold_locales (simp_all add: reads_bare bare_number int32_elem_def elem_bytes_def)

interpretation string_array: array_codec "appendArrayQuotedBytes []" Some string_elem
  by unfold_locales (simp_all add: reads_quoted string_elem_def)

interpretation bool_array: array_codec bool_text "\<lambda>x. Some (bool_text x)" bool_elem
  by unfold_locales (auto simp: reads_bare bare_def bool_text_def bool_elem_def elem_bytes_def)

lemma hex_digit_not_special: "d < 16 \<Longrightarrow> \<not> is_special (hex_digit d)"
  using from_hex_digit [of d] by (auto simp: is_special_def from_hex_def digit_value_def)

lemma hex_not_special: "\<forall>c \<in> set (hex_Encode x). \<not> is_special c"
proof -
  have "of_char c div 16 < (16 :: nat)" for c
    using of_char_less_256 [of c] by linarith
  then show ?thesis
    by (auto simp: hex_Encode_def Let_def hex_digit_not_special)
qed

lemma bytea_text_quoted: "bytea_text x = appendArrayQuotedBytes [] ([CHR 0x5C, CHR ''x''] @ hex_Encode x)"
  using escaped_plain [OF hex_not_special [of x]]
  by (simp add: bytea_text_def quoted_text escaped_def is_special_def)

interpretation bytea_array: array_codec bytea_text "\<lambda>x. Some ([CHR 0x5C, CHR ''x''] @ hex_Encode x)" bytea_elem
  by unfold_locales
    (simp_all add: bytea_text_quoted reads_quoted bytea_elem_def elem_bytes_def parseBytea_def hex_Decode_Encode)

text \<open>The buffers of \<open>Bool\<close> and \<open>Bytea\<close> hold the same texts as the appending loops.\<close>

lemma comma_texts_concat: "comma_texts ts = concat (map (\<lambda>t. CHR '','' # t) ts) @ ''}''"
  by (induction ts) simp_all

lemma buffer_join:
  assumes "xs \<noteq> []"
  shows "(concat (map (\<lambda>x. CHR '','' # f x) xs) @ [z])
      [0 := CHR ''{'', length (concat (map (\<lambda>x. CHR '','' # f x) xs)) := CHR ''}''] = join_texts (map f xs)"
proof -
  obtain y ys where "xs = y # ys"
    using assms by (cases xs) auto
  then show ?thesis
    by (simp add: join_texts_Cons comma_texts_concat comp_def list_update_append)
qed

lemma length_bool_buffer: "length (concat (map (\<lambda>x. CHR '','' # bool_text x) xs)) = 2 * length xs"
  by (induction xs) (simp_all add: bool_text_def)

lemma length_hex_Encode: "length (hex_Encode x) = 2 * length x"
  by (induction x) (simp_all add: hex_Encode_def Let_def)

lemma length_bytea_buffer: "length (concat (map (\<lambda>x. CHR '','' # bytea_text x) xs)) =
    6 * length xs + sum_list (map (\<lambda>x. 2 * length x) xs)"
  by (induction xs) (simp_all add: bytea_text_def length_hex_Encode)

lemma Bool_Value_join:
  "Bool_Value (Some xs) = Some (if 0 < length xs then join_texts (map bool_text xs) else ''{}'')"
  using buffer_join [of xs bool_text "CHR 0x00"] by (simp add: Bool_Value_def Let_def length_bool_buffer)

lemma Bytea_Value_join:
  "Bytea_Value (Some xs) = Some (if 0 < length xs then join_texts (map bytea_text xs) else ''{}'')"
  using buffer_join [of xs bytea_text "CHR 0x00"] by (simp add: Bytea_Value_def Let_def length_bytea_buffer)

subsection \<open>Generic\<close>

text \<open>
  \<open>Generic\<close> works by reflection. A value to be rendered is a tree: an array or a slice
  that is rendered element by element (\<open>GSeq\<close>), or a leaf (a driver value, a byte slice or
  a \<open>Valuer\<close>) with its delimiter, if it implements \<open>Delimiter\<close>, and the outcome of
  \<open>driver.DefaultParameterConverter.ConvertValue\<close>: an error, nil, or a driver value.
\<close>

datatype 'f gvalue = GSeq "'f gvalue list" | GLeaf "string option" "goerr + 'f driver_value option"

definition appendValue ::
  "('f \<Rightarrow> string) \<Rightarrow> infinityTS \<Rightarrow> string \<Rightarrow> 'f driver_value \<Rightarrow> (goerr + string) call" where
  [simp]: "appendValue af its b v =
     (case encode af its None v 0 of
        Panics p \<Rightarrow> Panics p
      | Returns t \<Rightarrow> Returns (Inr (b @ t)))"

text \<open>\<open>appendArrayElement\<close> and the loop of \<open>appendArray\<close> behind its first element.\<close>

fun appendArrayElement ::
    "('f \<Rightarrow> string) \<Rightarrow> infinityTS \<Rightarrow> string \<Rightarrow> 'f gvalue \<Rightarrow> (goerr + string \<times> string) call" and
  appendArrayRest ::
    "('f \<Rightarrow> string) \<Rightarrow> infinityTS \<Rightarrow> string \<Rightarrow> string \<Rightarrow> 'f gvalue list \<Rightarrow> (goerr + string \<times> string) call" where
  "appendArrayElement af its b (GSeq []) = Returns (Inr (b, []))"
| "appendArrayElement af its b (GSeq (v # vs)) =
     (case appendArrayElement af its (b @ ''{'') v of
        Panics p \<Rightarrow> Panics p
      | Returns (Inl err) \<Rightarrow> Returns (Inl err)
      | Returns (Inr (b', del)) \<Rightarrow> appendArrayRest af its b' del vs)"
| "appendArrayElement af its b (GLeaf delimiter converted) =
     (let del = (case delimiter of None \<Rightarrow> '','' | Some d \<Rightarrow> d) in
      case converted of
        Inl err \<Rightarrow> Returns (Inl err)
      | Inr None \<Rightarrow> Returns (Inr (b @ ''NULL'', del))
      | Inr (Some (VBytes v)) \<Rightarrow> Returns (Inr (appendArrayQuotedBytes b v, del))
      | Inr (Some (VString v)) \<Rightarrow> Returns (Inr (appendArrayQuotedBytes b v, del))
      | Inr (Some v) \<Rightarrow>
          (case appendValue af its b v of
             Panics p \<Rightarrow> Panics p
           | Returns (Inl err) \<Rightarrow> Returns (Inl err)
           | Returns (Inr b') \<Rightarrow> Returns (Inr (b', del))))"
| "appendArrayRest af its b del [] = Returns (Inr (b @ ''}'', del))"
| "appendArrayRest af its b del (v # vs) =
     (case appendArrayElement af its (b @ del) v of
        Panics p \<Rightarrow> Panics p
      | Returns (Inl err) \<Rightarrow> Returns (Inl err)
      | Returns (Inr (b', del')) \<Rightarrow> appendArrayRest af its b' del' vs)"

definition appendArray ::
  "('f \<Rightarrow> string) \<Rightarrow> infinityTS \<Rightarrow> string \<Rightarrow> 'f gvalue list \<Rightarrow> (goerr + string \<times> string) call" where
  "appendArray af its b vs =
     (case appendArrayElement af its (b @ ''{'') (hd vs) of
        Panics p \<Rightarrow> Panics p
      | Returns (Inl err) \<Rightarrow> Returns (Inl err)
      | Returns (Inr (b', del)) \<Rightarrow> appendArrayRest af its b' del (tl vs))"

datatype 'f generic = GenericNil | GenericNilSlice | GenericOther string | GenericSeq "'f gvalue list"

definition Generic_Value ::
  "('f \<Rightarrow> string) \<Rightarrow> infinityTS \<Rightarrow> 'f generic \<Rightarrow> (goerr + string option) call" where
  "Generic_Value af its a =
     (case a of
        GenericNil \<Rightarrow> Returns (Inr None)
      | GenericNilSlice \<Rightarrow> Returns (Inr None)
      | GenericOther t \<Rightarrow> Returns (Inl (ErrMsg (''database: Unable to convert '' @ t @ '' to array'')))
      | GenericSeq vs \<Rightarrow>
          if vs = [] then Returns (Inr (Some ''{}''))
          else
            (case appendArray af its [] vs of
               Panics p \<Rightarrow> Panics p
             | Returns (Inl err) \<Rightarrow> Returns (Inl err)
             | Returns (Inr (b, del)) \<Rightarrow> Returns (Inr (Some b))))"

text \<open>
  The destination of a scan: what \<open>a.A\<close> points to, and the element type: its
  \<open>sql.Scanner\<close>, if its pointer implements it, and its delimiter.
\<close>

datatype kind = KSlice | KArray nat | KOther

datatype dest = NotPointer | NilPointer | PointerTo kind

record 'a elem_type =
  et_Scanner :: "(elem \<Rightarrow> goerr + 'a) option"
  et_Delimiter :: "string option"

datatype generic_error = GNotAPointer | GNilDestination | GCannotConvert | GArrayError arr_error
  | GMultiDimensional "nat list" | GWrongLength "nat list" | GElementError nat goerr

definition evaluateDestination :: "'a elem_type \<Rightarrow> (elem \<Rightarrow> goerr + 'a) \<times> string" where
  "evaluateDestination rt =
     (case et_Scanner rt of
        Some Scan \<Rightarrow> Scan
      | None \<Rightarrow> (\<lambda>_. Inl (ErrMsg ''database: scanning is not implemented; only sql.Scanner'')),
      case et_Delimiter rt of Some d \<Rightarrow> d | None \<Rightarrow> '','')"

fun assign_elems :: "(elem \<Rightarrow> goerr + 'a) \<Rightarrow> nat \<Rightarrow> elem list \<Rightarrow> 'a list \<Rightarrow> generic_error + 'a list" where
  "assign_elems assign i [] values = Inr values"
| "assign_elems assign i (e # es) values =
     (case assign e of Inl err \<Rightarrow> Inl (GElementError i err) | Inr x \<Rightarrow> assign_elems assign (Suc i) es (values @ [x]))"

text \<open>
  \<open>values.Slice(0, dims[0])\<close> and \<open>values.Index(i)\<close> panic beyond the scanned values.
\<close>

definition generic_scanBytes ::
  "'a elem_type \<Rightarrow> kind \<Rightarrow> string \<Rightarrow> ((generic_error + 'a list option) call) option" where
  "generic_scanBytes rt dv src =
     (case evaluateDestination rt of (assign, del) \<Rightarrow>
        case parseArray src del of
          None \<Rightarrow> None
        | Some (Panics p) \<Rightarrow> Some (Panics p)
        | Some (Returns (Inl err)) \<Rightarrow> Some (Returns (Inl (GArrayError err)))
        | Some (Returns (Inr (dims, elems))) \<Rightarrow>
            if 1 < length dims then Some (Returns (Inl (GMultiDimensional dims)))
            else
              let dims' = (if length dims = 0 then [0] else dims) in
              if (case dv of KArray n \<Rightarrow> n \<noteq> dims' ! 0 | _ \<Rightarrow> False) then Some (Returns (Inl (GWrongLength dims')))
              else
                (case assign_elems assign 0 elems [] of
                   Inl err \<Rightarrow> Some (Returns (Inl err))
                 | Inr values \<Rightarrow>
                     if length values < dims' ! 0 then Some (Panics ''reflect: slice index out of range'')
                     else Some (Returns (Inr (Some (take (dims' ! 0) values))))))"

definition Generic_Scan ::
  "'a elem_type \<Rightarrow> dest \<Rightarrow> sql_src \<Rightarrow> ((generic_error + 'a list option) call) option" where
  "Generic_Scan rt d src =
     (case d of
        NotPointer \<Rightarrow> Some (Returns (Inl GNotAPointer))
      | NilPointer \<Rightarrow> Some (Returns (Inl GNilDestination))
      | PointerTo KOther \<Rightarrow> Some (Returns (Inl GNotAPointer))
      | PointerTo dv \<Rightarrow>
          (case src of
             SrcBytes s \<Rightarrow> generic_scanBytes rt dv s
           | SrcString s \<Rightarrow> generic_scanBytes rt dv s
           | SrcNil \<Rightarrow>
               if dv = KSlice then Some (Returns (Inr None)) else Some (Returns (Inl GCannotConvert))
           | SrcOther t \<Rightarrow> Some (Returns (Inl GCannotConvert))))"

text \<open>The text of a one-dimensional array has as many elements as its dimension says.\<close>

lemma array_element_one:
  assumes "array_element n del s 1 [k] elems = Inr st"
  shows "sc_depth st = 1 \<and> sc_dims st = [k] \<and>
    (sc_rest st = [] \<or> hd (sc_rest st) = CHR ''{'' \<and> sc_elems st = elems \<or> length (sc_elems st) = Suc (length elems))"
  using assms by (cases s) (auto split: if_splits option.splits)

lemma array_after_zero: "array_after n del s 0 dims = Inr a \<Longrightarrow> a = Finished 0 dims"
  by (cases s) (auto split: if_splits)

lemma parse_loop_one:
  assumes "del \<noteq> []" "hd del \<noteq> CHR ''{''"
  shows "parse_loop n del s 1 [length elems] elems = Some (Inr st) \<Longrightarrow> sc_depth st = 0 \<Longrightarrow>
    sc_dims st = [length (sc_elems st)]"
proof (induction "length s" arbitrary: s elems rule: less_induct)
  case less
  obtain mid where mid: "array_element n del s 1 [length elems] elems = Inr mid"
    using less.prems(1) by (cases "array_element n del s 1 [length elems] elems") (simp_all add: parse_loop.simps)
  note m = array_element_one [OF mid]
  obtain a where a: "array_after n del (sc_rest mid) 1 [length elems] = Inr a"
    using less.prems(1) mid m by (cases "array_after n del (sc_rest mid) 1 [length elems]")
      (simp_all add: parse_loop.simps)
  show ?case
  proof (cases "sc_rest mid")
    case Nil
    with a less.prems mid m show ?thesis
      by (auto simp: parse_loop.simps [of n del s])
  next
    case (Cons c t)
    show ?thesis
    proof (cases "prefix del (c # t)")
      case True
      let ?s' = "drop (length del) (c # t)"
      from True assms(2) have "c \<noteq> CHR ''{''"
        by (cases del) (use assms(1) in auto)
      with m Cons have len: "length (sc_elems mid) = Suc (length elems)"
        by auto
      have "a = Again ?s' 1 [Suc (length elems)]"
        using a True Cons by simp
      moreover from this have "length ?s' < length s"
        using array_after_shorter [of n del "sc_rest mid" 1 "[length elems]" ?s'] a
          array_element_shorter [OF mid] assms(1) by simp
      moreover have "parse_loop n del ?s' 1 [length (sc_elems mid)] (sc_elems mid) = Some (Inr st)"
        using less.prems(1) mid m a calculation(1) len by (simp add: parse_loop.simps [of n del s])
      ultimately show ?thesis
        using less.hyps less.prems(2) by blast
    next
      case False
      with a Cons have c: "c = CHR ''}''" "array_after n del t 0 [Suc (length elems)] = Inr a"
        by (auto split: if_splits)
      then have "a = Finished 0 [Suc (length elems)]"
        by (intro array_after_zero)
      with m Cons c less.prems mid a show ?thesis
        by (auto simp: parse_loop.simps [of n del s])
    qed
  qed
qed

lemma array_element_length:
  "array_element n del s depth dims elems = Inr st \<Longrightarrow> length (sc_dims st) = length dims"
  by (induction n del s depth dims elems rule: array_element.induct)
    (auto split: if_splits option.splits)

lemma array_after_length:
  "array_after n del s depth dims = Inr a \<Longrightarrow>
    (case a of Finished d m \<Rightarrow> length m = length dims | Again s' d m \<Rightarrow> length m = length dims)"
  by (induction n del s depth dims rule: array_after.induct) (auto split: if_splits after.splits)

lemma parse_loop_length:
  assumes "del \<noteq> []"
  shows "parse_loop n del s depth dims elems = Some (Inr st) \<Longrightarrow> length (sc_dims st) = length dims"
proof (induction "length s" arbitrary: s depth dims elems rule: less_induct)
  case less
  obtain mid where mid: "array_element n del s depth dims elems = Inr mid"
    using less.prems by (cases "array_element n del s depth dims elems") (simp_all add: parse_loop.simps)
  obtain a where a: "array_after n del (sc_rest mid) (sc_depth mid) (sc_dims mid) = Inr a"
    using less.prems mid by (cases "array_after n del (sc_rest mid) (sc_depth mid) (sc_dims mid)")
      (simp_all add: parse_loop.simps)
  note len = array_after_length [OF a] array_element_length [OF mid]
  show ?case
  proof (cases a)
    case (Finished d m)
    with less.prems mid a len show ?thesis
      by (auto simp: parse_loop.simps)
  next
    case (Again s' d m)
    then have "length s' < length s"
      using array_after_shorter [OF a [unfolded Again] assms] array_element_shorter [OF mid] by simp
    moreover have "parse_loop n del s' d m (sc_elems mid) = Some (Inr st)"
      using less.prems mid a Again by (simp add: parse_loop.simps [of n del s])
    ultimately show ?thesis
      using less.hyps len Again by simp
  qed
qed

lemma finish_array_Inr:
  "finish_array n depth dims elems = Returns (Inr (dims', elems')) \<Longrightarrow> depth = 0 \<and> dims' = dims \<and> elems' = elems"
  by (auto simp: finish_array_def split: if_splits call.splits option.splits)

lemma array_open_one: "src \<noteq> [] \<Longrightarrow> hd src = CHR ''{'' \<Longrightarrow> array_open 0 src = (depth, s) \<Longrightarrow> 0 < depth"
proof -
  have "array_open d t = (d', s) \<Longrightarrow> d \<le> d'" for d t d'
    by (induction d t rule: array_open.induct) (auto split: if_splits)
  from this [of 1 "tl src" depth] show "src \<noteq> [] \<Longrightarrow> hd src = CHR ''{'' \<Longrightarrow> array_open 0 src = (depth, s) \<Longrightarrow> 0 < depth"
    by (cases src) auto
qed

lemma parseArray_one:
  assumes "del \<noteq> []" "hd del \<noteq> CHR ''{''"
    and "parseArray src del = Some (Returns (Inr (dims, elems)))" and "length dims \<le> 1"
  shows "dims = [] \<and> elems = [] \<or> dims = [length elems]"
proof -
  obtain depth s where opened: "array_open 0 src = (depth, s)"
    by fastforce
  have "src \<noteq> [] \<and> hd src = CHR ''{''"
    by (rule ccontr) (use assms(3) in \<open>auto simp: parseArray_def Let_def\<close>)
  then have src: "src \<noteq> []" "hd src = CHR ''{''" by simp_all
  note depth = array_open_one [OF src opened]
  show ?thesis
  proof (cases "s \<noteq> [] \<and> hd s = CHR ''}''")
    case True
    with assms(3) src opened show ?thesis
      by (auto simp: parseArray_def Let_def split: sum.splits dest: finish_array_Inr)
  next
    case False
    then obtain st where st: "parse_loop (length src) del s depth (replicate depth 0) [] = Some (Inr st)"
      "finish_array (length src) (sc_depth st) (sc_dims st) (sc_elems st) = Returns (Inr (dims, elems))"
      using assms(3) src opened by (auto simp: parseArray_def Let_def split: option.splits sum.splits if_splits)
    then have fin: "sc_depth st = 0" "dims = sc_dims st" "elems = sc_elems st"
      using finish_array_Inr by blast+
    then have "depth = 1"
      using parse_loop_length [OF assms(1) st(1)] assms(4) depth by simp
    with st(1) have "parse_loop (length src) del s 1 [length ([] :: elem list)] [] = Some (Inr st)"
      by simp
    from parse_loop_one [OF assms(1,2) this fin(1)] fin show ?thesis
      by simp
  qed
qed

lemma assign_elems_length:
  "assign_elems assign i es vs = Inr values \<Longrightarrow> length values = length vs + length es"
  by (induction assign i es vs rule: assign_elems.induct) (auto split: sum.splits)

lemma generic_scanBytes_returns:
  assumes "snd (evaluateDestination rt) \<noteq> []" "hd (snd (evaluateDestination rt)) \<noteq> CHR ''{''"
  shows "\<exists>r. generic_scanBytes rt dv src = Some (Returns r)"
proof -
  obtain assign del where ev: "evaluateDestination rt = (assign, del)"
    by fastforce
  with assms have del: "del \<noteq> []" "hd del \<noteq> CHR ''{''" by simp_all
  obtain r where r: "parseArray src del = Some (Returns r)"
    using parseArray_returns [OF del(1)] by blast
  show ?thesis
  proof (cases r)
    case (Inl err)
    with ev r show ?thesis by (simp add: generic_scanBytes_def)
  next
    case (Inr p)
    then obtain dims elems where p: "r = Inr (dims, elems)" by (cases p) simp
    show ?thesis
    proof (cases "length dims \<le> 1")
      case False
      with ev r p show ?thesis by (simp add: generic_scanBytes_def)
    next
      case True
      have "dims = [] \<and> elems = [] \<or> dims = [length elems]"
        using parseArray_one [OF del r [unfolded p] True] .
      then show ?thesis
        using ev r p assign_elems_length [of assign 0 elems "[]"]
        by (auto simp: generic_scanBytes_def Let_def split: sum.splits)
    qed
  qed
qed

lemma appendArray_drops_empty: "appendArray af its b (GSeq [] # x # xs) = appendArray af its b (x # xs)"
  unfolding appendArray_def list.sel by simp

lemmas scan_defs = Int64_Scan_def Int64_scanBytes_def Int32_Scan_def Int32_scanBytes_def Bool_Scan_def
  Bool_scanBytes_def String_Scan_def String_scanBytes_def Bytea_Scan_def Bytea_scanBytes_def
  scan_src_def sql_src.case

lemma int64_trip:
  "\<exists>t. Int64_Value (Some xs) = Some t \<and> Int64_Scan a (SrcString t) = Some (Returns (Inr (Some xs))) \<and>
    Int64_Scan a (SrcBytes t) = Some (Returns (Inr (Some xs)))"
  unfolding Int64_Value_def option.case scan_defs
  by (rule exI conjI refl int64_array.scan_texts)+

lemma int32_trip:
  "\<exists>t. Int32_Value (Some xs) = Some t \<and> Int32_Scan a (SrcString t) = Some (Returns (Inr (Some xs)))"
  unfolding Int32_Value_def option.case scan_defs
  by (rule exI conjI refl int32_array.scan_texts)+

lemma bool_trip:
  "\<exists>t. Bool_Value (Some xs) = Some t \<and> Bool_Scan a (SrcString t) = Some (Returns (Inr (Some xs)))"
  unfolding Bool_Value_join scan_defs
  by (rule exI conjI refl bool_array.scan_texts)+

lemma string_trip:
  "\<exists>t. String_Value (Some xs) = Some t \<and> String_Scan a (SrcString t) = Some (Returns (Inr (Some xs)))"
  unfolding String_Value_def option.case scan_defs
  by (rule exI conjI refl string_array.scan_texts)+

lemma bytea_trip:
  "\<exists>t. Bytea_Value (Some xs) = Some t \<and> Bytea_Scan a (SrcString t) = Some (Returns (Inr (Some xs)))"
  unfolding Bytea_Value_join scan_defs
  by (rule exI conjI refl bytea_array.scan_texts)+

lemma Int64_null: "Int64_Value None = None \<and> Int64_Scan a SrcNil = Some (Returns (Inr None))"
  by (simp add: Int64_Value_def Int64_Scan_def scan_src_def)

subsection \<open>Properties\<close>

text \<open>
  integers and booleans survive a trip through the database's text form: scanning what
  \<open>Value\<close> rendered, as a string or as bytes and into any previous value, gives the same
  array, for every length from 0 and every element, the extreme ones included; NULL goes
  to nil and back.
\<close>

theorem number_arrays_round_trip:
  "(\<exists>t. Int64_Value (Some xs) = Some t \<and> Int64_Scan a (SrcString t) = Some (Returns (Inr (Some xs))) \<and>
      Int64_Scan a (SrcBytes t) = Some (Returns (Inr (Some xs)))) \<and>
    (\<exists>t. Int32_Value (Some ys) = Some t \<and> Int32_Scan b (SrcString t) = Some (Returns (Inr (Some ys)))) \<and>
    (\<exists>t. Bool_Value (Some zs) = Some t \<and> Bool_Scan c (SrcString t) = Some (Returns (Inr (Some zs)))) \<and>
    Int64_Value None = None \<and> Int64_Scan a SrcNil = Some (Returns (Inr None))"
  using int64_trip int32_trip bool_trip Int64_null by blast

text \<open>
  C37: strings and byte strings survive it too, whatever they hold: quotes, backslashes, braces,
  commas, the word NULL, the empty string.
\<close>

theorem string_arrays_round_trip:
  "(\<exists>t. String_Value (Some xs) = Some t \<and> String_Scan a (SrcString t) = Some (Returns (Inr (Some xs)))) \<and>
    (\<exists>t. Bytea_Value (Some xs) = Some t \<and> Bytea_Scan a (SrcString t) = Some (Returns (Inr (Some xs))))"
  using string_trip bytea_trip by blast

text \<open>
  \<open>Generic.Scan\<close> returns and never panics, for every source text, destination and
  element type whose delimiter is not empty and does not start with an opening brace: the
  first dimension never exceeds the number of scanned elements.
\<close>

theorem Generic_Scan_total:
  assumes "\<forall>del. et_Delimiter rt = Some del \<longrightarrow> del \<noteq> [] \<and> hd del \<noteq> CHR ''{''"
  shows "\<exists>r. Generic_Scan rt d src = Some (Returns r)"
proof -
  have "snd (evaluateDestination rt) \<noteq> []" "hd (snd (evaluateDestination rt)) \<noteq> CHR ''{''"
    using assms by (auto simp: evaluateDestination_def split: option.splits)
  note ok = generic_scanBytes_returns [OF this]
  show ?thesis
    using ok by (auto simp: Generic_Scan_def split: dest.splits kind.splits sql_src.splits)
qed

theorem Generic_Scan_total_witness:
  "\<exists>r. Generic_Scan \<lparr>et_Scanner = Some (\<lambda>e. Inr (elem_bytes e)), et_Delimiter = Some '';''\<rparr> (PointerTo KSlice)
    (SrcString ''{a;b'') = Some (Returns r)"
  by (rule Generic_Scan_total) simp

text \<open>
  \<open>Generic.Value\<close> loses empty inner arrays: an empty inner array contributes neither
  brackets nor a delimiter, so that two different values are rendered as the same text.
\<close>

theorem Generic_Value_drops_empty:
  "Generic_Value af its (GenericSeq (GSeq [] # vs @ [v])) = Generic_Value af its (GenericSeq (vs @ [v]))"
proof -
  obtain x xs where "vs @ [v] = x # xs"
    by (cases vs) auto
  then show ?thesis
    by (simp add: Generic_Value_def appendArray_drops_empty)
qed

end
