(* ===== verification/DBArray_Buffers.thy ===== *)
theory DBArray_Buffers
  imports DBArray_Types
begin

section \<open>Array texts written in place\<close>

text \<open>
  \<open>Bool.Value\<close> and \<open>Bytea.Value\<close> compute the size of the text first and then write
  into a buffer of that size by index; \<open>appendArrayQuotedBytes\<close> copies the text in
  chunks. The theory models the writing, with the panic of a write out of range, and shows
  that it gives the same text as joining the elements. It also holds \<open>Array\<close>, which
  chooses the wrapper of a value by its type.
\<close>

subsection \<open>Writing into a buffer\<close>

definition then_call :: "'a call \<Rightarrow> ('a \<Rightarrow> 'b call) \<Rightarrow> 'b call" where
  "then_call m f = (case m of Returns x \<Rightarrow> f x | Panics p \<Rightarrow> Panics p)"

lemma then_call_simps [simp]: "then_call (Returns x) f = f x" "then_call (Panics p) f = Panics p"
  by (simp_all add: then_call_def)

text \<open>\<open>b[i] = c\<close> and \<open>copy(b[i:], src)\<close>.\<close>

definition put :: "nat \<Rightarrow> char \<Rightarrow> string \<Rightarrow> string call" where
  "put i c b = (if i < length b then Returns (b[i := c]) else Panics ''runtime error: index out of range'')"

definition copy_at :: "nat \<Rightarrow> string \<Rightarrow> string \<Rightarrow> string" where
  "copy_at i src b = take i b @ take (length b - i) src @ drop (i + length src) b"

definition zeroes :: "nat \<Rightarrow> string" where
  "zeroes n = replicate n (CHR 0x00)"

subsection \<open>Bool.Value\<close>

fun bool_fill :: "bool list \<Rightarrow> nat \<Rightarrow> string \<Rightarrow> string call" where
  "bool_fill [] i b = Returns b"
| "bool_fill (x # xs) i b =
     then_call (put (2 * i) (CHR '','') b) (\<lambda>b1.
     then_call (put (1 + 2 * i) (if x then CHR ''t'' else CHR ''f'') b1) (\<lambda>b2.
     bool_fill xs (Suc i) b2))"

definition Bool_Value_in_place :: "bool list option \<Rightarrow> string option call" where
  "Bool_Value_in_place a =
     (case a of
        None \<Rightarrow> Returns None
      | Some xs \<Rightarrow>
          let n = length xs in
          if 0 < n then
            then_call (bool_fill xs 0 (zeroes (1 + 2 * n))) (\<lambda>b1.
            then_call (put 0 (CHR ''{'') b1) (\<lambda>b2.
            then_call (put (2 * n) (CHR ''}'') b2) (\<lambda>b3. Returns (Some b3))))
          else Returns (Some ''{}''))"

subsection \<open>Bytea.Value\<close>

text \<open>
  \<open>s\<close> is the offset in the buffer at which the slice \<open>s\<close> of the code starts.
  \<open>hex.Encode\<close> panics when its destination is too short.
\<close>

definition hex_at :: "nat \<Rightarrow> string \<Rightarrow> string \<Rightarrow> string call" where
  "hex_at i src b =
     (if i + 2 * length src \<le> length b then Returns (copy_at i (hex_Encode src) b)
      else Panics ''runtime error: index out of range'')"

fun bytea_fill :: "string list \<Rightarrow> nat \<Rightarrow> string \<Rightarrow> string call" where
  "bytea_fill [] s b = Returns b"
| "bytea_fill (x # xs) s b =
     (let prefix = [CHR '','', CHR 0x22, CHR 0x5C, CHR 0x5C, CHR ''x''];
          o1 = s + min (length prefix) (length b - s);
          b1 = copy_at s prefix b
      in then_call (hex_at o1 x b1) (\<lambda>b2.
         let o2 = o1 + 2 * length x in
         then_call (put o2 (CHR 0x22) b2) (\<lambda>b3.
         bytea_fill xs (Suc o2) b3)))"

definition Bytea_Value_in_place :: "string list option \<Rightarrow> string option call" where
  "Bytea_Value_in_place a =
     (case a of
        None \<Rightarrow> Returns None
      | Some xs \<Rightarrow>
          let n = length xs; size = 1 + 6 * n + sum_list (map (\<lambda>x. 2 * length x) xs) in
          if 0 < n then
            then_call (bytea_fill xs 0 (zeroes size)) (\<lambda>b1.
            then_call (put 0 (CHR ''{'') b1) (\<lambda>b2.
            then_call (put (size - 1) (CHR ''}'') b2) (\<lambda>b3. Returns (Some b3))))
          else Returns (Some ''{}''))"

subsection \<open>The buffers are exactly filled\<close>

lemma zeroes_Suc: "zeroes (Suc n) = CHR 0x00 # zeroes n"
  by (simp add: zeroes_def)

lemma put_next: "length pre = i \<Longrightarrow> put i c (pre @ d # rest) = Returns (pre @ c # rest)"
  by (auto simp: put_def)

lemma copy_next: "length pre = i \<Longrightarrow> length src = k \<Longrightarrow> copy_at i src (pre @ zeroes (k + m)) = pre @ src @ zeroes m"
  by (simp add: copy_at_def zeroes_def)

lemma bool_fill_exact:
  "length pre = 2 * i \<Longrightarrow> bool_fill xs i (pre @ zeroes (Suc (2 * length xs))) =
    Returns (pre @ concat (map (\<lambda>x. CHR '','' # bool_text x) xs) @ zeroes 1)"
proof (induction xs arbitrary: pre i)
  case Nil
  then show ?case by simp
next
  case (Cons x xs)
  let ?c = "if x then CHR ''t'' else CHR ''f''" and ?rest = "zeroes (Suc (2 * length xs))"
  have z: "zeroes (Suc (2 * length (x # xs))) = CHR 0x00 # CHR 0x00 # ?rest"
    by (simp add: zeroes_Suc)
  have p1: "put (2 * i) (CHR '','') (pre @ CHR 0x00 # CHR 0x00 # ?rest) =
      Returns ((pre @ '','') @ CHR 0x00 # ?rest)"
    using Cons.prems by (simp add: put_next)
  have p2: "put (1 + 2 * i) ?c ((pre @ '','') @ CHR 0x00 # ?rest) = Returns ((pre @ '','') @ ?c # ?rest)"
    using Cons.prems by (intro put_next) simp
  have shape: "(pre @ '','') @ ?c # ?rest = (pre @ CHR '','' # bool_text x) @ ?rest"
    by (simp add: bool_text_def)
  have "bool_fill xs (Suc i) ((pre @ CHR '','' # bool_text x) @ ?rest) =
      Returns ((pre @ CHR '','' # bool_text x) @ concat (map (\<lambda>x. CHR '','' # bool_text x) xs) @ zeroes 1)"
    using Cons.prems by (intro Cons.IH) (simp add: bool_text_def)
  then show ?case
    unfolding bool_fill.simps z p1 then_call_simps p2 shape by simp
qed

definition bytea_size :: "string list \<Rightarrow> nat" where
  "bytea_size xs = 6 * length xs + sum_list (map (\<lambda>x. 2 * length x) xs)"

lemma bytea_fill_exact:
  "length pre = s \<Longrightarrow> bytea_fill xs s (pre @ zeroes (Suc (bytea_size xs))) =
    Returns (pre @ concat (map (\<lambda>x. CHR '','' # bytea_text x) xs) @ zeroes 1)"
proof (induction xs arbitrary: pre s)
  case Nil
  then show ?case by (simp add: bytea_size_def)
next
  case (Cons x xs)
  let ?p = "[CHR '','', CHR 0x22, CHR 0x5C, CHR 0x5C, CHR ''x'']"
  let ?rest = "zeroes (Suc (bytea_size xs))"
  have size: "Suc (bytea_size (x # xs)) = 5 + (2 * length x + Suc (Suc (bytea_size xs)))"
    by (simp add: bytea_size_def)
  have len: "min (length ?p) (length (pre @ zeroes (Suc (bytea_size (x # xs)))) - s) = 5"
    using Cons.prems by (simp add: bytea_size_def zeroes_def)
  have b1: "copy_at s ?p (pre @ zeroes (Suc (bytea_size (x # xs)))) =
      (pre @ ?p) @ zeroes (2 * length x + Suc (Suc (bytea_size xs)))"
    unfolding size using Cons.prems by (subst copy_next) simp_all
  have b2: "hex_at (s + 5) x ((pre @ ?p) @ zeroes (2 * length x + Suc (Suc (bytea_size xs)))) =
      Returns ((pre @ ?p @ hex_Encode x) @ CHR 0x00 # ?rest)"
    using Cons.prems copy_next [of "pre @ ?p" "s + 5" "hex_Encode x" "2 * length x" "Suc (Suc (bytea_size xs))"]
    by (simp add: hex_at_def length_hex_Encode zeroes_Suc) (simp add: zeroes_def)
  have b3: "put (s + 5 + 2 * length x) (CHR 0x22) ((pre @ ?p @ hex_Encode x) @ CHR 0x00 # ?rest) =
      Returns ((pre @ ?p @ hex_Encode x) @ CHR 0x22 # ?rest)"
    using Cons.prems by (intro put_next) (simp add: length_hex_Encode)
  have shape: "(pre @ ?p @ hex_Encode x) @ CHR 0x22 # ?rest = (pre @ CHR '','' # bytea_text x) @ ?rest"
    by (simp add: bytea_text_def)
  have ih: "bytea_fill xs (Suc (s + 5 + 2 * length x)) ((pre @ CHR '','' # bytea_text x) @ ?rest) =
      Returns ((pre @ CHR '','' # bytea_text x) @ concat (map (\<lambda>x. CHR '','' # bytea_text x) xs) @ zeroes 1)"
    using Cons.prems by (intro Cons.IH) (simp add: bytea_text_def length_hex_Encode)
  show ?case
    unfolding bytea_fill.simps Let_def len b1 b2 then_call_simps b3 shape ih by simp
qed

text \<open>The reference: the texts of the elements between braces, separated by commas.\<close>

definition array_text :: "string list \<Rightarrow> string" where
  "array_text ts = ''{'' @ join_with '','' ts @ ''}''"

lemma array_text_join: "ts \<noteq> [] \<Longrightarrow> join_texts ts = array_text ts"
proof -
  have "(@) '','' = (#) (CHR '','')"
    by (simp add: fun_eq_iff)
  then show "ts \<noteq> [] \<Longrightarrow> join_texts ts = array_text ts"
    by (cases ts) (simp_all add: array_text_def join_with_def join_texts_Cons comma_texts_concat)
qed

text \<open>The text of a byte string between quotes, every special character escaped.\<close>

definition quoted :: "string \<Rightarrow> string" where
  "quoted v = [CHR 0x22] @ concat (map (\<lambda>c. if c = CHR 0x22 \<or> c = CHR 0x5C then [CHR 0x5C, c] else [c]) v) @ [CHR 0x22]"

lemma bool_in_place: "Bool_Value_in_place a = Returns (Bool_Value a)"
proof (cases a)
  case None
  then show ?thesis by (simp add: Bool_Value_in_place_def Bool_Value_def)
next
  case (Some xs)
  have "bool_fill xs 0 (zeroes (Suc (2 * length xs))) = Returns (concat (map (\<lambda>x. CHR '','' # bool_text x) xs) @ zeroes 1)"
    using bool_fill_exact [of "[]" 0 xs] by simp
  then show ?thesis
    by (simp add: Some Bool_Value_in_place_def Bool_Value_def Let_def put_def zeroes_def length_bool_buffer)
qed

lemma bytea_in_place: "Bytea_Value_in_place a = Returns (Bytea_Value a)"
proof (cases a)
  case None
  then show ?thesis by (simp add: Bytea_Value_in_place_def Bytea_Value_def)
next
  case (Some xs)
  have size: "1 + 6 * length xs + sum_list (map (\<lambda>x. 2 * length x) xs) = Suc (bytea_size xs)"
    by (simp add: bytea_size_def)
  have "bytea_fill xs 0 (zeroes (Suc (bytea_size xs))) =
      Returns (concat (map (\<lambda>x. CHR '','' # bytea_text x) xs) @ zeroes 1)"
    using bytea_fill_exact [of "[]" 0 xs] by simp
  moreover have "length (concat (map (\<lambda>x. CHR '','' # bytea_text x) xs)) = bytea_size xs"
    by (simp only: length_bytea_buffer bytea_size_def)
  ultimately show ?thesis
    unfolding Some Bytea_Value_in_place_def Bytea_Value_def option.case Let_def size
    by (simp add: put_def zeroes_def)
qed

lemma Bool_Value_array: "Bool_Value a = map_option (\<lambda>xs. array_text (map bool_text xs)) a"
proof (cases a)
  case (Some xs)
  show ?thesis
    unfolding Some Bool_Value_join by (simp add: array_text_join) (simp add: array_text_def join_with_def)
qed (simp add: Bool_Value_def)

lemma Bytea_Value_array: "Bytea_Value a = map_option (\<lambda>xs. array_text (map bytea_text xs)) a"
proof (cases a)
  case (Some xs)
  show ?thesis
    unfolding Some Bytea_Value_join by (simp add: array_text_join) (simp add: array_text_def join_with_def)
qed (simp add: Bytea_Value_def)

subsection \<open>Array\<close>

text \<open>The types that have a wrapper of their own, by value or by pointer.\<close>

datatype slice_type = TBool | TFloat64 | TFloat32 | TInt64 | TInt32 | TString | TBytea

datatype array_arg = ArgSlice slice_type | ArgPointer slice_type | ArgAny string

datatype array_wrapper = WBool | WFloat64 | WFloat32 | WInt64 | WInt32 | WString | WBytea | WGeneric string

definition wrapper_of :: "slice_type \<Rightarrow> array_wrapper" where
  "wrapper_of t = (case t of TBool \<Rightarrow> WBool | TFloat64 \<Rightarrow> WFloat64 | TFloat32 \<Rightarrow> WFloat32 | TInt64 \<Rightarrow> WInt64
     | TInt32 \<Rightarrow> WInt32 | TString \<Rightarrow> WString | TBytea \<Rightarrow> WBytea)"

definition Array :: "array_arg \<Rightarrow> array_wrapper" where
  "Array a = (case a of ArgSlice t \<Rightarrow> wrapper_of t | ArgPointer t \<Rightarrow> wrapper_of t | ArgAny v \<Rightarrow> WGeneric v)"

lemma array_generic_iff: "(\<exists>v. Array a = WGeneric v) \<longleftrightarrow> (\<exists>v. a = ArgAny v)"
  by (cases a) (simp_all add: Array_def wrapper_of_def split: slice_type.split)

subsection \<open>Properties\<close>

text \<open>
  C8: the text builders that work in place are equivalent to the reference: the buffers of
  \<open>Bool.Value\<close> and \<open>Bytea.Value\<close> have exactly the computed size, no write is out of
  range, and what they hold is the element texts joined by commas between braces; the
  chunk loop of \<open>appendArrayQuotedBytes\<close> appends the quoted text with a backslash
  before every quote and backslash, and nothing else.
\<close>

theorem in_place_texts:
  "Bool_Value_in_place a =
     Returns (map_option (\<lambda>xs. array_text (map (\<lambda>x. if x then ''t'' else ''f'') xs)) a) \<and>
   Bytea_Value_in_place y =
     Returns (map_option (\<lambda>ys. array_text (map (\<lambda>x. [CHR 0x22, CHR 0x5C, CHR 0x5C, CHR ''x''] @ hex_Encode x @ [CHR 0x22]) ys)) y) \<and>
   appendArrayQuotedBytes b v = b @ quoted v"
proof (intro conjI)
  show "Bool_Value_in_place a =
      Returns (map_option (\<lambda>xs. array_text (map (\<lambda>x. if x then ''t'' else ''f'') xs)) a)"
    by (simp add: bool_in_place Bool_Value_array bool_text_def [abs_def])
  show "Bytea_Value_in_place y =
      Returns (map_option (\<lambda>ys. array_text (map (\<lambda>x. [CHR 0x22, CHR 0x5C, CHR 0x5C, CHR ''x''] @ hex_Encode x @ [CHR 0x22]) ys)) y)"
    by (simp add: bytea_in_place Bytea_Value_array bytea_text_def [abs_def])
  show "appendArrayQuotedBytes b v = b @ quoted v"
    by (simp add: appendArrayQuotedBytes_def quote_loop_escaped escaped_def quoted_def is_special_def)
qed

end
