(* ===== verification/Shp_Domain.thy ===== *)
theory Shp_Domain
  imports Complex_Main World
begin

section \<open>The shipment domain: model, Storer interface, Business\<close>

text \<open>
  \<open>services/shipment/internal/domain/shipment\<close>: the \<open>Shipment\<close> aggregate, the
  \<open>Storer\<close> interface and the \<open>Business\<close> operations over it. A slice is a list, a
  slice that may be nil an \<open>option\<close> of one, a pointer an \<open>option\<close>; following a nil
  pointer is the panic of the Go runtime. A float64 is the rational number it denotes (the
  code does not compute with coordinates; NaN and the infinities are left out).
\<close>

subsection \<open>Model\<close>

datatype ShipmentStatus = ShipmentStatus string

definition StatusCreated :: ShipmentStatus where
  "StatusCreated = ShipmentStatus ''CREATED''"

definition StatusPickedUp :: ShipmentStatus where
  "StatusPickedUp = ShipmentStatus ''PICKED_UP''"

definition StatusInTransit :: ShipmentStatus where
  "StatusInTransit = ShipmentStatus ''IN_TRANSIT''"

definition StatusDelayed :: ShipmentStatus where
  "StatusDelayed = ShipmentStatus ''DELAYED''"

definition StatusDelivered :: ShipmentStatus where
  "StatusDelivered = ShipmentStatus ''DELIVERED''"

definition StatusCancelled :: ShipmentStatus where
  "StatusCancelled = ShipmentStatus ''CANCELLED''"

type_synonym float64 = rat

record ShipmentItem =
  si_ShipmentID :: string
  si_SKU :: string
  si_Quantity :: int64

record ShipmentTracking =
  st_ShipmentID :: string
  st_Sequence :: int64
  st_Latitude :: float64
  st_Longitude :: float64
  st_RecordedAt :: gotime

record StatusHistoryChange =
  sh_ShipmentID :: string
  sh_Sequence :: int64
  sh_OldStatus :: ShipmentStatus
  sh_NewStatus :: ShipmentStatus
  sh_Reason :: string
  sh_ChangedAt :: gotime

record Shipment =
  shp_ID :: string
  shp_Carrier :: string
  shp_TrackingNumber :: string
  shp_OriginLocationID :: string
  shp_DestinationLocationID :: string
  shp_Status :: ShipmentStatus
  shp_ETA :: gotime
  shp_DispatchedAt :: gotime
  shp_DeliveredAt :: gotime
  shp_CreatedAt :: gotime
  shp_UpdatedAt :: gotime
  shp_Items :: "ShipmentItem list"
  shp_TrackingLogs :: "ShipmentTracking list"
  shp_StatusHistory :: "StatusHistoryChange list"

record UpdateShipment =
  us_Carrier :: "string option"
  us_TrackingNumber :: "string option"
  us_OriginLocationID :: "string option"
  us_DestinationLocationID :: "string option"
  us_Status :: "ShipmentStatus option"
  us_ETA :: "gotime option"
  us_DispatchedAt :: "gotime option"
  us_DeliveredAt :: "gotime option"
  us_UpdatedAt :: "gotime option"
  us_Items :: "ShipmentItem option list option"
  us_TrackingLogs :: "ShipmentTracking option list option"
  us_StatusHistory :: "StatusHistoryChange option list option"

record NewShipment =
  ns_Carrier :: string
  ns_TrackingNumber :: string
  ns_OriginLocationID :: string
  ns_DestinationLocationID :: string
  ns_Status :: ShipmentStatus
  ns_ETA :: gotime
  ns_DispatchedAt :: gotime
  ns_Items :: "ShipmentItem list"

text \<open>A zero \<open>time.Time\<close> is the year 1.\<close>

definition time_zero :: gotime where
  "time_zero = - 62135596800 * 1000000000"

subsection \<open>Storer\<close>

record 'w shp_Storer =
  ss_QueryByID :: "string \<Rightarrow> ('w, goerr + Shipment) state"
  ss_Create :: "Shipment \<Rightarrow> ('w, goerr option) state"
  ss_Update :: "Shipment \<Rightarrow> ('w, goerr option) state"
  ss_Delete :: "Shipment \<Rightarrow> ('w, goerr option) state"

subsection \<open>Business\<close>

text \<open>\<open>tx_storer\<close> is what \<open>NewWithTx\<close> of the storer answers for the transaction.\<close>

record ('l, 'w) shp_Business =
  shpbiz_log :: 'l
  shpbiz_storer :: "'w shp_Storer"

definition shp_NewBusiness :: "'l \<Rightarrow> 'w shp_Storer \<Rightarrow> ('l, 'w) shp_Business" where
  "shp_NewBusiness logger storer = \<lparr>shpbiz_log = logger, shpbiz_storer = storer\<rparr>"

definition shpbus_NewWithTx ::
  "('l, 'w) shp_Business \<Rightarrow> goerr + 'v shp_Storer \<Rightarrow> goerr + ('l, 'v) shp_Business" where
  "shpbus_NewWithTx b tx_storer =
     (case tx_storer of
        Inl err \<Rightarrow> Inl err
      | Inr storer \<Rightarrow> Inr (shp_NewBusiness (shpbiz_log b) storer))"

text \<open>The aggregate that \<open>Create\<close> builds; its items keep the shipment id the caller gave them.\<close>

definition new_shipment :: "string \<Rightarrow> gotime \<Rightarrow> NewShipment \<Rightarrow> Shipment" where
  "new_shipment sid now nshp =
     \<lparr>shp_ID = sid, shp_Carrier = ns_Carrier nshp, shp_TrackingNumber = ns_TrackingNumber nshp,
      shp_OriginLocationID = ns_OriginLocationID nshp,
      shp_DestinationLocationID = ns_DestinationLocationID nshp, shp_Status = ns_Status nshp,
      shp_ETA = ns_ETA nshp, shp_DispatchedAt = ns_DispatchedAt nshp, shp_DeliveredAt = time_zero,
      shp_CreatedAt = now, shp_UpdatedAt = time_zero, shp_Items = ns_Items nshp,
      shp_TrackingLogs = [], shp_StatusHistory = []\<rparr>"

definition shpbus_Create ::
  "('w, string) state \<Rightarrow> ('w, gotime) state \<Rightarrow> 'w shp_Storer \<Rightarrow> NewShipment \<Rightarrow> ('w, goerr + Shipment) state" where
  [run_defs]: "shpbus_Create uuid now storer nshp =
     do {
       sid \<leftarrow> uuid;
       t \<leftarrow> now;
       let shp = new_shipment sid t nshp;
       r \<leftarrow> ss_Create storer shp;
       case r of
         Some err \<Rightarrow> State_Monad.return (Inl (ErrWrap ''create shipment: '' err))
       | None \<Rightarrow> State_Monad.return (Inr shp)
     }"

definition nil_dereference :: string where
  "nil_dereference = ''runtime error: invalid memory address or nil pointer dereference''"

text \<open>The loop that appends \<open>*item\<close>; the first nil pointer panics.\<close>

fun append_derefs :: "'a list \<Rightarrow> 'a option list \<Rightarrow> 'a list call" where
  "append_derefs acc [] = Returns acc"
| "append_derefs acc (None # ps) = Panics nil_dereference"
| "append_derefs acc (Some x # ps) = append_derefs (acc @ [x]) ps"

text \<open>The nil checks of the scalar fields, in the order of the code.\<close>

definition set_if :: "'a option \<Rightarrow> ('a \<Rightarrow> 's \<Rightarrow> 's) \<Rightarrow> 's \<Rightarrow> 's" where
  "set_if p upd s = (case p of None \<Rightarrow> s | Some x \<Rightarrow> upd x s)"

definition update_scalars :: "UpdateShipment \<Rightarrow> Shipment \<Rightarrow> Shipment" where
  "update_scalars ushp shp =
     (let s1 = set_if (us_Carrier ushp) (\<lambda>x s. s\<lparr>shp_Carrier := x\<rparr>) shp;
          s2 = set_if (us_TrackingNumber ushp) (\<lambda>x s. s\<lparr>shp_TrackingNumber := x\<rparr>) s1;
          s3 = set_if (us_OriginLocationID ushp) (\<lambda>x s. s\<lparr>shp_OriginLocationID := x\<rparr>) s2;
          s4 = set_if (us_DestinationLocationID ushp) (\<lambda>x s. s\<lparr>shp_DestinationLocationID := x\<rparr>) s3;
          s5 = set_if (us_DispatchedAt ushp) (\<lambda>x s. s\<lparr>shp_DispatchedAt := x\<rparr>) s4;
          s6 = set_if (us_Status ushp) (\<lambda>x s. s\<lparr>shp_Status := x\<rparr>) s5
      in set_if (us_ETA ushp) (\<lambda>x s. s\<lparr>shp_ETA := x\<rparr>) s6)"

definition update_lists :: "UpdateShipment \<Rightarrow> Shipment \<Rightarrow> Shipment call" where
  "update_lists ushp shp =
     (case (case us_Items ushp of None \<Rightarrow> Returns (shp_Items shp) | Some ps \<Rightarrow> append_derefs [] ps) of
        Panics p \<Rightarrow> Panics p
      | Returns items \<Rightarrow>
          (case (case us_TrackingLogs ushp of None \<Rightarrow> Returns (shp_TrackingLogs shp)
               | Some ps \<Rightarrow> append_derefs (shp_TrackingLogs shp) ps) of
             Panics p \<Rightarrow> Panics p
           | Returns logs \<Rightarrow>
               (case (case us_StatusHistory ushp of None \<Rightarrow> Returns (shp_StatusHistory shp)
                    | Some ps \<Rightarrow> append_derefs (shp_StatusHistory shp) ps) of
                  Panics p \<Rightarrow> Panics p
                | Returns hist \<Rightarrow> Returns (shp\<lparr>shp_Items := items, shp_TrackingLogs := logs,
                    shp_StatusHistory := hist\<rparr>))))"

definition shpbus_Update ::
  "('w, gotime) state \<Rightarrow> 'w shp_Storer \<Rightarrow> Shipment \<Rightarrow> UpdateShipment \<Rightarrow> ('w, (goerr + Shipment) call) state" where
  [run_defs]: "shpbus_Update now storer shp ushp =
     (case update_lists ushp (update_scalars ushp shp) of
        Panics p \<Rightarrow> State_Monad.return (Panics p)
      | Returns shp1 \<Rightarrow>
          do {
            t \<leftarrow> now;
            let shp2 = shp1\<lparr>shp_UpdatedAt := t\<rparr>;
            r \<leftarrow> ss_Update storer shp2;
            case r of
              Some err \<Rightarrow> State_Monad.return (Returns (Inl (ErrWrap ''update shipment: '' err)))
            | None \<Rightarrow> State_Monad.return (Returns (Inr shp2))
          })"

definition shpbus_Delete :: "'w shp_Storer \<Rightarrow> Shipment \<Rightarrow> ('w, goerr option) state" where
  [run_defs]: "shpbus_Delete storer shp =
     do {
       r \<leftarrow> ss_Delete storer shp;
       case r of
         Some err \<Rightarrow> State_Monad.return (Some (ErrWrap ''delete shipment: '' err))
       | None \<Rightarrow> State_Monad.return None
     }"

definition shpbus_QueryById :: "'w shp_Storer \<Rightarrow> string \<Rightarrow> ('w, goerr + Shipment) state" where
  [run_defs]: "shpbus_QueryById storer sid =
     do {
       r \<leftarrow> ss_QueryByID storer sid;
       case r of
         Inl err \<Rightarrow> State_Monad.return (Inl (ErrWrap (''query shipment: ID['' @ sid @ ''] : '') err))
       | Inr shp \<Rightarrow> State_Monad.return (Inr shp)
     }"

lemma append_derefs_Returns: "append_derefs acc (map Some xs) = Returns (acc @ xs)"
  by (induction xs arbitrary: acc) simp_all

lemma append_derefs_nil: "None \<in> set ps \<Longrightarrow> append_derefs acc ps = Panics nil_dereference"
  by (induction acc ps rule: append_derefs.induct) auto

text \<open>
  What \<open>Update\<close> never touches: the identity, the creation time, and the delivery time,
  which \<open>UpdateShipment\<close> carries but the code does not copy.
\<close>

lemma update_scalars_keeps [simp]:
  "shp_ID (update_scalars u s) = shp_ID s" "shp_CreatedAt (update_scalars u s) = shp_CreatedAt s"
  "shp_DeliveredAt (update_scalars u s) = shp_DeliveredAt s" "shp_Items (update_scalars u s) = shp_Items s"
  "shp_TrackingLogs (update_scalars u s) = shp_TrackingLogs s"
  "shp_StatusHistory (update_scalars u s) = shp_StatusHistory s"
  by (simp_all add: update_scalars_def set_if_def Let_def split: option.splits)

lemma update_lists_keeps:
  "update_lists u s = Returns s' \<Longrightarrow> shp_ID s' = shp_ID s \<and> shp_CreatedAt s' = shp_CreatedAt s \<and>
     shp_DeliveredAt s' = shp_DeliveredAt s"
  by (auto simp: update_lists_def split: call.splits option.splits)

subsection \<open>The contract of a Storer\<close>

text \<open>
  \<open>known w sid\<close>: the store holds the shipment \<open>sid\<close> in the world \<open>w\<close>. A read holds
  nothing new and drops nothing; a successful deletion drops exactly its shipment.
\<close>

locale shp_store =
  fixes S :: "'w shp_Storer"
    and known :: "'w \<Rightarrow> string \<Rightarrow> bool"
  assumes query_known: "known (exec (ss_QueryByID S sid) w) = known w"
    and delete_other: "sid \<noteq> shp_ID shp \<Longrightarrow> known (exec (ss_Delete S shp) w) sid = known w sid"
    and delete_ok: "result (ss_Delete S shp) w = None \<Longrightarrow> \<not> known (exec (ss_Delete S shp) w) (shp_ID shp)"
begin

lemma bus_delete:
  assumes "result (shpbus_Delete S shp) w = None"
  shows "known (exec (shpbus_Delete S shp) w) = (\<lambda>sid. sid \<noteq> shp_ID shp \<and> known w sid)"
proof -
  have "result (ss_Delete S shp) w = None" "exec (shpbus_Delete S shp) w = exec (ss_Delete S shp) w"
    using assms by (auto simp: shpbus_Delete_def split_beta split: option.splits)
  then show ?thesis
    using delete_ok [of shp w] delete_other [of _ shp w] by (metis (no_types, opaque_lifting))
qed

lemma bus_query: "known (exec (shpbus_QueryById S sid) w) = known w"
  by (simp add: shpbus_QueryById_def split_beta query_known split: sum.splits)

end

end
