(* ===== verification/Shp_DB.thy ===== *)
theory Shp_DB
  imports Shp_Domain SqlDB
begin

section \<open>The PostgreSQL store of the shipment service: stores/shipmentdb\<close>

text \<open>
  \<open>stores/shipmentdb\<close> with the four tables of \<open>migrate/sql/migrate.sql\<close>. A table is
  the list of its rows; the statements of the store are functions on the tables, which the
  primary keys, the unique tracking number, the foreign keys with their cascades, the
  checks and the column types accept or refuse. A statement over a slice is what
  \<open>sqlx.NamedExec\<close> makes of it: one insertion of all rows; what sqlx does with an empty
  slice is not code of the repository and is the argument \<open>bind_empty\<close>.
\<close>

subsection \<open>The structs of the store and their conversions\<close>

record shipmentItemDB =
  sid_ShipmentID :: string
  sid_SKU :: string
  sid_Quantity :: int64

record shipmentTrackingDB =
  std_ShipmentID :: string
  std_Sequence :: int64
  std_Latitude :: float64
  std_Longitude :: float64
  std_RecordedAt :: gotime

record statusHistoryChangeDB =
  shd_ShipmentID :: string
  shd_Sequence :: int64
  shd_OldStatus :: string
  shd_NewStatus :: string
  shd_Reason :: string
  shd_ChangedAt :: gotime

record shipmentDB =
  sdb_ID :: string
  sdb_Carrier :: string
  sdb_TrackingNumber :: string
  sdb_OriginLocationID :: string
  sdb_DestinationLocationID :: string
  sdb_Status :: string
  sdb_ETA :: gotime
  sdb_DispatchedAt :: gotime
  sdb_DeliveredAt :: gotime
  sdb_CreatedAt :: gotime
  sdb_UpdatedAt :: gotime
  sdb_Items :: "shipmentItemDB list"
  sdb_TrackingLogs :: "shipmentTrackingDB list"
  sdb_StatusHistory :: "statusHistoryChangeDB list"

primrec status_text :: "ShipmentStatus \<Rightarrow> string" where
  "status_text (ShipmentStatus s) = s"

definition toDBShipmentItems :: "ShipmentItem list \<Rightarrow> shipmentItemDB list" where
  "toDBShipmentItems = map (\<lambda>b. \<lparr>sid_ShipmentID = si_ShipmentID b, sid_SKU = si_SKU b,
     sid_Quantity = si_Quantity b\<rparr>)"

definition toBusShipmentItems :: "shipmentItemDB list \<Rightarrow> ShipmentItem list" where
  "toBusShipmentItems = map (\<lambda>d. \<lparr>si_ShipmentID = sid_ShipmentID d, si_SKU = sid_SKU d,
     si_Quantity = sid_Quantity d\<rparr>)"

definition toDBShipmentTrackings :: "ShipmentTracking list \<Rightarrow> shipmentTrackingDB list" where
  "toDBShipmentTrackings = map (\<lambda>b. \<lparr>std_ShipmentID = st_ShipmentID b, std_Sequence = st_Sequence b,
     std_Latitude = st_Latitude b, std_Longitude = st_Longitude b, std_RecordedAt = st_RecordedAt b\<rparr>)"

definition toBusShipmentTrackings :: "shipmentTrackingDB list \<Rightarrow> ShipmentTracking list" where
  "toBusShipmentTrackings = map (\<lambda>d. \<lparr>st_ShipmentID = std_ShipmentID d, st_Sequence = std_Sequence d,
     st_Latitude = std_Latitude d, st_Longitude = std_Longitude d, st_RecordedAt = std_RecordedAt d\<rparr>)"

definition toDBStatusHistoryChanges :: "StatusHistoryChange list \<Rightarrow> statusHistoryChangeDB list" where
  "toDBStatusHistoryChanges = map (\<lambda>b. \<lparr>shd_ShipmentID = sh_ShipmentID b, shd_Sequence = sh_Sequence b,
     shd_OldStatus = status_text (sh_OldStatus b), shd_NewStatus = status_text (sh_NewStatus b),
     shd_Reason = sh_Reason b, shd_ChangedAt = sh_ChangedAt b\<rparr>)"

definition toBusStatusHistoryChanges :: "statusHistoryChangeDB list \<Rightarrow> StatusHistoryChange list" where
  "toBusStatusHistoryChanges = map (\<lambda>d. \<lparr>sh_ShipmentID = shd_ShipmentID d, sh_Sequence = shd_Sequence d,
     sh_OldStatus = ShipmentStatus (shd_OldStatus d), sh_NewStatus = ShipmentStatus (shd_NewStatus d),
     sh_Reason = shd_Reason d, sh_ChangedAt = shd_ChangedAt d\<rparr>)"

definition toDBShipment :: "Shipment \<Rightarrow> shipmentDB" where
  "toDBShipment shp = \<lparr>sdb_ID = shp_ID shp, sdb_Carrier = shp_Carrier shp,
     sdb_TrackingNumber = shp_TrackingNumber shp, sdb_OriginLocationID = shp_OriginLocationID shp,
     sdb_DestinationLocationID = shp_DestinationLocationID shp, sdb_Status = status_text (shp_Status shp),
     sdb_ETA = shp_ETA shp, sdb_DispatchedAt = shp_DispatchedAt shp, sdb_DeliveredAt = shp_DeliveredAt shp,
     sdb_CreatedAt = shp_CreatedAt shp, sdb_UpdatedAt = shp_UpdatedAt shp,
     sdb_Items = toDBShipmentItems (shp_Items shp),
     sdb_TrackingLogs = toDBShipmentTrackings (shp_TrackingLogs shp),
     sdb_StatusHistory = toDBStatusHistoryChanges (shp_StatusHistory shp)\<rparr>"

definition toBusShipment :: "shipmentDB \<Rightarrow> Shipment" where
  "toBusShipment d = \<lparr>shp_ID = sdb_ID d, shp_Carrier = sdb_Carrier d,
     shp_TrackingNumber = sdb_TrackingNumber d, shp_OriginLocationID = sdb_OriginLocationID d,
     shp_DestinationLocationID = sdb_DestinationLocationID d, shp_Status = ShipmentStatus (sdb_Status d),
     shp_ETA = sdb_ETA d, shp_DispatchedAt = sdb_DispatchedAt d, shp_DeliveredAt = sdb_DeliveredAt d,
     shp_CreatedAt = sdb_CreatedAt d, shp_UpdatedAt = sdb_UpdatedAt d,
     shp_Items = toBusShipmentItems (sdb_Items d),
     shp_TrackingLogs = toBusShipmentTrackings (sdb_TrackingLogs d),
     shp_StatusHistory = toBusStatusHistoryChanges (sdb_StatusHistory d)\<rparr>"

lemma status_text_inverse [simp]: "ShipmentStatus (status_text s) = s"
  by (cases s) simp

lemma items_trip [simp]: "toBusShipmentItems (toDBShipmentItems xs) = xs"
  by (simp add: toBusShipmentItems_def toDBShipmentItems_def comp_def map_idI)

lemma trackings_trip [simp]: "toBusShipmentTrackings (toDBShipmentTrackings xs) = xs"
  by (simp add: toBusShipmentTrackings_def toDBShipmentTrackings_def comp_def map_idI)

lemma history_trip [simp]: "toBusStatusHistoryChanges (toDBStatusHistoryChanges xs) = xs"
  by (simp add: toBusStatusHistoryChanges_def toDBStatusHistoryChanges_def comp_def map_idI)

lemma shipment_trip [simp]: "toBusShipment (toDBShipment shp) = shp"
  by (simp add: toBusShipment_def toDBShipment_def)

subsection \<open>The tables\<close>

text \<open>
  A row of \<open>shipments\<close> and of \<open>shipment_status_history\<close> has nullable columns, which
  the structs of the store do not have.
\<close>

record shipment_row =
  row_ID :: string
  row_Carrier :: string
  row_TrackingNumber :: "string option"
  row_Origin :: string
  row_Destination :: string
  row_Status :: string
  row_ETA :: "gotime option"
  row_DispatchedAt :: "gotime option"
  row_DeliveredAt :: "gotime option"
  row_CreatedAt :: gotime
  row_UpdatedAt :: gotime

record history_row =
  hr_ShipmentID :: string
  hr_Seq :: int64
  hr_OldStatus :: string
  hr_NewStatus :: string
  hr_Reason :: "string option"
  hr_ChangedAt :: gotime

record shp_tables =
  t_shipments :: "shipment_row list"
  t_items :: "shipmentItemDB list"
  t_tracking :: "shipmentTrackingDB list"
  t_history :: "history_row list"

text \<open>SQLSTATE codes: numeric range, foreign key, check, syntax.\<close>

definition out_of_range :: string where
  "out_of_range = ''22003''"

definition foreign_key_violation :: string where
  "foreign_key_violation = ''23503''"

definition check_violation :: string where
  "check_violation = ''23514''"

definition syntax_error :: string where
  "syntax_error = ''42601''"

definition shipment_exists :: "string \<Rightarrow> shp_tables \<Rightarrow> bool" where
  "shipment_exists sid t \<longleftrightarrow> sid \<in> row_ID ` set (t_shipments t)"

definition header_row :: "(gotime \<Rightarrow> gotime) \<Rightarrow> shipmentDB \<Rightarrow> shipment_row" where
  "header_row ts d = \<lparr>row_ID = sdb_ID d, row_Carrier = sdb_Carrier d,
     row_TrackingNumber = Some (sdb_TrackingNumber d), row_Origin = sdb_OriginLocationID d,
     row_Destination = sdb_DestinationLocationID d, row_Status = sdb_Status d,
     row_ETA = Some (ts (sdb_ETA d)), row_DispatchedAt = Some (ts (sdb_DispatchedAt d)),
     row_DeliveredAt = Some (ts (sdb_DeliveredAt d)), row_CreatedAt = ts (sdb_CreatedAt d),
     row_UpdatedAt = ts (sdb_UpdatedAt d)\<rparr>"

definition sql_insert_shipment :: "(gotime \<Rightarrow> gotime) \<Rightarrow> shipmentDB \<Rightarrow> shp_tables \<Rightarrow> string + shp_tables" where
  "sql_insert_shipment ts d t =
     (if shipment_exists (sdb_ID d) t \<or>
         Some (sdb_TrackingNumber d) \<in> row_TrackingNumber ` set (t_shipments t)
      then Inl uniqueViolation
      else Inr (t\<lparr>t_shipments := t_shipments t @ [header_row ts d]\<rparr>))"

text \<open>\<open>created_at\<close> is not among the columns of the UPDATE statement.\<close>

definition sql_update_shipment :: "(gotime \<Rightarrow> gotime) \<Rightarrow> shipmentDB \<Rightarrow> shp_tables \<Rightarrow> string + shp_tables" where
  "sql_update_shipment ts d t =
     (if shipment_exists (sdb_ID d) t \<and> (\<exists>r \<in> set (t_shipments t). row_ID r \<noteq> sdb_ID d \<and>
           row_TrackingNumber r = Some (sdb_TrackingNumber d))
      then Inl uniqueViolation
      else Inr (t\<lparr>t_shipments := map (\<lambda>r. if row_ID r = sdb_ID d
         then (header_row ts d)\<lparr>row_CreatedAt := row_CreatedAt r\<rparr> else r) (t_shipments t)\<rparr>))"

text \<open>The rows that reference a deleted shipment are deleted with it.\<close>

definition sql_delete_shipment :: "string \<Rightarrow> shp_tables \<Rightarrow> string + shp_tables" where
  "sql_delete_shipment sid t = Inr
     \<lparr>t_shipments = filter (\<lambda>r. row_ID r \<noteq> sid) (t_shipments t),
      t_items = filter (\<lambda>r. sid_ShipmentID r \<noteq> sid) (t_items t),
      t_tracking = filter (\<lambda>r. std_ShipmentID r \<noteq> sid) (t_tracking t),
      t_history = filter (\<lambda>r. hr_ShipmentID r \<noteq> sid) (t_history t)\<rparr>"

text \<open>
  One statement inserts all rows: each is checked and compared with the keys of the table
  and of the rows before it; the foreign keys are checked at the end.
\<close>

fun insert_rows :: "('r \<Rightarrow> string option) \<Rightarrow> ('r \<Rightarrow> 'k) \<Rightarrow> 'r list \<Rightarrow> 'r list \<Rightarrow> string + 'r list" where
  "insert_rows refuse key t [] = Inr t"
| "insert_rows refuse key t (r # rs) =
     (case refuse r of
        Some code \<Rightarrow> Inl code
      | None \<Rightarrow>
          if key r \<in> key ` set t then Inl uniqueViolation else insert_rows refuse key (t @ [r]) rs)"

definition item_refused :: "shipmentItemDB \<Rightarrow> string option" where
  "item_refused r =
     (if \<not> (- (2 ^ 31) \<le> sint (sid_Quantity r) \<and> sint (sid_Quantity r) < 2 ^ 31) then Some out_of_range
      else if sint (sid_Quantity r) \<le> 0 then Some check_violation
      else None)"

definition tracking_refused :: "shipmentTrackingDB \<Rightarrow> string option" where
  "tracking_refused r =
     (if - 90 \<le> std_Latitude r \<and> std_Latitude r \<le> 90 \<and> - 180 \<le> std_Longitude r \<and> std_Longitude r \<le> 180
      then None else Some check_violation)"

definition sql_insert_items :: "shipmentItemDB list \<Rightarrow> shp_tables \<Rightarrow> string + shp_tables" where
  "sql_insert_items rows t =
     (case insert_rows item_refused (\<lambda>r. (sid_ShipmentID r, sid_SKU r)) (t_items t) rows of
        Inl code \<Rightarrow> Inl code
      | Inr items \<Rightarrow>
          if \<forall>r \<in> set rows. shipment_exists (sid_ShipmentID r) t then Inr (t\<lparr>t_items := items\<rparr>)
          else Inl foreign_key_violation)"

definition sql_insert_tracking ::
  "(gotime \<Rightarrow> gotime) \<Rightarrow> shipmentTrackingDB list \<Rightarrow> shp_tables \<Rightarrow> string + shp_tables" where
  "sql_insert_tracking ts rows t =
     (case insert_rows tracking_refused (\<lambda>r. (std_ShipmentID r, std_Sequence r)) (t_tracking t)
          (map (\<lambda>r. r\<lparr>std_RecordedAt := ts (std_RecordedAt r)\<rparr>) rows) of
        Inl code \<Rightarrow> Inl code
      | Inr trk \<Rightarrow>
          if \<forall>r \<in> set rows. shipment_exists (std_ShipmentID r) t then Inr (t\<lparr>t_tracking := trk\<rparr>)
          else Inl foreign_key_violation)"

definition to_history_row :: "(gotime \<Rightarrow> gotime) \<Rightarrow> statusHistoryChangeDB \<Rightarrow> history_row" where
  "to_history_row ts d = \<lparr>hr_ShipmentID = shd_ShipmentID d, hr_Seq = shd_Sequence d,
     hr_OldStatus = shd_OldStatus d, hr_NewStatus = shd_NewStatus d, hr_Reason = Some (shd_Reason d),
     hr_ChangedAt = ts (shd_ChangedAt d)\<rparr>"

definition sql_insert_history ::
  "(gotime \<Rightarrow> gotime) \<Rightarrow> statusHistoryChangeDB list \<Rightarrow> shp_tables \<Rightarrow> string + shp_tables" where
  "sql_insert_history ts rows t =
     (case insert_rows (\<lambda>_. None) (\<lambda>r. (hr_ShipmentID r, hr_Seq r)) (t_history t) (map (to_history_row ts) rows) of
        Inl code \<Rightarrow> Inl code
      | Inr hist \<Rightarrow>
          if \<forall>r \<in> set rows. shipment_exists (shd_ShipmentID r) t then Inr (t\<lparr>t_history := hist\<rparr>)
          else Inl foreign_key_violation)"

text \<open>The last statement of \<open>Update\<close> is literally \<open>INSERT INTO ... (...) VALUES (...)\<close>.\<close>

definition sql_insert_history_elided :: "statusHistoryChangeDB list \<Rightarrow> shp_tables \<Rightarrow> string + shp_tables" where
  "sql_insert_history_elided rows t = Inl syntax_error"

definition sql_delete_items :: "string \<Rightarrow> shp_tables \<Rightarrow> string + shp_tables" where
  "sql_delete_items sid t = Inr (t\<lparr>t_items := filter (\<lambda>r. sid_ShipmentID r \<noteq> sid) (t_items t)\<rparr>)"

definition sql_delete_tracking :: "string \<Rightarrow> shp_tables \<Rightarrow> string + shp_tables" where
  "sql_delete_tracking sid t = Inr (t\<lparr>t_tracking := filter (\<lambda>r. std_ShipmentID r \<noteq> sid) (t_tracking t)\<rparr>)"

definition sql_delete_history :: "string \<Rightarrow> shp_tables \<Rightarrow> string + shp_tables" where
  "sql_delete_history sid t = Inr (t\<lparr>t_history := filter (\<lambda>r. hr_ShipmentID r \<noteq> sid) (t_history t)\<rparr>)"

subsection \<open>Running statements\<close>

record 'c shp_world = "'c world" +
  w_tables :: shp_tables

definition run_stmt ::
  "(shp_tables \<Rightarrow> string + shp_tables) \<Rightarrow> ('c, 'x) shp_world_scheme \<Rightarrow>
   goerr option \<times> ('c, 'x) shp_world_scheme" where
  "run_stmt stmt w =
     (case stmt (w_tables w) of Inl code \<Rightarrow> (Some (ErrPg code), w) | Inr t \<Rightarrow> (None, w\<lparr>w_tables := t\<rparr>))"

definition sdb_exec ::
  "('c, 'm) env \<Rightarrow> (shp_tables \<Rightarrow> string + shp_tables) \<Rightarrow> (('c, 'x) shp_world_scheme, goerr option) state" where
  [run_defs]: "sdb_exec env stmt = State (\<lambda>w. case tick w of (n, w') \<Rightarrow>
     (case e_db env n of
        NoFault \<Rightarrow> run_stmt stmt w'
      | FaultBefore e \<Rightarrow> (Some e, w')
      | FaultAfter e \<Rightarrow> (Some e, snd (run_stmt stmt w'))))"

definition sdb_exec_slice ::
  "('c, 'm) env \<Rightarrow> goerr option \<Rightarrow> ('r list \<Rightarrow> shp_tables \<Rightarrow> string + shp_tables) \<Rightarrow> 'r list \<Rightarrow>
   (('c, 'x) shp_world_scheme, goerr option) state" where
  [run_defs]: "sdb_exec_slice env bind_empty stmt rows =
     (case rows of [] \<Rightarrow> State_Monad.return bind_empty | _ \<Rightarrow> sdb_exec env (stmt rows))"

definition sdb_query ::
  "('c, 'm) env \<Rightarrow> (shp_tables \<Rightarrow> 'r list) \<Rightarrow> (('c, 'x) shp_world_scheme, goerr + 'r rows) state" where
  [run_defs]: "sdb_query env q = State (\<lambda>w. case tick w of (n, w') \<Rightarrow>
     (case e_db env n of
        NoFault \<Rightarrow> (Inr \<lparr>rows_list = q (w_tables w'), rows_Err = None\<rparr>, w')
      | FaultBefore e \<Rightarrow> (Inl e, w')
      | FaultAfter e \<Rightarrow> (Inl e, w')))"

text \<open>\<open>StructScan\<close> fails on a NULL column, since no field of the structs can hold one.\<close>

definition null_error :: goerr where
  "null_error = ErrMsg ''sql: Scan error: converting NULL is unsupported''"

definition scan_shipment :: "shipment_row \<Rightarrow> goerr + shipmentDB" where
  "scan_shipment r =
     (case (row_TrackingNumber r, row_ETA r, row_DispatchedAt r, row_DeliveredAt r) of
        (Some tn, Some eta, Some disp, Some del) \<Rightarrow> Inr
          \<lparr>sdb_ID = row_ID r, sdb_Carrier = row_Carrier r, sdb_TrackingNumber = tn,
           sdb_OriginLocationID = row_Origin r, sdb_DestinationLocationID = row_Destination r,
           sdb_Status = row_Status r, sdb_ETA = eta, sdb_DispatchedAt = disp, sdb_DeliveredAt = del,
           sdb_CreatedAt = row_CreatedAt r, sdb_UpdatedAt = row_UpdatedAt r,
           sdb_Items = [], sdb_TrackingLogs = [], sdb_StatusHistory = []\<rparr>
      | _ \<Rightarrow> Inl null_error)"

definition scan_history :: "history_row \<Rightarrow> goerr + statusHistoryChangeDB" where
  "scan_history r =
     (case hr_Reason r of
        None \<Rightarrow> Inl null_error
      | Some reason \<Rightarrow> Inr \<lparr>shd_ShipmentID = hr_ShipmentID r, shd_Sequence = hr_Seq r,
          shd_OldStatus = hr_OldStatus r, shd_NewStatus = hr_NewStatus r, shd_Reason = reason,
          shd_ChangedAt = hr_ChangedAt r\<rparr>)"

subsection \<open>The store\<close>

definition wrap_exec :: "string \<Rightarrow> (('w, goerr option) state) \<Rightarrow> ('w, goerr option) state \<Rightarrow> ('w, goerr option) state" where
  [run_defs]: "wrap_exec prefix_text m next =
     do {
       r \<leftarrow> NamedExecContext m;
       case r of Some err \<Rightarrow> State_Monad.return (Some (ErrWrap prefix_text err)) | None \<Rightarrow> next
     }"

definition shpdb_Create ::
  "('c, 'm) env \<Rightarrow> goerr option \<Rightarrow> Shipment \<Rightarrow> (('c, 'x) shp_world_scheme, goerr option) state" where
  [run_defs]: "shpdb_Create env bind_empty shp =
     wrap_exec ''namedexeccontext: '' (sdb_exec env (sql_insert_shipment (e_pgtime env) (toDBShipment shp)))
     (wrap_exec ''namedexeccontext:''
        (sdb_exec_slice env bind_empty sql_insert_items (toDBShipmentItems (shp_Items shp)))
     (wrap_exec ''namedexeccontext:''
        (sdb_exec_slice env bind_empty (sql_insert_tracking (e_pgtime env)) (toDBShipmentTrackings (shp_TrackingLogs shp)))
     (wrap_exec ''namedexeccontext:''
        (sdb_exec_slice env bind_empty (sql_insert_history (e_pgtime env)) (toDBStatusHistoryChanges (shp_StatusHistory shp)))
     (State_Monad.return None))))"

definition shpdb_Delete ::
  "('c, 'm) env \<Rightarrow> Shipment \<Rightarrow> (('c, 'x) shp_world_scheme, goerr option) state" where
  [run_defs]: "shpdb_Delete env shp =
     wrap_exec ''namedexeccontext: '' (sdb_exec env (sql_delete_shipment (shp_ID shp))) (State_Monad.return None)"

text \<open>A statement whose error \<open>Update\<close> returns as it is; the deletions bypass sqldb.\<close>

definition then_exec :: "('w, goerr option) state \<Rightarrow> ('w, goerr option) state \<Rightarrow> ('w, goerr option) state" where
  [run_defs]: "then_exec m next =
     do { r \<leftarrow> m; case r of Some err \<Rightarrow> State_Monad.return (Some err) | None \<Rightarrow> next }"

definition shpdb_Update ::
  "('c, 'm) env \<Rightarrow> goerr option \<Rightarrow> Shipment \<Rightarrow> (('c, 'x) shp_world_scheme, goerr option) state" where
  [run_defs]: "shpdb_Update env bind_empty shp =
     then_exec (NamedExecContext (sdb_exec env (sql_update_shipment (e_pgtime env) (toDBShipment shp))))
     (then_exec (sdb_exec env (sql_delete_items (shp_ID shp)))
     (then_exec (NamedExecContext
        (sdb_exec_slice env bind_empty sql_insert_items (toDBShipmentItems (shp_Items shp))))
     (then_exec (sdb_exec env (sql_delete_tracking (shp_ID shp)))
     (then_exec (NamedExecContext
        (sdb_exec_slice env bind_empty (sql_insert_tracking (e_pgtime env)) (toDBShipmentTrackings (shp_TrackingLogs shp))))
     (then_exec (sdb_exec env (sql_delete_history (shp_ID shp)))
     (then_exec (NamedExecContext
        (sdb_exec_slice env bind_empty sql_insert_history_elided (toDBStatusHistoryChanges (shp_StatusHistory shp))))
     (State_Monad.return None)))))))"

definition shpdb_QueryByID ::
  "('c, 'm) env \<Rightarrow> string \<Rightarrow> (('c, 'x) shp_world_scheme, goerr + Shipment) state" where
  [run_defs]: "shpdb_QueryByID env sid =
     do {
       h \<leftarrow> NamedQueryStruct (sdb_query env (\<lambda>t. filter (\<lambda>r. row_ID r = sid) (t_shipments t))) scan_shipment;
       case h of
         Inl err \<Rightarrow> State_Monad.return (Inl (ErrWrap ''db: '' err))
       | Inr dbShp \<Rightarrow>
           do {
             i \<leftarrow> NamedQuerySlice (sdb_query env (\<lambda>t. filter (\<lambda>r. sid_ShipmentID r = sid) (t_items t))) Inr;
             case i of
               Inl err \<Rightarrow> State_Monad.return (Inl (ErrWrap ''db: '' err))
             | Inr dbItems \<Rightarrow>
                 do {
                   l \<leftarrow> NamedQuerySlice (sdb_query env (\<lambda>t. filter (\<lambda>r. std_ShipmentID r = sid) (t_tracking t))) Inr;
                   case l of
                     Inl err \<Rightarrow> State_Monad.return (Inl (ErrWrap ''db: '' err))
                   | Inr dbTls \<Rightarrow>
                       do {
                         s \<leftarrow> NamedQuerySlice (sdb_query env (\<lambda>t. filter (\<lambda>r. hr_ShipmentID r = sid) (t_history t)))
                           scan_history;
                         case s of
                           Inl err \<Rightarrow> State_Monad.return (Inl (ErrWrap ''db: '' err))
                         | Inr dbShs \<Rightarrow> State_Monad.return (Inr
                             ((toBusShipment dbShp)
                               \<lparr>shp_Items := toBusShipmentItems dbItems,
                                shp_TrackingLogs := toBusShipmentTrackings dbTls,
                                shp_StatusHistory := toBusStatusHistoryChanges dbShs\<rparr>))
                       }
                 }
           }
     }"

definition shpdb_Store :: "('c, 'm) env \<Rightarrow> goerr option \<Rightarrow> (('c, 'x) shp_world_scheme) shp_Storer" where
  "shpdb_Store env bind_empty = \<lparr>ss_QueryByID = shpdb_QueryByID env, ss_Create = shpdb_Create env bind_empty,
     ss_Update = shpdb_Update env bind_empty, ss_Delete = shpdb_Delete env\<rparr>"

text \<open>\<open>NewWithTx\<close>: the same store over the transaction's handle, its environment.\<close>

definition shpdb_NewWithTx ::
  "goerr option \<Rightarrow> ('c, 'm) env transactor \<Rightarrow> goerr + (('c, 'x) shp_world_scheme) shp_Storer" where
  "shpdb_NewWithTx bind_empty tx =
     (case GetExtContext tx of Inl err \<Rightarrow> Inl err | Inr ec \<Rightarrow> Inr (shpdb_Store ec bind_empty))"

subsection \<open>Runs of the statements\<close>

lemma exec_NamedExec: "exec (NamedExecContext m) w = exec m w"
  by (simp add: NamedExecContext_def split_beta split: option.splits)

lemma NamedExec_None: "result (NamedExecContext m) w = None \<longleftrightarrow> result m w = None"
  by (simp add: NamedExecContext_def split_beta split: option.splits)

lemma wrap_exec_run:
  "exec (wrap_exec p m next) w = (if result m w = None then exec next (exec m w) else exec m w)"
  "result (wrap_exec p m next) w = None \<longleftrightarrow> result m w = None \<and> result next (exec m w) = None"
proof -
  show "exec (wrap_exec p m next) w = (if result m w = None then exec next (exec m w) else exec m w)"
    using NamedExec_None [of m w]
    by (auto simp: wrap_exec_def split_beta exec_NamedExec split: option.splits)
  show "result (wrap_exec p m next) w = None \<longleftrightarrow> result m w = None \<and> result next (exec m w) = None"
    using NamedExec_None [of m w]
    by (auto simp: wrap_exec_def split_beta exec_NamedExec split: option.splits)
qed

lemma then_exec_run:
  "exec (then_exec m next) w = (if result m w = None then exec next (exec m w) else exec m w)"
  "result (then_exec m next) w = None \<longleftrightarrow> result m w = None \<and> result next (exec m w) = None"
  by (auto simp: then_exec_def split_beta split: option.splits)

lemma then_exec_next: "result m w = None \<Longrightarrow> exec (then_exec m next) w = exec next (exec m w)"
  by (simp add: then_exec_run)

lemma then_exec_last: "exec (then_exec m (State_Monad.return None)) w = exec m w"
  by (simp add: then_exec_run)

lemma sdb_exec_ok:
  "result (sdb_exec env stmt) w = None \<longleftrightarrow> e_db env (w_tick w) = NoFault \<and> (\<exists>t. stmt (w_tables w) = Inr t)"
  by (auto simp: sdb_exec_def tick_def run_stmt_def split_beta split: db_fault.splits sum.splits)

lemma sdb_exec_tables:
  "w_tables (exec (sdb_exec env stmt) w) =
     (case e_db env (w_tick w) of
        FaultBefore e \<Rightarrow> w_tables w
      | _ \<Rightarrow> (case stmt (w_tables w) of Inl c \<Rightarrow> w_tables w | Inr t \<Rightarrow> t))"
  by (auto simp: sdb_exec_def tick_def run_stmt_def split_beta split: db_fault.splits sum.splits)

lemma sdb_query_tables [simp]: "w_tables (exec (sdb_query env q) w) = w_tables w"
  by (simp add: sdb_query_def tick_def split: db_fault.splits)

lemma query_tables:
  "w_tables (exec (NamedQueryStruct (sdb_query env q) sc) w) = w_tables w"
  "w_tables (exec (NamedQuerySlice (sdb_query env q) sc') w) = w_tables w"
  by (simp_all add: NamedQueryStruct_def namedQueryStruct_def NamedQuerySlice_def namedQuerySlice_def
      split_beta split: sum.splits list.splits)

lemma QueryByID_tables: "w_tables (exec (shpdb_QueryByID env sid) w) = w_tables w"
  by (simp add: shpdb_QueryByID_def split_beta query_tables split: sum.splits)

lemma delete_tables:
  "w_tables (exec (shpdb_Delete env shp) w) =
     (case e_db env (w_tick w) of FaultBefore e \<Rightarrow> w_tables w
      | _ \<Rightarrow> projr (sql_delete_shipment (shp_ID shp) (w_tables w)))"
  by (simp add: shpdb_Delete_def wrap_exec_run sdb_exec_tables sql_delete_shipment_def split: db_fault.splits)

lemma delete_None: "result (shpdb_Delete env shp) w = None \<longleftrightarrow> e_db env (w_tick w) = NoFault"
  by (simp add: shpdb_Delete_def wrap_exec_run sdb_exec_ok sql_delete_shipment_def)

definition holds_shipment :: "('c, 'x) shp_world_scheme \<Rightarrow> string \<Rightarrow> bool" where
  "holds_shipment w sid \<longleftrightarrow> shipment_exists sid (w_tables w)"

interpretation shpdb: shp_store "shpdb_Store env bind_empty" holds_shipment
proof unfold_locales
  fix sid shp and w :: "('a, 'c) shp_world_scheme"
  show "holds_shipment (exec (ss_QueryByID (shpdb_Store env bind_empty) sid) w) = holds_shipment w"
    by (simp add: holds_shipment_def shpdb_Store_def QueryByID_tables fun_eq_iff)
  show "sid \<noteq> shp_ID shp \<Longrightarrow> holds_shipment (exec (ss_Delete (shpdb_Store env bind_empty) shp) w) sid =
      holds_shipment w sid"
    by (auto simp: holds_shipment_def shpdb_Store_def delete_tables sql_delete_shipment_def
        shipment_exists_def split: db_fault.splits)
  show "result (ss_Delete (shpdb_Store env bind_empty) shp) w = None \<Longrightarrow>
      \<not> holds_shipment (exec (ss_Delete (shpdb_Store env bind_empty) shp) w) (shp_ID shp)"
    by (auto simp: holds_shipment_def shpdb_Store_def delete_tables delete_None sql_delete_shipment_def
        shipment_exists_def)
qed

lemma sdb_exec_tick: "w_tick (exec (sdb_exec env stmt) w) = Suc (w_tick w)"
  by (simp add: sdb_exec_def tick_def run_stmt_def split_beta split: db_fault.splits sum.splits)

text \<open>With a database that answers, a statement that the tables accept goes through.\<close>

lemma exec_accepts:
  assumes "\<And>n. e_db env n = NoFault" and "stmt (w_tables w) = Inr t"
  shows "result (sdb_exec env stmt) w = None" and "w_tables (exec (sdb_exec env stmt) w) = t"
  using assms by (auto simp: sdb_exec_ok sdb_exec_tables)

lemma exec_slice_accepts:
  assumes "\<And>n. e_db env n = NoFault" and "stmt rows (w_tables w) = Inr t" and "rows \<noteq> []"
  shows "result (sdb_exec_slice env be stmt rows) w = None"
    and "w_tables (exec (sdb_exec_slice env be stmt rows) w) = t"
  using assms exec_accepts [of env "stmt rows" w t] by (auto simp: sdb_exec_slice_def split: list.splits)

lemma exec_slice_shipments:
  assumes "\<And>rs t t'. stmt rs t = Inr t' \<Longrightarrow> t_shipments t' = t_shipments t"
  shows "t_shipments (w_tables (exec (sdb_exec_slice env be stmt rows) w)) = t_shipments (w_tables w)"
  using assms by (auto simp: sdb_exec_slice_def sdb_exec_tables split: list.splits db_fault.splits sum.splits)

lemma children_keep_shipments:
  "sql_insert_items rs t = Inr t' \<Longrightarrow> t_shipments t' = t_shipments t"
  "sql_insert_tracking ts rs' t = Inr t' \<Longrightarrow> t_shipments t' = t_shipments t"
  "sql_insert_history ts rs'' t = Inr t' \<Longrightarrow> t_shipments t' = t_shipments t"
  by (auto simp: sql_insert_items_def sql_insert_tracking_def sql_insert_history_def
      split: sum.splits if_splits)

lemma holds_after_children:
  "holds_shipment (exec (sdb_exec_slice env be sql_insert_items rs) w) = holds_shipment w"
  "holds_shipment (exec (sdb_exec_slice env be (sql_insert_tracking ts) rs') w) = holds_shipment w"
  "holds_shipment (exec (sdb_exec_slice env be (sql_insert_history ts) rs'') w) = holds_shipment w"
  by (simp_all add: holds_shipment_def shipment_exists_def fun_eq_iff
      exec_slice_shipments [OF children_keep_shipments(1)] exec_slice_shipments [OF children_keep_shipments(2)]
      exec_slice_shipments [OF children_keep_shipments(3)])

lemma empty_slice [simp]: "run_state (sdb_exec_slice env be stmt []) w = (be, w)"
  by (simp add: sdb_exec_slice_def)

lemma empty_conversions [simp]: "toDBShipmentTrackings [] = []" "toDBShipmentItems [] = []"
  "toDBStatusHistoryChanges [] = []"
  by (simp_all add: toDBShipmentTrackings_def toDBShipmentItems_def toDBStatusHistoryChanges_def)

subsection \<open>Properties\<close>

text \<open>An environment and tables for the concrete runs.\<close>

definition demo_shipment :: Shipment where
  "demo_shipment = \<lparr>shp_ID = ''SHP1'', shp_Carrier = ''DHL'', shp_TrackingNumber = ''T1'',
     shp_OriginLocationID = ''JHB'', shp_DestinationLocationID = ''CPT'', shp_Status = StatusInTransit,
     shp_ETA = 9, shp_DispatchedAt = 1, shp_DeliveredAt = 0, shp_CreatedAt = 0, shp_UpdatedAt = 2,
     shp_Items = [\<lparr>si_ShipmentID = ''SHP1'', si_SKU = ''S1'', si_Quantity = 4\<rparr>],
     shp_TrackingLogs = [\<lparr>st_ShipmentID = ''SHP1'', st_Sequence = 1, st_Latitude = - 26, st_Longitude = 28,
       st_RecordedAt = 3\<rparr>],
     shp_StatusHistory = [\<lparr>sh_ShipmentID = ''SHP1'', sh_Sequence = 1, sh_OldStatus = StatusCreated,
       sh_NewStatus = StatusInTransit, sh_Reason = [], sh_ChangedAt = 2\<rparr>]\<rparr>"

definition demo_tables :: shp_tables where
  "demo_tables = \<lparr>t_shipments = [header_row (\<lambda>t. t) (toDBShipment demo_shipment)],
     t_items = toDBShipmentItems (shp_Items demo_shipment),
     t_tracking = toDBShipmentTrackings (shp_TrackingLogs demo_shipment),
     t_history = map (to_history_row (\<lambda>t. t)) (toDBStatusHistoryChanges (shp_StatusHistory demo_shipment))\<rparr>"

definition shp_demo_world :: "mem_redis shp_world" where
  "shp_demo_world = \<lparr>w_redis = Map.empty, w_pub = [], w_settled = [], w_tick = 0, w_tables = demo_tables\<rparr>"

abbreviation shp_env :: "(mem_redis, unit) env" where
  "shp_env \<equiv> calm_env"

text \<open>
  C29: \<open>Business.Create\<close> over the database store reports an error for every new shipment:
  a new shipment has no tracking logs, and \<open>sqlx.NamedExec\<close> refuses an empty slice. Nothing
  is rolled back: the header row that the first statement inserted stays in the table,
  under an id the caller never learns.
\<close>

theorem shipment_Create_never_completes:
  fixes env :: "('c, 'm) env" and w :: "('c, 'x) shp_world_scheme"
  assumes "bind_empty = Some err"
  shows "let create = shpbus_Create (uuid_NewString env) (time_Now env) (shpdb_Store env bind_empty) nshp;
      sid = e_uuid env (w_tick w); w2 = w\<lparr>w_tick := Suc (Suc (w_tick w))\<rparr>;
      d = toDBShipment (new_shipment sid (e_now env (Suc (w_tick w))) nshp)
    in (\<exists>e. result create w = Inl e) \<and>
      (result (sdb_exec env (sql_insert_shipment (e_pgtime env) d)) w2 = None \<longrightarrow>
        holds_shipment (exec create w) sid)"
proof -
  let ?sid = "e_uuid env (w_tick w)" and ?w2 = "w\<lparr>w_tick := Suc (Suc (w_tick w))\<rparr>"
  let ?shp = "new_shipment ?sid (e_now env (Suc (w_tick w))) nshp"
  let ?create = "shpbus_Create (uuid_NewString env) (time_Now env) (shpdb_Store env bind_empty) nshp"
  let ?ins = "sdb_exec env (sql_insert_shipment (e_pgtime env) (toDBShipment ?shp))"
  have run: "exec ?create w = exec (shpdb_Create env bind_empty ?shp) ?w2"
    "(\<exists>e. result ?create w = Inl e) \<longleftrightarrow> result (shpdb_Create env bind_empty ?shp) ?w2 \<noteq> None"
    by (auto simp: shpbus_Create_def uuid_NewString_def time_Now_def tick_def Let_def split_beta
        shpdb_Store_def split: option.splits)
  have no_logs: "shp_TrackingLogs ?shp = []"
    by (simp add: new_shipment_def)
  have "result (shpdb_Create env bind_empty ?shp) ?w2 \<noteq> None"
    using assms no_logs by (simp add: shpdb_Create_def wrap_exec_run)
  moreover have "holds_shipment (exec (shpdb_Create env bind_empty ?shp) ?w2) ?sid"
    if "result ?ins ?w2 = None"
  proof -
    have "holds_shipment (exec ?ins ?w2) ?sid"
      using that by (auto simp: sdb_exec_ok sdb_exec_tables holds_shipment_def sql_insert_shipment_def
          shipment_exists_def header_row_def toDBShipment_def new_shipment_def split: if_splits)
    then show ?thesis
      using that assms no_logs by (simp add: shpdb_Create_def wrap_exec_run holds_after_children)
  qed
  ultimately show ?thesis
    using run by (simp add: Let_def)
qed

definition demo_new :: NewShipment where
  "demo_new = \<lparr>ns_Carrier = ''DHL'', ns_TrackingNumber = ''T9'', ns_OriginLocationID = ''JHB'',
     ns_DestinationLocationID = ''CPT'', ns_Status = StatusCreated, ns_ETA = 5, ns_DispatchedAt = 1, ns_Items = []\<rparr>"

theorem shipment_Create_never_completes_witness:
  "\<exists>e. result (shpbus_Create (uuid_NewString shp_env) (time_Now shp_env)
    (shpdb_Store shp_env (Some (ErrMsg ''length of array is 0''))) demo_new) shp_demo_world = Inl e"
  using shipment_Create_never_completes [where bind_empty = "Some (ErrMsg ''length of array is 0'')"
      and env = shp_env and nshp = demo_new and w = shp_demo_world]
  by (simp add: Let_def)

lemma elided_tables:
  "w_tables (exec (sdb_exec_slice env be sql_insert_history_elided rows) w) = w_tables w"
  by (cases rows) (simp_all add: sdb_exec_slice_def sdb_exec_tables sql_insert_history_elided_def
      split: db_fault.splits)

lemma elided_never_None:
  "result (sdb_exec_slice env (Some err) sql_insert_history_elided rows) w \<noteq> None"
  by (cases rows) (simp_all add: sdb_exec_slice_def sdb_exec_ok sql_insert_history_elided_def del: not_None_eq)

lemma update_run_ok:
  fixes env :: "('c, 'm) env" and w :: "('c, 'x) shp_world_scheme"
  assumes "\<And>n. e_db env n = NoFault"
    and "shp_Items shp \<noteq> []" "shp_TrackingLogs shp \<noteq> []"
    and "sql_update_shipment (e_pgtime env) (toDBShipment shp) (w_tables w) = Inr t1"
    and "sql_delete_items (shp_ID shp) t1 = Inr t2"
    and "sql_insert_items (toDBShipmentItems (shp_Items shp)) t2 = Inr t3"
    and "sql_delete_tracking (shp_ID shp) t3 = Inr t4"
    and "sql_insert_tracking (e_pgtime env) (toDBShipmentTrackings (shp_TrackingLogs shp)) t4 = Inr t5"
    and "sql_delete_history (shp_ID shp) t5 = Inr t6"
  shows "w_tables (exec (shpdb_Update env be shp) w) = t6"
proof -
  have ne: "toDBShipmentItems (shp_Items shp) \<noteq> []" "toDBShipmentTrackings (shp_TrackingLogs shp) \<noteq> []"
    using assms(2,3) by (simp_all add: toDBShipmentItems_def toDBShipmentTrackings_def)
  note db = assms(1)
  let ?w1 = "exec (sdb_exec env (sql_update_shipment (e_pgtime env) (toDBShipment shp))) w"
  let ?w2 = "exec (sdb_exec env (sql_delete_items (shp_ID shp))) ?w1"
  let ?w3 = "exec (sdb_exec_slice env be sql_insert_items (toDBShipmentItems (shp_Items shp))) ?w2"
  let ?w4 = "exec (sdb_exec env (sql_delete_tracking (shp_ID shp))) ?w3"
  let ?w5 = "exec (sdb_exec_slice env be (sql_insert_tracking (e_pgtime env))
    (toDBShipmentTrackings (shp_TrackingLogs shp))) ?w4"
  let ?w6 = "exec (sdb_exec env (sql_delete_history (shp_ID shp))) ?w5"
  have s1: "result (sdb_exec env (sql_update_shipment (e_pgtime env) (toDBShipment shp))) w = None"
    "w_tables ?w1 = t1"
    by (rule exec_accepts; rule db assms(4))+
  have s2: "result (sdb_exec env (sql_delete_items (shp_ID shp))) ?w1 = None" "w_tables ?w2 = t2"
    by (rule exec_accepts; simp add: db s1(2) assms(5))+
  have s3: "result (sdb_exec_slice env be sql_insert_items (toDBShipmentItems (shp_Items shp))) ?w2 = None"
    "w_tables ?w3 = t3"
    by (rule exec_slice_accepts; simp add: db s2(2) assms(6) ne)+
  have s4: "result (sdb_exec env (sql_delete_tracking (shp_ID shp))) ?w3 = None" "w_tables ?w4 = t4"
    by (rule exec_accepts; simp add: db s3(2) assms(7))+
  have s5: "result (sdb_exec_slice env be (sql_insert_tracking (e_pgtime env))
      (toDBShipmentTrackings (shp_TrackingLogs shp))) ?w4 = None" "w_tables ?w5 = t5"
    by (rule exec_slice_accepts; simp add: db s4(2) assms(8) ne)+
  have s6: "result (sdb_exec env (sql_delete_history (shp_ID shp))) ?w5 = None" "w_tables ?w6 = t6"
    by (rule exec_accepts; simp add: db s5(2) assms(9))+
  have s7: "w_tables (exec (sdb_exec_slice env be sql_insert_history_elided
      (toDBStatusHistoryChanges (shp_StatusHistory shp))) ?w6) = t6"
    by (simp only: elided_tables s6(2))
  show ?thesis
    by (simp only: shpdb_Update_def then_exec_last then_exec_next exec_NamedExec NamedExec_None
        s1(1) s2(1) s3(1) s4(1) s5(1) s6(1) s7)
qed

lemma sdb_exec_redis: "w_redis (exec (sdb_exec env stmt) w) = w_redis w"
  by (simp add: sdb_exec_def tick_def run_stmt_def split_beta split: db_fault.splits sum.splits)

lemma sdb_exec_slice_redis: "w_redis (exec (sdb_exec_slice env be stmt rows) w) = w_redis w"
  by (cases rows) (simp_all add: sdb_exec_slice_def sdb_exec_redis)

lemma update_redis: "w_redis (exec (shpdb_Update env be shp) w) = w_redis w"
  by (simp only: shpdb_Update_def then_exec_run(1) exec_NamedExec sdb_exec_redis sdb_exec_slice_redis
      run_state_return snd_conv split: if_splits) simp

lemma update_never_None:
  assumes "bind_empty = Some err"
  shows "result (shpdb_Update env bind_empty shp) w \<noteq> None"
  unfolding assms shpdb_Update_def then_exec_run(2) NamedExec_None
  using elided_never_None by blast

text \<open>
  An update stops at the first slice that is empty: a shipment without items keeps its
  tracking logs and its history, one without tracking logs keeps its history.
\<close>

lemma then_exec_stop: "result m w \<noteq> None \<Longrightarrow> exec (then_exec m next) w = exec m w"
  unfolding then_exec_run by (rule if_not_P)

lemma update_run_no_items:
  fixes env :: "('c, 'm) env" and w :: "('c, 'x) shp_world_scheme"
  assumes "\<And>n. e_db env n = NoFault" and "shp_Items shp = []" and "be \<noteq> None"
    and "sql_update_shipment (e_pgtime env) (toDBShipment shp) (w_tables w) = Inr t1"
    and "sql_delete_items (shp_ID shp) t1 = Inr t2"
  shows "w_tables (exec (shpdb_Update env be shp) w) = t2"
proof -
  let ?w1 = "exec (sdb_exec env (sql_update_shipment (e_pgtime env) (toDBShipment shp))) w"
  let ?w2 = "exec (sdb_exec env (sql_delete_items (shp_ID shp))) ?w1"
  have s1: "result (sdb_exec env (sql_update_shipment (e_pgtime env) (toDBShipment shp))) w = None" "w_tables ?w1 = t1"
    by (rule exec_accepts; rule assms(1,4))+
  have s2: "result (sdb_exec env (sql_delete_items (shp_ID shp))) ?w1 = None" "w_tables ?w2 = t2"
    by (rule exec_accepts; simp add: assms(1,5) s1(2))+
  have s3: "result (NamedExecContext (sdb_exec_slice env be sql_insert_items (toDBShipmentItems (shp_Items shp)))) ?w2 \<noteq> None"
    unfolding NamedExec_None using assms(2,3) by simp
  show ?thesis
    by (simp only: shpdb_Update_def then_exec_next then_exec_stop [OF s3] exec_NamedExec NamedExec_None s1(1) s2(1))
      (simp add: assms(2) s2(2))
qed

lemma update_run_no_logs:
  fixes env :: "('c, 'm) env" and w :: "('c, 'x) shp_world_scheme"
  assumes "\<And>n. e_db env n = NoFault" and "shp_Items shp \<noteq> []" and "shp_TrackingLogs shp = []" and "be \<noteq> None"
    and "sql_update_shipment (e_pgtime env) (toDBShipment shp) (w_tables w) = Inr t1"
    and "sql_delete_items (shp_ID shp) t1 = Inr t2"
    and "sql_insert_items (toDBShipmentItems (shp_Items shp)) t2 = Inr t3"
    and "sql_delete_tracking (shp_ID shp) t3 = Inr t4"
  shows "w_tables (exec (shpdb_Update env be shp) w) = t4"
proof -
  have ne: "toDBShipmentItems (shp_Items shp) \<noteq> []"
    using assms(2) by (simp add: toDBShipmentItems_def)
  let ?w1 = "exec (sdb_exec env (sql_update_shipment (e_pgtime env) (toDBShipment shp))) w"
  let ?w2 = "exec (sdb_exec env (sql_delete_items (shp_ID shp))) ?w1"
  let ?w3 = "exec (sdb_exec_slice env be sql_insert_items (toDBShipmentItems (shp_Items shp))) ?w2"
  let ?w4 = "exec (sdb_exec env (sql_delete_tracking (shp_ID shp))) ?w3"
  have s1: "result (sdb_exec env (sql_update_shipment (e_pgtime env) (toDBShipment shp))) w = None" "w_tables ?w1 = t1"
    by (rule exec_accepts; rule assms(1,5))+
  have s2: "result (sdb_exec env (sql_delete_items (shp_ID shp))) ?w1 = None" "w_tables ?w2 = t2"
    by (rule exec_accepts; simp add: assms(1,6) s1(2))+
  have s3: "result (sdb_exec_slice env be sql_insert_items (toDBShipmentItems (shp_Items shp))) ?w2 = None" "w_tables ?w3 = t3"
    by (rule exec_slice_accepts; simp add: assms(1,7) s2(2) ne)+
  have s4: "result (sdb_exec env (sql_delete_tracking (shp_ID shp))) ?w3 = None" "w_tables ?w4 = t4"
    by (rule exec_accepts; simp add: assms(1,8) s3(2))+
  have s5: "result (NamedExecContext (sdb_exec_slice env be (sql_insert_tracking (e_pgtime env))
      (toDBShipmentTrackings (shp_TrackingLogs shp)))) ?w4 \<noteq> None"
    unfolding NamedExec_None using assms(3,4) by simp
  show ?thesis
    by (simp only: shpdb_Update_def then_exec_next then_exec_stop [OF s5] exec_NamedExec NamedExec_None
        s1(1) s2(1) s3(1) s4(1)) (simp add: assms(3) s4(2))
qed

text \<open>
  C30: \<open>Store.Update\<close> reports an error for every shipment, in every state of the tables and
  whatever the database answers: its last statement is not valid SQL, and \<open>sqlx.NamedExec\<close>
  refuses an empty slice. Nothing is rolled back. When the database answers and accepts the
  earlier statements, a shipment with items and tracking logs has its header, items and
  logs replaced and its status history deleted and not written again; one without tracking
  logs has lost its stored logs and keeps its history; one without items has lost its
  stored items and keeps its logs and history.
\<close>

theorem shipment_Update_loses_history:
  fixes env :: "('c, 'm) env" and w :: "('c, 'x) shp_world_scheme" and shp :: Shipment
  assumes "bind_empty = Some err"
  shows "let sid = shp_ID shp; header = sql_update_shipment (e_pgtime env) (toDBShipment shp);
      items = sql_insert_items (toDBShipmentItems (shp_Items shp));
      logs = sql_insert_tracking (e_pgtime env) (toDBShipmentTrackings (shp_TrackingLogs shp));
      r = shpdb_Update env bind_empty shp; t' = w_tables (exec r w)
    in result r w \<noteq> None \<and>
      ((\<forall>n. e_db env n = NoFault) \<longrightarrow>
        (\<forall>t1 t2. header (w_tables w) = Inr t1 \<and> sql_delete_items sid t1 = Inr t2 \<longrightarrow>
          (shp_Items shp = [] \<longrightarrow> t' = t2) \<and>
          (\<forall>t3 t4. shp_Items shp \<noteq> [] \<and> items t2 = Inr t3 \<and> sql_delete_tracking sid t3 = Inr t4 \<longrightarrow>
            (shp_TrackingLogs shp = [] \<longrightarrow> t' = t4) \<and>
            (\<forall>t5. shp_TrackingLogs shp \<noteq> [] \<and> logs t4 = Inr t5 \<longrightarrow>
              t' = t5\<lparr>t_history := filter (\<lambda>r. hr_ShipmentID r \<noteq> sid) (t_history t5)\<rparr>))))"
proof -
  have be: "bind_empty \<noteq> None"
    using assms by simp
  have history: "sql_delete_history (shp_ID shp) t5 =
      Inr (t5\<lparr>t_history := filter (\<lambda>r. hr_ShipmentID r \<noteq> shp_ID shp) (t_history t5)\<rparr>)" for t5
    by (simp add: sql_delete_history_def)
  show ?thesis
    unfolding Let_def
    using update_never_None [OF assms] update_run_no_items [where env = env and shp = shp and w = w, OF _ _ be]
      update_run_no_logs [where env = env and shp = shp and w = w, OF _ _ _ be]
      update_run_ok [where env = env and shp = shp and w = w and be = bind_empty, OF _ _ _ _ _ _ _ _ history]
    by blast
qed

theorem shipment_Update_loses_history_witness:
  "result (shpdb_Update shp_env (Some (ErrMsg [])) demo_shipment) shp_demo_world \<noteq> None \<and>
    t_history (w_tables shp_demo_world) \<noteq> [] \<and>
    t_history (w_tables (exec (shpdb_Update shp_env (Some (ErrMsg [])) demo_shipment) shp_demo_world)) = []"
proof -
  have t1: "sql_update_shipment (e_pgtime shp_env) (toDBShipment demo_shipment) (w_tables shp_demo_world) =
      Inr demo_tables"
    by (simp add: sql_update_shipment_def shp_demo_world_def demo_tables_def toDBShipment_def header_row_def)
  let ?t2 = "demo_tables\<lparr>t_items := filter (\<lambda>r. sid_ShipmentID r \<noteq> shp_ID demo_shipment) (t_items demo_tables)\<rparr>"
  have t3: "sql_insert_items (toDBShipmentItems (shp_Items demo_shipment)) ?t2 = Inr demo_tables"
    by (simp add: sql_insert_items_def demo_tables_def demo_shipment_def toDBShipmentItems_def item_refused_def
        shipment_exists_def header_row_def toDBShipment_def)
  let ?t4 = "demo_tables\<lparr>t_tracking :=
      filter (\<lambda>r. std_ShipmentID r \<noteq> shp_ID demo_shipment) (t_tracking demo_tables)\<rparr>"
  have t5: "sql_insert_tracking (e_pgtime shp_env) (toDBShipmentTrackings (shp_TrackingLogs demo_shipment)) ?t4 =
      Inr demo_tables"
    by (simp add: sql_insert_tracking_def demo_tables_def demo_shipment_def toDBShipmentTrackings_def
        tracking_refused_def shipment_exists_def header_row_def toDBShipment_def)
  have "shp_Items demo_shipment \<noteq> []" "shp_TrackingLogs demo_shipment \<noteq> []"
    by (simp_all add: demo_shipment_def)
  moreover have "sql_delete_items (shp_ID demo_shipment) demo_tables = Inr ?t2"
    "sql_delete_tracking (shp_ID demo_shipment) demo_tables = Inr ?t4"
    by (simp_all add: sql_delete_items_def sql_delete_tracking_def)
  ultimately have "result (shpdb_Update shp_env (Some (ErrMsg [])) demo_shipment) shp_demo_world \<noteq> None"
    "w_tables (exec (shpdb_Update shp_env (Some (ErrMsg [])) demo_shipment) shp_demo_world) = demo_tables\<lparr>t_history :=
      filter (\<lambda>r. hr_ShipmentID r \<noteq> shp_ID demo_shipment) (t_history demo_tables)\<rparr>"
    using shipment_Update_loses_history [where bind_empty = "Some (ErrMsg [])" and env = shp_env and
        shp = demo_shipment and w = shp_demo_world, OF refl, unfolded Let_def] t1 t3 t5
    by (blast, force)
  then show ?thesis
    by (simp add: shp_demo_world_def demo_tables_def demo_shipment_def toDBStatusHistoryChanges_def to_history_row_def)
qed

lemma query_struct_run:
  assumes "\<And>n. e_db env n = NoFault"
  shows "result (NamedQueryStruct (sdb_query env q) sc) w =
      (case q (w_tables w) of [] \<Rightarrow> Inl ErrDBNotFound | r # _ \<Rightarrow> sc r)"
    and "result (NamedQuerySlice (sdb_query env q) sc') w = scan_rows sc' (q (w_tables w)) []"
  by (auto simp: NamedQueryStruct_def namedQueryStruct_def NamedQuerySlice_def namedQuerySlice_def
      sdb_query_def tick_def assms split_beta split: list.splits sum.splits)

text \<open>What the columns keep of an aggregate's times.\<close>

definition stamped :: "(gotime \<Rightarrow> gotime) \<Rightarrow> Shipment \<Rightarrow> Shipment" where
  "stamped ts s = s\<lparr>shp_ETA := ts (shp_ETA s), shp_DispatchedAt := ts (shp_DispatchedAt s),
     shp_DeliveredAt := ts (shp_DeliveredAt s), shp_CreatedAt := ts (shp_CreatedAt s),
     shp_UpdatedAt := ts (shp_UpdatedAt s),
     shp_TrackingLogs := map (\<lambda>l. l\<lparr>st_RecordedAt := ts (st_RecordedAt l)\<rparr>) (shp_TrackingLogs s),
     shp_StatusHistory := map (\<lambda>h. h\<lparr>sh_ChangedAt := ts (sh_ChangedAt h)\<rparr>) (shp_StatusHistory s)\<rparr>"

text \<open>The rows of a shipment are those that the insert statements write for \<open>s\<close>.\<close>

definition stored_as :: "(gotime \<Rightarrow> gotime) \<Rightarrow> Shipment \<Rightarrow> shp_tables \<Rightarrow> bool" where
  "stored_as ts s t \<longleftrightarrow>
     filter (\<lambda>r. row_ID r = shp_ID s) (t_shipments t) = [header_row ts (toDBShipment s)] \<and>
     filter (\<lambda>r. sid_ShipmentID r = shp_ID s) (t_items t) = toDBShipmentItems (shp_Items s) \<and>
     filter (\<lambda>r. std_ShipmentID r = shp_ID s) (t_tracking t) =
       map (\<lambda>r. r\<lparr>std_RecordedAt := ts (std_RecordedAt r)\<rparr>) (toDBShipmentTrackings (shp_TrackingLogs s)) \<and>
     filter (\<lambda>r. hr_ShipmentID r = shp_ID s) (t_history t) =
       map (to_history_row ts) (toDBStatusHistoryChanges (shp_StatusHistory s))"

lemma scan_header: "scan_shipment (header_row ts d) = Inr (d\<lparr>sdb_ETA := ts (sdb_ETA d),
    sdb_DispatchedAt := ts (sdb_DispatchedAt d), sdb_DeliveredAt := ts (sdb_DeliveredAt d),
    sdb_CreatedAt := ts (sdb_CreatedAt d), sdb_UpdatedAt := ts (sdb_UpdatedAt d),
    sdb_Items := [], sdb_TrackingLogs := [], sdb_StatusHistory := []\<rparr>)"
  by (simp add: scan_shipment_def header_row_def)

lemma scan_history_rows:
  "scan_rows scan_history (map (to_history_row ts) ds) acc =
    Inr (acc @ map (\<lambda>d. d\<lparr>shd_ChangedAt := ts (shd_ChangedAt d)\<rparr>) ds)"
  by (induction ds arbitrary: acc) (simp_all add: scan_history_def to_history_row_def)

lemma tracking_stamped:
  "toBusShipmentTrackings (map (\<lambda>r. r\<lparr>std_RecordedAt := ts (std_RecordedAt r)\<rparr>) (toDBShipmentTrackings ls)) =
    map (\<lambda>l. l\<lparr>st_RecordedAt := ts (st_RecordedAt l)\<rparr>) ls"
  by (simp add: toBusShipmentTrackings_def toDBShipmentTrackings_def)

lemma history_stamped:
  "toBusStatusHistoryChanges (map (\<lambda>d. d\<lparr>shd_ChangedAt := ts (shd_ChangedAt d)\<rparr>) (toDBStatusHistoryChanges hs)) =
    map (\<lambda>h. h\<lparr>sh_ChangedAt := ts (sh_ChangedAt h)\<rparr>) hs"
  by (simp add: toBusStatusHistoryChanges_def toDBStatusHistoryChanges_def)

text \<open>
  C31: \<open>QueryByID\<close> reassembles the aggregate: from the rows that the insert statements write
  for a shipment it returns that shipment, its items, tracking logs and history in table
  order, with the times the columns keep. A shipment without a row is the not-found
  error, and a shipment with a NULL delivery time, which the schema allows and the seed
  data has, cannot be read at all.
\<close>

theorem shipment_QueryByID_reads:
  assumes "\<forall>n. e_db env n = NoFault"
  shows "(stored_as (e_pgtime env) s (w_tables w) \<longrightarrow>
      result (shpdb_QueryByID env (shp_ID s)) w = Inr (stamped (e_pgtime env) s)) \<and>
    (\<not> holds_shipment w sid \<longrightarrow>
      (\<exists>e. result (shpdb_QueryByID env sid) w = Inl e \<and> errors_Is e ErrDBNotFound)) \<and>
    (filter (\<lambda>r. row_ID r = sid) (t_shipments (w_tables w)) = [row] \<and> row_DeliveredAt row = None \<longrightarrow>
      (\<exists>e. result (shpdb_QueryByID env sid) w = Inl e))"
proof (intro conjI impI)
  have db: "e_db env n = NoFault" for n
    using assms by blast
  note runs = shpdb_QueryByID_def query_struct_run [OF db] query_tables split_beta
  show "result (shpdb_QueryByID env (shp_ID s)) w = Inr (stamped (e_pgtime env) s)"
    if "stored_as (e_pgtime env) s (w_tables w)"
    using that
    by (simp add: runs stored_as_def scan_header scan_history_rows tracking_stamped history_stamped)
      (simp add: stamped_def toBusShipment_def toDBShipment_def)
  show "\<exists>e. result (shpdb_QueryByID env sid) w = Inl e \<and> errors_Is e ErrDBNotFound"
    if "\<not> holds_shipment w sid"
  proof -
    have "filter (\<lambda>r. row_ID r = sid) (t_shipments (w_tables w)) = []"
      using that by (auto simp: holds_shipment_def shipment_exists_def filter_empty_conv)
    then show ?thesis
      by (simp add: runs ErrDBNotFound_def)
  qed
  show "\<exists>e. result (shpdb_QueryByID env sid) w = Inl e"
    if "filter (\<lambda>r. row_ID r = sid) (t_shipments (w_tables w)) = [row] \<and> row_DeliveredAt row = None"
    using that by (simp add: runs scan_shipment_def split: option.splits)
qed

theorem shipment_QueryByID_reads_witness:
  "result (shpdb_QueryByID shp_env ''SHP1'') shp_demo_world = Inr demo_shipment"
proof -
  have "stored_as (e_pgtime shp_env) demo_shipment (w_tables shp_demo_world)"
    by (simp add: stored_as_def shp_demo_world_def demo_tables_def demo_shipment_def header_row_def toDBShipment_def
        toDBShipmentItems_def toDBShipmentTrackings_def toDBStatusHistoryChanges_def to_history_row_def)
  moreover have "stamped (e_pgtime shp_env) demo_shipment = demo_shipment" "shp_ID demo_shipment = ''SHP1''"
    by (simp_all add: stamped_def demo_shipment_def)
  ultimately show ?thesis
    using shipment_QueryByID_reads [of shp_env demo_shipment shp_demo_world] by simp
qed

text \<open>
  a successful \<open>Business.Delete\<close> removes the shipment's header, items, tracking logs and
  status history, and no row of any other shipment.
\<close>

theorem shipment_Delete_cascades:
  assumes "result (shpbus_Delete (shpdb_Store env be) shp) w = None"
  shows "w_tables (exec (shpbus_Delete (shpdb_Store env be) shp) w) =
    \<lparr>t_shipments = filter (\<lambda>r. row_ID r \<noteq> shp_ID shp) (t_shipments (w_tables w)),
     t_items = filter (\<lambda>r. sid_ShipmentID r \<noteq> shp_ID shp) (t_items (w_tables w)),
     t_tracking = filter (\<lambda>r. std_ShipmentID r \<noteq> shp_ID shp) (t_tracking (w_tables w)),
     t_history = filter (\<lambda>r. hr_ShipmentID r \<noteq> shp_ID shp) (t_history (w_tables w))\<rparr> \<and>
    holds_shipment (exec (shpbus_Delete (shpdb_Store env be) shp) w) =
      (\<lambda>sid. sid \<noteq> shp_ID shp \<and> holds_shipment w sid)"
proof -
  have "result (shpdb_Delete env shp) w = None"
    "exec (shpbus_Delete (shpdb_Store env be) shp) w = exec (shpdb_Delete env shp) w"
    using assms by (auto simp: shpbus_Delete_def shpdb_Store_def split_beta split: option.splits)
  then show ?thesis
    using shpdb.bus_delete [OF assms] by (simp add: delete_None delete_tables sql_delete_shipment_def)
qed

theorem shipment_Delete_cascades_witness:
  "t_items (w_tables (exec (shpbus_Delete (shpdb_Store shp_env None) demo_shipment) shp_demo_world)) = []"
proof -
  have "result (shpbus_Delete (shpdb_Store shp_env None) demo_shipment) shp_demo_world = None"
    using delete_None [of shp_env demo_shipment shp_demo_world]
    by (simp add: shpbus_Delete_def shpdb_Store_def split_beta)
  from shipment_Delete_cascades [OF this] show ?thesis
    by (simp add: shp_demo_world_def demo_tables_def demo_shipment_def toDBShipmentItems_def)
qed

end
