(* ===== verification/Shp_Cache.thy ===== *)
theory Shp_Cache
  imports Shp_DB
begin

section \<open>The caching store of the shipment service: stores/shpimentcache\<close>

text \<open>
  \<open>shipmentcache.Store\<close> keeps whole aggregates as JSON texts in Redis, in front of any
  \<open>Storer\<close>. \<open>json.Marshal\<close> and \<open>json.Unmarshal\<close> on \<open>Shipment\<close> are the record
  \<open>json_codec\<close>. The wrapper keeps the contract \<open>shp_store\<close> of the store it wraps.
\<close>

record json_codec =
  json_Marshal :: "Shipment \<Rightarrow> goerr + string"
  json_Unmarshal :: "string \<Rightarrow> goerr + Shipment"

definition shipment_key :: "string \<Rightarrow> string" where
  "shipment_key sid = ''shipment:'' @ sid"

definition day_ttl :: int where
  "day_ttl = 24 * 3600 * 1000000000"

definition shp_writeCache ::
  "('c, 'm) env \<Rightarrow> json_codec \<Rightarrow> Shipment \<Rightarrow> (('c, 'x) world_scheme, goerr option) state" where
  [run_defs]: "shp_writeCache env js shp =
     (case json_Marshal js shp of
        Inl err \<Rightarrow> State_Monad.return (Some (ErrWrap ''marshal shipment: '' err))
      | Inr data \<Rightarrow> on_redis (SetTTL (e_redis env) (shipment_key (shp_ID shp)) data day_ttl))"

definition shp_readCache ::
  "('c, 'm) env \<Rightarrow> json_codec \<Rightarrow> string \<Rightarrow> (('c, 'x) world_scheme, goerr + Shipment) state" where
  [run_defs]: "shp_readCache env js sid =
     do {
       r \<leftarrow> on_redis (GetBytes (e_redis env) (shipment_key sid));
       case r of
         Inl err \<Rightarrow> State_Monad.return (Inl err)
       | Inr data \<Rightarrow>
           (case json_Unmarshal js data of
              Inl err \<Rightarrow> State_Monad.return (Inl (ErrWrap ''unmarshal cache: '' err))
            | Inr shp \<Rightarrow> State_Monad.return (Inr shp))
     }"

definition shp_deleteCache :: "('c, 'm) env \<Rightarrow> string \<Rightarrow> (('c, 'x) world_scheme, goerr option) state" where
  [run_defs]: "shp_deleteCache env sid = on_redis (Del (e_redis env) (shipment_key sid))"

definition shpcache_QueryByID ::
  "('c, 'm) env \<Rightarrow> json_codec \<Rightarrow> (('c, 'x) world_scheme) shp_Storer \<Rightarrow> string \<Rightarrow>
   (('c, 'x) world_scheme, goerr + Shipment) state" where
  [run_defs]: "shpcache_QueryByID env js storer sid =
     do {
       c \<leftarrow> shp_readCache env js sid;
       case c of
         Inr shp \<Rightarrow> State_Monad.return (Inr shp)
       | Inl _ \<Rightarrow>
           do {
             r \<leftarrow> ss_QueryByID storer sid;
             case r of
               Inl err \<Rightarrow> State_Monad.return (Inl err)
             | Inr dbShp \<Rightarrow> do { _ \<leftarrow> shp_writeCache env js dbShp; State_Monad.return (Inr dbShp) }
           }
     }"

definition shpcache_Create ::
  "('c, 'm) env \<Rightarrow> json_codec \<Rightarrow> (('c, 'x) world_scheme) shp_Storer \<Rightarrow> Shipment \<Rightarrow>
   (('c, 'x) world_scheme, goerr option) state" where
  [run_defs]: "shpcache_Create env js storer shp =
     do {
       r \<leftarrow> ss_Create storer shp;
       case r of Some err \<Rightarrow> State_Monad.return (Some err) | None \<Rightarrow> shp_writeCache env js shp
     }"

definition shpcache_Update ::
  "('c, 'm) env \<Rightarrow> (('c, 'x) world_scheme) shp_Storer \<Rightarrow> Shipment \<Rightarrow> (('c, 'x) world_scheme, goerr option) state" where
  [run_defs]: "shpcache_Update env storer shp =
     do {
       r \<leftarrow> ss_Update storer shp;
       case r of Some err \<Rightarrow> State_Monad.return (Some err) | None \<Rightarrow> shp_deleteCache env (shp_ID shp)
     }"

definition shpcache_Delete ::
  "('c, 'm) env \<Rightarrow> (('c, 'x) world_scheme) shp_Storer \<Rightarrow> Shipment \<Rightarrow> (('c, 'x) world_scheme, goerr option) state" where
  [run_defs]: "shpcache_Delete env storer shp =
     do {
       r \<leftarrow> ss_Delete storer shp;
       case r of Some err \<Rightarrow> State_Monad.return (Some err) | None \<Rightarrow> shp_deleteCache env (shp_ID shp)
     }"

definition shpcache_Store ::
  "('c, 'm) env \<Rightarrow> json_codec \<Rightarrow> (('c, 'x) world_scheme) shp_Storer \<Rightarrow> (('c, 'x) world_scheme) shp_Storer" where
  "shpcache_Store env js storer = \<lparr>ss_QueryByID = shpcache_QueryByID env js storer,
     ss_Create = shpcache_Create env js storer, ss_Update = shpcache_Update env storer,
     ss_Delete = shpcache_Delete env storer\<rparr>"

text \<open>\<open>NewWithTx\<close>: the transactional store of the wrapped storer, behind the same cache.\<close>

definition shpcache_NewWithTx ::
  "('c, 'm) env \<Rightarrow> json_codec \<Rightarrow> goerr + (('c, 'x) world_scheme) shp_Storer \<Rightarrow>
   goerr + (('c, 'x) world_scheme) shp_Storer" where
  "shpcache_NewWithTx env js tx = (case tx of Inl err \<Rightarrow> Inl err | Inr txStorer \<Rightarrow> Inr (shpcache_Store env js txStorer))"

subsection \<open>The cached store keeps the contract\<close>

locale shp_cached = shp_store S known
  for S :: "(('c, 'x) world_scheme) shp_Storer" and known +
  fixes env :: "('c, 'm) env" and js :: json_codec
  assumes known_redis: "known (w\<lparr>w_redis := c\<rparr>) = known w"
begin

lemma known_on_redis: "known (exec (on_redis cmd) w) = known w"
  by (simp add: on_redis_def split_beta known_redis)

lemma known_cache_ops:
  "known (exec (shp_readCache env js sid) w) = known w"
  "known (exec (shp_writeCache env js shp) w) = known w"
  "known (exec (shp_deleteCache env sid) w) = known w"
  by (simp_all add: shp_readCache_def shp_writeCache_def shp_deleteCache_def split_beta known_on_redis
      split: sum.splits)

lemma cached_query_known: "known (exec (shpcache_QueryByID env js S sid) w) = known w"
  by (simp add: shpcache_QueryByID_def split_beta known_cache_ops query_known split: sum.splits)

lemma cached_delete_known: "known (exec (shpcache_Delete env S shp) w) = known (exec (ss_Delete S shp) w)"
  by (simp add: shpcache_Delete_def split_beta known_cache_ops split: option.splits)

lemma cached_delete_ok:
  "result (shpcache_Delete env S shp) w = None \<Longrightarrow> result (ss_Delete S shp) w = None"
  by (simp add: shpcache_Delete_def split_beta split: option.splits)

end

sublocale shp_cached \<subseteq> cached: shp_store "shpcache_Store env js S" known
  by unfold_locales
    (simp_all add: shpcache_Store_def cached_query_known cached_delete_known delete_other
      delete_ok cached_delete_ok)

lemma holds_redis: "holds_shipment (w\<lparr>w_redis := c\<rparr>) = holds_shipment w"
  by (simp add: holds_shipment_def fun_eq_iff)

interpretation shpcache: shp_cached "shpdb_Store env bind_empty" holds_shipment env js
  for env :: "('c, 'm) env" and bind_empty and js
  by unfold_locales (rule holds_redis)

subsection \<open>Properties\<close>

lemma shp_write_run:
  assumes "json_Marshal js s = Inr data"
  shows "result (shp_writeCache env js s) w = fst (SetTTL (e_redis env) (shipment_key (shp_ID s)) data day_ttl (w_redis w))"
    and "exec (shp_writeCache env js s) w =
      w\<lparr>w_redis := snd (SetTTL (e_redis env) (shipment_key (shp_ID s)) data day_ttl (w_redis w))\<rparr>"
  using assms by (simp_all add: shp_writeCache_def on_redis_def split_beta)

lemma shp_read_run:
  "result (shp_readCache env js sid) w =
     (case fst (GetBytes (e_redis env) (shipment_key sid) (w_redis w)) of
        Inl e \<Rightarrow> Inl e
      | Inr data \<Rightarrow> (case json_Unmarshal js data of
            Inl e \<Rightarrow> Inl (ErrWrap ''unmarshal cache: '' e) | Inr s \<Rightarrow> Inr s))"
  "exec (shp_readCache env js sid) w =
     w\<lparr>w_redis := snd (GetBytes (e_redis env) (shipment_key sid) (w_redis w))\<rparr>"
  by (simp_all add: shp_readCache_def on_redis_def split_beta split: sum.splits)

text \<open>
  on a Redis server that answers, a shipment that was written to the cache and that JSON
  preserves is what the next \<open>QueryByID\<close> returns, without a call to the database.
\<close>

theorem shipment_cache_hit:
  assumes "redis_up (e_redis env) view" and "json_Marshal js s = Inr data" and "json_Unmarshal js data = Inr s"
  shows "let w' = exec (shp_writeCache env js s) w in
    result (shp_writeCache env js s) w = None \<and>
    result (shpcache_QueryByID env js storer (shp_ID s)) w' = Inr s \<and>
    w_tick (exec (shpcache_QueryByID env js storer (shp_ID s)) w') = w_tick w"
proof -
  let ?k = "shipment_key (shp_ID s)" and ?w' = "exec (shp_writeCache env js s) w"
  note laws = redis_up.axioms(1) [OF assms(1)]
  have ok: "result (shp_writeCache env js s) w = None"
    by (simp add: shp_write_run [OF assms(2)] redis_up.set_up [OF assms(1)])
  then have "view (w_redis ?w') ?k = Some (RString data)"
    using redis_laws.set_ok [OF laws] by (simp add: shp_write_run [OF assms(2)])
  then have "fst (GetBytes (e_redis env) ?k (w_redis ?w')) = Inr data"
    by (rule redis_up.get_up [OF assms(1)])
  then have "result (shp_readCache env js (shp_ID s)) ?w' = Inr s"
    using assms(3) by (simp add: shp_read_run)
  with ok show ?thesis
    by (simp add: Let_def shpcache_QueryByID_def split_beta shp_read_run(2) shp_write_run(2) [OF assms(2)])
qed

definition demo_codec :: json_codec where
  "demo_codec = \<lparr>json_Marshal = (\<lambda>s. Inr (shp_ID s)), json_Unmarshal = (\<lambda>t. Inr demo_shipment)\<rparr>"

theorem shipment_cache_hit_witness:
  "result (shpcache_QueryByID shp_env demo_codec (shpdb_Store shp_env None) ''SHP1'')
    (exec (shp_writeCache shp_env demo_codec demo_shipment) shp_demo_world) = Inr demo_shipment"
proof -
  have up: "redis_up (e_redis shp_env) mem_view"
    by (simp add: mem.redis_up_axioms)
  have "json_Marshal demo_codec demo_shipment = Inr ''SHP1''" "json_Unmarshal demo_codec ''SHP1'' = Inr demo_shipment"
    by (simp_all add: demo_codec_def demo_shipment_def)
  from shipment_cache_hit [OF up this, of shp_demo_world "shpdb_Store shp_env None"] show ?thesis
    by (simp add: Let_def demo_shipment_def)
qed

text \<open>
  the cached store over the database never invalidates its entry on an update: the
  database store reports an error for every update (after it has changed the tables), and
  the entry is only removed behind a success. The old shipment stays readable from the
  cache.
\<close>

theorem shipment_cache_stale:
  assumes "bind_empty = Some err"
  shows "result (shpcache_Update env (shpdb_Store env bind_empty) shp) w \<noteq> None \<and>
    w_redis (exec (shpcache_Update env (shpdb_Store env bind_empty) shp) w) = w_redis w"
proof -
  have ne: "result (shpdb_Update env bind_empty shp) w \<noteq> None"
    by (rule update_never_None [OF assms])
  then have "run_state (shpcache_Update env (shpdb_Store env bind_empty) shp) w =
      run_state (shpdb_Update env bind_empty shp) w"
    by (auto simp: shpcache_Update_def shpdb_Store_def split_beta prod_eq_iff split: option.splits)
  with ne show ?thesis
    by (simp add: update_redis)
qed

theorem shipment_cache_stale_witness:
  "result (shpcache_Update shp_env (shpdb_Store shp_env (Some (ErrMsg []))) demo_shipment) shp_demo_world \<noteq> None"
  using shipment_cache_stale [OF refl, of shp_env "ErrMsg []" demo_shipment shp_demo_world] by blast

end
