(* ===== verification/Shp_Tasks.thy ===== *)
theory Shp_Tasks
  imports Shp_Cache Programs
begin

section \<open>The shipment operations as programs that can be interrupted\<close>

text \<open>
  \<open>Create\<close>, \<open>Update\<close>, \<open>Delete\<close> and \<open>QueryByID\<close> of the shipment service issue
  several SQL statements and Redis commands each, without a transaction around them, so
  operations of different goroutines and replicas mix between any two of these calls. This
  theory writes the operations of the database store, of the cached store and of
  \<open>Business\<close> as programs of one step per outside call, with the branches of
  \<open>shipmentdb.go\<close>, \<open>shipmentcache.go\<close> and \<open>shipment.go\<close> in their order, and
  proves that a program that nothing interrupts is the operation of the sequential model.
\<close>

subsection \<open>Stores of programs\<close>

record 'w shp_Storer_p =
  sp_QueryByID :: "string \<Rightarrow> ('w, goerr + Shipment) prog"
  sp_Create :: "Shipment \<Rightarrow> ('w, goerr option) prog"
  sp_Update :: "Shipment \<Rightarrow> ('w, goerr option) prog"
  sp_Delete :: "Shipment \<Rightarrow> ('w, goerr option) prog"

definition collapse_store :: "'w shp_Storer_p \<Rightarrow> 'w shp_Storer" where
  "collapse_store S = \<lparr>ss_QueryByID = \<lambda>sid. collapse (sp_QueryByID S sid),
     ss_Create = \<lambda>shp. collapse (sp_Create S shp), ss_Update = \<lambda>shp. collapse (sp_Update S shp),
     ss_Delete = \<lambda>shp. collapse (sp_Delete S shp)\<rparr>"

subsection \<open>The database store\<close>

definition wrap_exec_p ::
  "string \<Rightarrow> ('w, goerr option) state \<Rightarrow> ('w, goerr option) prog \<Rightarrow> ('w, goerr option) prog" where
  "wrap_exec_p prefix_text m next =
     bindp (atom (NamedExecContext m)) (\<lambda>r.
       case r of Some err \<Rightarrow> Ret (Some (ErrWrap prefix_text err)) | None \<Rightarrow> next)"

definition then_exec_p ::
  "('w, goerr option) state \<Rightarrow> ('w, goerr option) prog \<Rightarrow> ('w, goerr option) prog" where
  "then_exec_p m next =
     bindp (atom m) (\<lambda>r. case r of Some err \<Rightarrow> Ret (Some err) | None \<Rightarrow> next)"

definition shpdb_Create_p ::
  "('c, 'm) env \<Rightarrow> goerr option \<Rightarrow> Shipment \<Rightarrow> (('c, 'x) shp_world_scheme, goerr option) prog" where
  "shpdb_Create_p env bind_empty shp =
     wrap_exec_p ''namedexeccontext: '' (sdb_exec env (sql_insert_shipment (e_pgtime env) (toDBShipment shp)))
     (wrap_exec_p ''namedexeccontext:''
        (sdb_exec_slice env bind_empty sql_insert_items (toDBShipmentItems (shp_Items shp)))
     (wrap_exec_p ''namedexeccontext:''
        (sdb_exec_slice env bind_empty (sql_insert_tracking (e_pgtime env)) (toDBShipmentTrackings (shp_TrackingLogs shp)))
     (wrap_exec_p ''namedexeccontext:''
        (sdb_exec_slice env bind_empty (sql_insert_history (e_pgtime env)) (toDBStatusHistoryChanges (shp_StatusHistory shp)))
     (Ret None))))"

definition shpdb_Delete_p ::
  "('c, 'm) env \<Rightarrow> Shipment \<Rightarrow> (('c, 'x) shp_world_scheme, goerr option) prog" where
  "shpdb_Delete_p env shp =
     wrap_exec_p ''namedexeccontext: '' (sdb_exec env (sql_delete_shipment (shp_ID shp))) (Ret None)"

definition shpdb_Update_p ::
  "('c, 'm) env \<Rightarrow> goerr option \<Rightarrow> Shipment \<Rightarrow> (('c, 'x) shp_world_scheme, goerr option) prog" where
  "shpdb_Update_p env bind_empty shp =
     then_exec_p (NamedExecContext (sdb_exec env (sql_update_shipment (e_pgtime env) (toDBShipment shp))))
     (then_exec_p (sdb_exec env (sql_delete_items (shp_ID shp)))
     (then_exec_p (NamedExecContext
        (sdb_exec_slice env bind_empty sql_insert_items (toDBShipmentItems (shp_Items shp))))
     (then_exec_p (sdb_exec env (sql_delete_tracking (shp_ID shp)))
     (then_exec_p (NamedExecContext
        (sdb_exec_slice env bind_empty (sql_insert_tracking (e_pgtime env)) (toDBShipmentTrackings (shp_TrackingLogs shp))))
     (then_exec_p (sdb_exec env (sql_delete_history (shp_ID shp)))
     (then_exec_p (NamedExecContext
        (sdb_exec_slice env bind_empty sql_insert_history_elided (toDBStatusHistoryChanges (shp_StatusHistory shp))))
     (Ret None)))))))"

text \<open>The four SELECT statements of \<open>QueryByID\<close>, each with the rest of the program.\<close>

definition shpdb_QueryByID_p ::
  "('c, 'm) env \<Rightarrow> string \<Rightarrow> (('c, 'x) shp_world_scheme, goerr + Shipment) prog" where
  "shpdb_QueryByID_p env sid =
     bindp (atom (NamedQueryStruct (sdb_query env (\<lambda>t. filter (\<lambda>r. row_ID r = sid) (t_shipments t))) scan_shipment)) (\<lambda>h.
       case h of
         Inl err \<Rightarrow> Ret (Inl (ErrWrap ''db: '' err))
       | Inr dbShp \<Rightarrow>
     bindp (atom (NamedQuerySlice (sdb_query env (\<lambda>t. filter (\<lambda>r. sid_ShipmentID r = sid) (t_items t))) Inr)) (\<lambda>i.
       case i of
         Inl err \<Rightarrow> Ret (Inl (ErrWrap ''db: '' err))
       | Inr dbItems \<Rightarrow>
     bindp (atom (NamedQuerySlice (sdb_query env (\<lambda>t. filter (\<lambda>r. std_ShipmentID r = sid) (t_tracking t))) Inr)) (\<lambda>l.
       case l of
         Inl err \<Rightarrow> Ret (Inl (ErrWrap ''db: '' err))
       | Inr dbTls \<Rightarrow>
     bindp (atom (NamedQuerySlice (sdb_query env (\<lambda>t. filter (\<lambda>r. hr_ShipmentID r = sid) (t_history t))) scan_history)) (\<lambda>s.
       case s of
         Inl err \<Rightarrow> Ret (Inl (ErrWrap ''db: '' err))
       | Inr dbShs \<Rightarrow> Ret (Inr
           ((toBusShipment dbShp)
             \<lparr>shp_Items := toBusShipmentItems dbItems,
              shp_TrackingLogs := toBusShipmentTrackings dbTls,
              shp_StatusHistory := toBusStatusHistoryChanges dbShs\<rparr>))))))"

definition shpdb_Store_p :: "('c, 'm) env \<Rightarrow> goerr option \<Rightarrow> (('c, 'x) shp_world_scheme) shp_Storer_p" where
  "shpdb_Store_p env bind_empty = \<lparr>sp_QueryByID = shpdb_QueryByID_p env, sp_Create = shpdb_Create_p env bind_empty,
     sp_Update = shpdb_Update_p env bind_empty, sp_Delete = shpdb_Delete_p env\<rparr>"

lemma collapse_exec_p [simp]:
  "collapse (wrap_exec_p p m next) = wrap_exec p m (collapse next)"
  "collapse (then_exec_p m next) = then_exec m (collapse next)"
  by (simp_all add: wrap_exec_p_def wrap_exec_def then_exec_p_def then_exec_def collapse_cases cong: case_congs)

lemma collapse_shpdb_QueryByID [simp]: "collapse (shpdb_QueryByID_p env sid) = shpdb_QueryByID env sid"
  by (simp add: shpdb_QueryByID_p_def shpdb_QueryByID_def collapse_cases cong: case_congs)

lemma collapse_shpdb_Store [simp]: "collapse_store (shpdb_Store_p env be) = shpdb_Store env be"
  by (simp add: collapse_store_def shpdb_Store_p_def shpdb_Store_def fun_eq_iff shpdb_Create_p_def
      shpdb_Create_def shpdb_Update_p_def shpdb_Update_def shpdb_Delete_p_def shpdb_Delete_def)

subsection \<open>The cached store\<close>

definition shpcache_QueryByID_p ::
  "('c, 'm) env \<Rightarrow> json_codec \<Rightarrow> (('c, 'x) world_scheme) shp_Storer_p \<Rightarrow> string \<Rightarrow>
   (('c, 'x) world_scheme, goerr + Shipment) prog" where
  "shpcache_QueryByID_p env js storer sid =
     bindp (atom (shp_readCache env js sid)) (\<lambda>c.
       case c of
         Inr shp \<Rightarrow> Ret (Inr shp)
       | Inl _ \<Rightarrow>
           bindp (sp_QueryByID storer sid) (\<lambda>r.
             case r of
               Inl err \<Rightarrow> Ret (Inl err)
             | Inr dbShp \<Rightarrow> bindp (atom (shp_writeCache env js dbShp)) (\<lambda>_. Ret (Inr dbShp))))"

definition shpcache_Create_p ::
  "('c, 'm) env \<Rightarrow> json_codec \<Rightarrow> (('c, 'x) world_scheme) shp_Storer_p \<Rightarrow> Shipment \<Rightarrow>
   (('c, 'x) world_scheme, goerr option) prog" where
  "shpcache_Create_p env js storer shp =
     bindp (sp_Create storer shp) (\<lambda>r.
       case r of Some err \<Rightarrow> Ret (Some err) | None \<Rightarrow> atom (shp_writeCache env js shp))"

definition shpcache_Update_p ::
  "('c, 'm) env \<Rightarrow> (('c, 'x) world_scheme) shp_Storer_p \<Rightarrow> Shipment \<Rightarrow> (('c, 'x) world_scheme, goerr option) prog" where
  "shpcache_Update_p env storer shp =
     bindp (sp_Update storer shp) (\<lambda>r.
       case r of Some err \<Rightarrow> Ret (Some err) | None \<Rightarrow> atom (shp_deleteCache env (shp_ID shp)))"

definition shpcache_Delete_p ::
  "('c, 'm) env \<Rightarrow> (('c, 'x) world_scheme) shp_Storer_p \<Rightarrow> Shipment \<Rightarrow> (('c, 'x) world_scheme, goerr option) prog" where
  "shpcache_Delete_p env storer shp =
     bindp (sp_Delete storer shp) (\<lambda>r.
       case r of Some err \<Rightarrow> Ret (Some err) | None \<Rightarrow> atom (shp_deleteCache env (shp_ID shp)))"

definition shpcache_Store_p ::
  "('c, 'm) env \<Rightarrow> json_codec \<Rightarrow> (('c, 'x) world_scheme) shp_Storer_p \<Rightarrow> (('c, 'x) world_scheme) shp_Storer_p" where
  "shpcache_Store_p env js storer = \<lparr>sp_QueryByID = shpcache_QueryByID_p env js storer,
     sp_Create = shpcache_Create_p env js storer, sp_Update = shpcache_Update_p env storer,
     sp_Delete = shpcache_Delete_p env storer\<rparr>"

lemma collapse_shpcache_Store [simp]:
  "collapse_store (shpcache_Store_p env js S) = shpcache_Store env js (collapse_store S)"
  by (simp add: collapse_store_def shpcache_Store_p_def shpcache_Store_def fun_eq_iff shpcache_QueryByID_p_def
      shpcache_QueryByID_def shpcache_Create_p_def shpcache_Create_def shpcache_Update_p_def shpcache_Update_def
      shpcache_Delete_p_def shpcache_Delete_def collapse_cases cong: case_congs)

subsection \<open>Business\<close>

definition shpbus_Create_p ::
  "('w, string) state \<Rightarrow> ('w, gotime) state \<Rightarrow> 'w shp_Storer_p \<Rightarrow> NewShipment \<Rightarrow> ('w, goerr + Shipment) prog" where
  "shpbus_Create_p uuid now storer nshp =
     bindp (atom uuid) (\<lambda>sid.
     bindp (atom now) (\<lambda>t.
     let shp = new_shipment sid t nshp in
     bindp (sp_Create storer shp) (\<lambda>r.
       case r of
         Some err \<Rightarrow> Ret (Inl (ErrWrap ''create shipment: '' err))
       | None \<Rightarrow> Ret (Inr shp))))"

definition shpbus_Update_p ::
  "('w, gotime) state \<Rightarrow> 'w shp_Storer_p \<Rightarrow> Shipment \<Rightarrow> UpdateShipment \<Rightarrow> ('w, (goerr + Shipment) call) prog" where
  "shpbus_Update_p now storer shp ushp =
     (case update_lists ushp (update_scalars ushp shp) of
        Panics p \<Rightarrow> Ret (Panics p)
      | Returns shp1 \<Rightarrow>
          bindp (atom now) (\<lambda>t.
          let shp2 = shp1\<lparr>shp_UpdatedAt := t\<rparr> in
          bindp (sp_Update storer shp2) (\<lambda>r.
            case r of
              Some err \<Rightarrow> Ret (Returns (Inl (ErrWrap ''update shipment: '' err)))
            | None \<Rightarrow> Ret (Returns (Inr shp2)))))"

definition shpbus_Delete_p :: "'w shp_Storer_p \<Rightarrow> Shipment \<Rightarrow> ('w, goerr option) prog" where
  "shpbus_Delete_p storer shp =
     bindp (sp_Delete storer shp) (\<lambda>r.
       case r of
         Some err \<Rightarrow> Ret (Some (ErrWrap ''delete shipment: '' err))
       | None \<Rightarrow> Ret None)"

definition shpbus_QueryById_p :: "'w shp_Storer_p \<Rightarrow> string \<Rightarrow> ('w, goerr + Shipment) prog" where
  "shpbus_QueryById_p storer sid =
     bindp (sp_QueryByID storer sid) (\<lambda>r.
       case r of
         Inl err \<Rightarrow> Ret (Inl (ErrWrap (''query shipment: ID['' @ sid @ ''] : '') err))
       | Inr shp \<Rightarrow> Ret (Inr shp))"

text \<open>\<open>Business\<close> over any store: its program, uninterrupted, is the operation over the collapsed store.\<close>

lemma collapse_shpbus:
  "collapse (shpbus_Create_p uuid now S n) = shpbus_Create uuid now (collapse_store S) n"
  "collapse (shpbus_Update_p now S shp u) = shpbus_Update now (collapse_store S) shp u"
  "collapse (shpbus_Delete_p S shp) = shpbus_Delete (collapse_store S) shp"
  "collapse (shpbus_QueryById_p S sid) = shpbus_QueryById (collapse_store S) sid"
  by (simp_all add: shpbus_Create_p_def shpbus_Create_def shpbus_Update_p_def shpbus_Update_def shpbus_Delete_p_def
      shpbus_Delete_def shpbus_QueryById_p_def shpbus_QueryById_def collapse_store_def collapse_cases cong: case_congs)

subsection \<open>The pool of operations\<close>

text \<open>
  The operations over the cached store, whose outcomes their callers see. The pool starts
  the operations that the callers make (\<open>D\<close>); \<open>R\<close> says how Redis may change by
  itself (an expired key, another client).
\<close>

datatype shp_op = OpCreate NewShipment | OpUpdate Shipment UpdateShipment | OpDelete Shipment | OpQuery string

definition shp_stack_p ::
  "('c, 'm) env \<Rightarrow> goerr option \<Rightarrow> json_codec \<Rightarrow> (('c, 'x) shp_world_scheme) shp_Storer_p" where
  "shp_stack_p env bind_empty js = shpcache_Store_p env js (shpdb_Store_p env bind_empty)"

primrec shp_op_p ::
  "('c, 'm) env \<Rightarrow> (('c, 'x) world_scheme) shp_Storer_p \<Rightarrow> shp_op \<Rightarrow> (('c, 'x) world_scheme, unit) prog" where
  "shp_op_p env S (OpCreate nshp) =
     bindp (shpbus_Create_p (uuid_NewString env) (time_Now env) S nshp) (\<lambda>_. Ret ())"
| "shp_op_p env S (OpUpdate shp ushp) = bindp (shpbus_Update_p (time_Now env) S shp ushp) (\<lambda>_. Ret ())"
| "shp_op_p env S (OpDelete shp) = bindp (shpbus_Delete_p S shp) (\<lambda>_. Ret ())"
| "shp_op_p env S (OpQuery sid) = bindp (shpbus_QueryById_p S sid) (\<lambda>_. Ret ())"

definition shp_reachable ::
  "('c, 'm) env \<Rightarrow> goerr option \<Rightarrow> json_codec \<Rightarrow> (shp_op \<Rightarrow> bool) \<Rightarrow> ('c \<Rightarrow> 'c \<Rightarrow> bool) \<Rightarrow>
   ('c, 'x) shp_world_scheme \<Rightarrow>
   ('c, 'x) shp_world_scheme \<times> (('c, 'x) shp_world_scheme) task list \<Rightarrow> bool" where
  "shp_reachable env bind_empty js D R =
     task_reachable (\<lambda>p. \<exists>op. D op \<and> p = shp_op_p env (shp_stack_p env bind_empty js) op)
       (\<lambda>w w'. \<exists>c. R (w_redis w) c \<and> w' = w\<lparr>w_redis := c\<rparr>)"

end
