(* ===== verification/Shp_Concurrent.thy ===== *)
theory Shp_Concurrent
  imports Shp_Tasks
begin

section \<open>The shipment tables under overlapping operations\<close>

text \<open>
  What holds at every moment of every interleaving of the shipment operations. The locale
  \<open>tables_invariant\<close> proves once, for any predicate on the tables that the statements of
  the store keep, that it holds whatever the operations, their overlaps, crashes and
  database faults are; its two interpretations give the consistency of the four tables and
  the isolation of a shipment that no operation names.
\<close>

subsection \<open>Programs that keep a predicate on the tables\<close>

definition stmt_keeps :: "(shp_tables \<Rightarrow> bool) \<Rightarrow> (shp_tables \<Rightarrow> string + shp_tables) \<Rightarrow> bool" where
  "stmt_keeps I stmt \<longleftrightarrow> (\<forall>t t'. I t \<longrightarrow> stmt t = Inr t' \<longrightarrow> I t')"

abbreviation tables_keep ::
  "(shp_tables \<Rightarrow> bool) \<Rightarrow> (('c, 'x) shp_world_scheme, 'a) prog \<Rightarrow> bool" where
  "tables_keep I \<equiv> keeps_p (\<lambda>w. I (w_tables w)) any"

lemma keep_exec: "stmt_keeps I stmt \<Longrightarrow> tables_keep I (atom (sdb_exec env stmt))"
  by (rule keeps_atom) (auto simp: stmt_keeps_def sdb_exec_tables split: db_fault.splits sum.splits)

lemma keep_exec_slice: "stmt_keeps I (stmt rows) \<Longrightarrow> tables_keep I (atom (sdb_exec_slice env be stmt rows))"
  by (cases rows) (auto simp: sdb_exec_slice_def intro: keeps_atom keep_exec)

lemma keep_Named: "tables_keep I (atom m) \<Longrightarrow> tables_keep I (atom (NamedExecContext m))"
  by (auto simp: atom_def exec_NamedExec intro!: keeps_Step keeps_Ret elim!: keeps_StepE)

lemma keep_then:
  assumes "tables_keep I (atom m)" and "tables_keep I next"
  shows "tables_keep I (then_exec_p m next)" and "tables_keep I (wrap_exec_p p m next)"
  unfolding then_exec_p_def wrap_exec_p_def
  by (rule keeps_seq, rule assms(1) keep_Named [OF assms(1)], simp split: option.split add: assms(2) keeps_Ret)+

text \<open>Steps that leave the tables alone.\<close>

lemma keep_reads:
  "tables_keep I (atom (NamedQueryStruct (sdb_query env q) sc))"
  "tables_keep I (atom (NamedQuerySlice (sdb_query env q) sc'))"
  by (rule keeps_atom; simp add: query_tables)+

lemma keep_cache:
  "tables_keep I (atom (shp_readCache env js sid))"
  "tables_keep I (atom (shp_writeCache env js shp))"
  "tables_keep I (atom (shp_deleteCache env sid))"
  by (rule keeps_atom;
      simp add: shp_readCache_def shp_writeCache_def shp_deleteCache_def on_redis_def split_beta
        split: sum.splits)+

lemma keep_now: "tables_keep I (atom (time_Now env))"
  by (rule keeps_atom) (simp add: time_Now_def tick_def)

lemma keep_query: "tables_keep I (shpdb_QueryByID_p env sid)"
  unfolding shpdb_QueryByID_p_def
  by (intro keeps_seq keeps_case keep_reads keeps_Ret TrueI)

subsection \<open>Invariants of the tables\<close>

definition aggregate_ids :: "Shipment \<Rightarrow> string set" where
  "aggregate_ids shp = insert (shp_ID shp) (si_ShipmentID ` set (shp_Items shp) \<union>
     st_ShipmentID ` set (shp_TrackingLogs shp) \<union> sh_ShipmentID ` set (shp_StatusHistory shp))"

text \<open>The shipments whose rows an operation may write: those its rows name.\<close>

definition op_ids :: "('c, 'm) env \<Rightarrow> shp_op \<Rightarrow> string set" where
  "op_ids env op =
     (case op of
        OpCreate nshp \<Rightarrow> range (e_uuid env) \<union> si_ShipmentID ` set (ns_Items nshp)
      | OpUpdate shp ushp \<Rightarrow>
          (case update_lists ushp (update_scalars ushp shp) of
             Panics p \<Rightarrow> {} | Returns shp1 \<Rightarrow> aggregate_ids shp1)
      | OpDelete shp \<Rightarrow> {shp_ID shp}
      | OpQuery sid \<Rightarrow> {})"

text \<open>\<open>I\<close> is kept by every statement over the shipments of \<open>M\<close>.\<close>

locale tables_invariant =
  fixes I :: "shp_tables \<Rightarrow> bool" and M :: "string set"
  assumes header_in: "sdb_ID d \<in> M \<Longrightarrow> stmt_keeps I (sql_insert_shipment ts d)"
    and header_set: "sdb_ID d \<in> M \<Longrightarrow> stmt_keeps I (sql_update_shipment ts d)"
    and header_out: "sid \<in> M \<Longrightarrow> stmt_keeps I (sql_delete_shipment sid)"
    and items_in: "sid_ShipmentID ` set its \<subseteq> M \<Longrightarrow> stmt_keeps I (sql_insert_items its)"
    and items_out: "sid \<in> M \<Longrightarrow> stmt_keeps I (sql_delete_items sid)"
    and tracking_in: "std_ShipmentID ` set trs \<subseteq> M \<Longrightarrow> stmt_keeps I (sql_insert_tracking ts trs)"
    and tracking_out: "sid \<in> M \<Longrightarrow> stmt_keeps I (sql_delete_tracking sid)"
    and history_in: "shd_ShipmentID ` set his \<subseteq> M \<Longrightarrow> stmt_keeps I (sql_insert_history ts his)"
    and history_out: "sid \<in> M \<Longrightarrow> stmt_keeps I (sql_delete_history sid)"
begin

lemma elided_in: "stmt_keeps I (sql_insert_history_elided his)"
  by (simp add: stmt_keeps_def sql_insert_history_elided_def)

lemma converted_ids:
  "sdb_ID (toDBShipment s) = shp_ID s"
  "sid_ShipmentID ` set (toDBShipmentItems its) = si_ShipmentID ` set its"
  "std_ShipmentID ` set (toDBShipmentTrackings trs) = st_ShipmentID ` set trs"
  "shd_ShipmentID ` set (toDBStatusHistoryChanges his) = sh_ShipmentID ` set his"
  by (simp_all add: toDBShipment_def toDBShipmentItems_def toDBShipmentTrackings_def
      toDBStatusHistoryChanges_def image_image)

lemmas keep_writes = keep_then keep_Named keep_exec keep_exec_slice

lemma keep_create: "aggregate_ids s \<subseteq> M \<Longrightarrow> tables_keep I (shpdb_Create_p env be s)"
  unfolding shpdb_Create_p_def
  by (intro keep_writes header_in items_in tracking_in history_in keeps_Ret)
    (auto simp: aggregate_ids_def converted_ids)

lemma keep_update: "aggregate_ids s \<subseteq> M \<Longrightarrow> tables_keep I (shpdb_Update_p env be s)"
  unfolding shpdb_Update_p_def
  by (intro keep_writes header_set items_out items_in tracking_out tracking_in history_out elided_in keeps_Ret)
    (auto simp: aggregate_ids_def converted_ids)

lemma keep_delete: "shp_ID s \<in> M \<Longrightarrow> tables_keep I (shpdb_Delete_p env s)"
  unfolding shpdb_Delete_p_def by (intro keep_writes header_out keeps_Ret) auto

lemma keep_stack:
  "aggregate_ids s \<subseteq> M \<Longrightarrow> tables_keep I (sp_Create (shp_stack_p env be js) s)"
  "aggregate_ids s \<subseteq> M \<Longrightarrow> tables_keep I (sp_Update (shp_stack_p env be js) s)"
  "shp_ID s \<in> M \<Longrightarrow> tables_keep I (sp_Delete (shp_stack_p env be js) s)"
  "tables_keep I (sp_QueryByID (shp_stack_p env be js) sid)"
  by (auto simp: shp_stack_p_def shpcache_Store_p_def shpdb_Store_p_def shpcache_Create_p_def shpcache_Update_p_def
      shpcache_Delete_p_def shpcache_QueryByID_p_def keep_cache keep_create keep_update keep_delete keep_query keeps_Ret
      intro!: keeps_seq split: option.split sum.split)

lemma keep_new_id:
  "range (e_uuid env) \<subseteq> M \<Longrightarrow> keeps_p (\<lambda>w. I (w_tables w)) (\<lambda>sid. sid \<in> M) (atom (uuid_NewString env))"
  by (rule keeps_atom) (auto simp: uuid_NewString_def tick_def)

lemma keep_op: "op_ids env op \<subseteq> M \<Longrightarrow> tables_keep I (shp_op_p env (shp_stack_p env be js) op)"
proof (cases op)
  case (OpCreate nshp)
  assume "op_ids env op \<subseteq> M"
  then have ids: "range (e_uuid env) \<subseteq> M" "sid \<in> M \<Longrightarrow> aggregate_ids (new_shipment sid t nshp) \<subseteq> M" for sid t
    by (auto simp: OpCreate op_ids_def aggregate_ids_def new_shipment_def)
  show ?thesis
    unfolding OpCreate shp_op_p.simps shpbus_Create_p_def Let_def
    by (intro keeps_seq keeps_bindp [OF keep_new_id [OF ids(1)]] keep_now keep_stack ids(2) keeps_Ret)
      (auto split: option.split intro: keeps_Ret)
next
  case (OpUpdate shp ushp)
  assume ids: "op_ids env op \<subseteq> M"
  have stamped: "aggregate_ids (s\<lparr>shp_UpdatedAt := t\<rparr>) = aggregate_ids s" for s t
    by (simp add: aggregate_ids_def)
  show ?thesis
  proof (cases "update_lists ushp (update_scalars ushp shp)")
    case (Returns shp1)
    with ids have "aggregate_ids shp1 \<subseteq> M"
      by (simp add: OpUpdate op_ids_def)
    then show ?thesis
      by (auto simp: OpUpdate shpbus_Update_p_def Returns Let_def stamped
          intro!: keeps_seq keep_now keep_stack keeps_Ret split: option.split)
  next
    case (Panics p)
    then show ?thesis
      by (simp add: OpUpdate shpbus_Update_p_def keeps_Ret)
  qed
next
  case (OpDelete shp)
  assume "op_ids env op \<subseteq> M"
  then show ?thesis
    by (auto simp: OpDelete shpbus_Delete_p_def op_ids_def intro!: keeps_seq keep_stack keeps_Ret split: option.split)
next
  case (OpQuery sid)
  then show ?thesis
    by (auto simp: shpbus_QueryById_p_def intro!: keeps_seq keep_stack keeps_Ret split: sum.split)
qed

lemma tables_hold:
  assumes "shp_reachable env be js D R w0 (w, ts)" and "I (w_tables w0)"
    and "\<And>op. D op \<Longrightarrow> op_ids env op \<subseteq> M"
  shows "I (w_tables w)"
  by (rule task_invariant_rule [OF assms(1) [unfolded shp_reachable_def], of "\<lambda>w. I (w_tables w)"])
    (auto simp: assms(2) intro: keep_op [OF assms(3)])

end

subsection \<open>Consistent tables\<close>

text \<open>
  What the schema promises: primary keys, a tracking number of its own for every shipment
  that has one, no row without its shipment, quantities of 1 to \<open>2\<^sup>3\<^sup>1 - 1\<close> and positions
  on the globe.
\<close>

definition same_number :: "shipment_row \<Rightarrow> shipment_row \<Rightarrow> bool" where
  "same_number a b \<longleftrightarrow> row_TrackingNumber a \<noteq> None \<and> row_TrackingNumber a = row_TrackingNumber b"

definition headers_ok :: "shipment_row list \<Rightarrow> bool" where
  "headers_ok hs \<longleftrightarrow> distinct (map row_ID hs) \<and>
     (\<forall>a \<in> set hs. \<forall>b \<in> set hs. row_ID a \<noteq> row_ID b \<longrightarrow> \<not> same_number a b)"

definition tables_ok :: "shp_tables \<Rightarrow> bool" where
  "tables_ok t \<longleftrightarrow>
     headers_ok (t_shipments t) \<and>
     distinct (map (\<lambda>r. (sid_ShipmentID r, sid_SKU r)) (t_items t)) \<and>
     distinct (map (\<lambda>r. (std_ShipmentID r, std_Sequence r)) (t_tracking t)) \<and>
     distinct (map (\<lambda>r. (hr_ShipmentID r, hr_Seq r)) (t_history t)) \<and>
     (\<forall>r \<in> set (t_items t). shipment_exists (sid_ShipmentID r) t \<and>
        0 < sint (sid_Quantity r) \<and> sint (sid_Quantity r) < 2 ^ 31) \<and>
     (\<forall>r \<in> set (t_tracking t). shipment_exists (std_ShipmentID r) t \<and>
        - 90 \<le> std_Latitude r \<and> std_Latitude r \<le> 90 \<and> - 180 \<le> std_Longitude r \<and> std_Longitude r \<le> 180) \<and>
     (\<forall>r \<in> set (t_history t). shipment_exists (hr_ShipmentID r) t)"

lemma insert_rows_ok:
  "insert_rows refuse key t rs = Inr t' \<Longrightarrow> t' = t @ rs \<and> (\<forall>r \<in> set rs. refuse r = None) \<and>
    (distinct (map key t) \<longrightarrow> distinct (map key (t @ rs)))"
  by (induction refuse key t rs rule: insert_rows.induct) (auto split: option.splits if_splits)

lemma refused_None:
  "item_refused it = None \<longleftrightarrow> 0 < sint (sid_Quantity it) \<and> sint (sid_Quantity it) < 2 ^ 31"
  "tracking_refused tr = None \<longleftrightarrow>
    - 90 \<le> std_Latitude tr \<and> std_Latitude tr \<le> 90 \<and> - 180 \<le> std_Longitude tr \<and> std_Longitude tr \<le> 180"
  by (auto simp: item_refused_def tracking_refused_def)

lemma insert_header_ok: "stmt_keeps tables_ok (sql_insert_shipment ts d)"
proof -
  have "headers_ok (hs @ [header_row ts d])"
    if "headers_ok hs" "sdb_ID d \<notin> row_ID ` set hs" "Some (sdb_TrackingNumber d) \<notin> row_TrackingNumber ` set hs" for hs
  proof -
    have "row_ID r \<noteq> sdb_ID d" "row_TrackingNumber r \<noteq> Some (sdb_TrackingNumber d)" if "r \<in> set hs" for r
      using that \<open>sdb_ID d \<notin> _\<close> \<open>Some _ \<notin> _\<close> by (metis imageI)+
    then have "\<not> same_number r (header_row ts d)" "\<not> same_number (header_row ts d) r" if "r \<in> set hs" for r
      using that by (simp_all add: same_number_def header_row_def) metis
    moreover have "row_ID (header_row ts d) = sdb_ID d"
      by (simp add: header_row_def)
    ultimately show ?thesis
      using \<open>headers_ok hs\<close> \<open>sdb_ID d \<notin> _\<close> by (simp add: headers_ok_def)
  qed
  then show ?thesis
    by (auto simp: stmt_keeps_def sql_insert_shipment_def tables_ok_def shipment_exists_def split: if_splits)
qed

lemma delete_rows_ok:
  "stmt_keeps tables_ok (sql_delete_items sid)"
  "stmt_keeps tables_ok (sql_delete_tracking sid)"
  "stmt_keeps tables_ok (sql_delete_history sid)"
  by (auto simp: stmt_keeps_def sql_delete_items_def sql_delete_tracking_def sql_delete_history_def
      tables_ok_def shipment_exists_def distinct_map_filter)

lemma delete_header_ok: "stmt_keeps tables_ok (sql_delete_shipment sid)"
  by (auto simp: stmt_keeps_def sql_delete_shipment_def tables_ok_def headers_ok_def shipment_exists_def
      distinct_map_filter)

lemma insert_children_ok:
  "stmt_keeps tables_ok (sql_insert_items its)"
  "stmt_keeps tables_ok (sql_insert_tracking ts trs)"
  "stmt_keeps tables_ok (sql_insert_history ts his)"
  unfolding stmt_keeps_def sql_insert_items_def sql_insert_tracking_def sql_insert_history_def
  by (auto simp: tables_ok_def shipment_exists_def refused_None to_history_row_def split: sum.splits if_splits
      dest!: insert_rows_ok)

lemma update_header_ok: "stmt_keeps tables_ok (sql_update_shipment ts d)"
  unfolding stmt_keeps_def
proof (intro allI impI)
  fix t t'
  assume ok: "tables_ok t" and "sql_update_shipment ts d t = Inr t'"
  define f where "f = (\<lambda>r. if row_ID r = sdb_ID d then (header_row ts d)\<lparr>row_CreatedAt := row_CreatedAt r\<rparr> else r)"
  from \<open>sql_update_shipment ts d t = Inr t'\<close> have t': "t' = t\<lparr>t_shipments := map f (t_shipments t)\<rparr>"
    and free: "shipment_exists (sdb_ID d) t \<Longrightarrow> r \<in> set (t_shipments t) \<Longrightarrow> row_ID r \<noteq> sdb_ID d \<Longrightarrow>
      row_TrackingNumber r \<noteq> Some (sdb_TrackingNumber d)" for r
    by (auto simp: sql_update_shipment_def f_def split: if_splits)
  have f: "row_ID (f r) = row_ID r" for r
    by (simp add: f_def header_row_def)
  then have "shipment_exists sid t' = shipment_exists sid t" for sid
    by (simp add: t' shipment_exists_def image_image)
  moreover have "\<not> same_number (f a) (f b)" if "a \<in> set (t_shipments t)" "b \<in> set (t_shipments t)"
    "row_ID a \<noteq> row_ID b" for a b
  proof (cases "row_ID a = sdb_ID d \<or> row_ID b = sdb_ID d")
    case True
    with that(1,2) have "shipment_exists (sdb_ID d) t"
      by (metis imageI shipment_exists_def)
    with True that free [of a] free [of b] show ?thesis
      by (auto simp: f_def header_row_def same_number_def)
  next
    case False
    with that ok show ?thesis
      by (auto simp: tables_ok_def headers_ok_def f_def)
  qed
  ultimately show "tables_ok t'"
    using ok by (auto simp: tables_ok_def headers_ok_def t' f comp_def)
qed

interpretation consistent: tables_invariant tables_ok UNIV
  by unfold_locales (rule insert_header_ok update_header_ok delete_header_ok insert_children_ok delete_rows_ok)+

subsection \<open>The rows of one shipment\<close>

definition rows_of :: "string \<Rightarrow> shp_tables \<Rightarrow>
    shipment_row list \<times> shipmentItemDB list \<times> shipmentTrackingDB list \<times> history_row list" where
  "rows_of sid t =
     (filter (\<lambda>r. row_ID r = sid) (t_shipments t), filter (\<lambda>r. sid_ShipmentID r = sid) (t_items t),
      filter (\<lambda>r. std_ShipmentID r = sid) (t_tracking t), filter (\<lambda>r. hr_ShipmentID r = sid) (t_history t))"

lemma filter_kept: "x \<noteq> y \<Longrightarrow> filter (\<lambda>r. f r \<noteq> y \<and> f r = x) xs = filter (\<lambda>r. f r = x) xs"
  by (induction xs) auto

lemma filter_updated:
  "(\<And>x. P (f x) = P x) \<Longrightarrow> (\<And>x. P x \<Longrightarrow> f x = x) \<Longrightarrow> filter P (map f xs) = filter P xs"
  by (induction xs) auto

lemma filter_absent: "x \<notin> f ` set xs \<Longrightarrow> filter (\<lambda>r. f r = x) xs = []"
  by (auto simp: filter_empty_conv)

lemma map_absent: "x \<notin> g ` set xs \<Longrightarrow> (\<And>r. f (h r) = g r) \<Longrightarrow> filter (\<lambda>r. f r = x) (map h xs) = []"
  by (auto simp: filter_empty_conv)

interpretation isolated: tables_invariant "\<lambda>t. rows_of sid t = rows" "- {sid}"
  for sid rows
proof unfold_locales
  show "sdb_ID d \<in> - {sid} \<Longrightarrow> stmt_keeps (\<lambda>t. rows_of sid t = rows) (sql_update_shipment ts d)" for d ts
    by (auto simp: stmt_keeps_def sql_update_shipment_def rows_of_def header_row_def split: if_splits
        intro!: filter_updated)
  show "std_ShipmentID ` set trs \<subseteq> - {sid} \<Longrightarrow> stmt_keeps (\<lambda>t. rows_of sid t = rows) (sql_insert_tracking ts trs)"
    for trs ts
    by (auto simp: stmt_keeps_def sql_insert_tracking_def rows_of_def split: sum.splits if_splits
        dest!: insert_rows_ok intro!: map_absent)
  show "shd_ShipmentID ` set his \<subseteq> - {sid} \<Longrightarrow> stmt_keeps (\<lambda>t. rows_of sid t = rows) (sql_insert_history ts his)"
    for his ts
    by (auto simp: stmt_keeps_def sql_insert_history_def rows_of_def to_history_row_def split: sum.splits if_splits
        dest!: insert_rows_ok intro!: map_absent)
qed (auto simp: stmt_keeps_def sql_insert_shipment_def sql_insert_items_def sql_delete_shipment_def
    sql_delete_items_def sql_delete_tracking_def sql_delete_history_def rows_of_def header_row_def
    filter_kept filter_absent split: sum.splits if_splits dest!: insert_rows_ok)

subsection \<open>Properties\<close>

text \<open>
  C26: however the shipment operations overlap, fail and crash between any two of their
  statements, the four tables stay consistent: identities and tracking numbers are unique,
  every item, tracking and history row has its shipment, and quantities and positions are
  in their ranges; and the rows of a shipment that no operation names never change.
\<close>

theorem shipment_tables_consistent:
  assumes "shp_reachable env bind_empty js D R w0 (w, ts)" and "tables_ok (w_tables w0)"
  shows "tables_ok (w_tables w) \<and>
    (\<forall>sid. (\<forall>op. D op \<longrightarrow> sid \<notin> op_ids env op) \<longrightarrow> rows_of sid (w_tables w) = rows_of sid (w_tables w0))"
proof (intro conjI allI impI)
  show "tables_ok (w_tables w)"
    by (rule consistent.tables_hold [OF assms]) simp
  show "rows_of sid (w_tables w) = rows_of sid (w_tables w0)"
    if "\<forall>op. D op \<longrightarrow> sid \<notin> op_ids env op" for sid
    using that by (intro isolated.tables_hold [OF assms(1) refl]) blast
qed

lemma op_finished:
  assumes "D op"
  shows "shp_reachable env be js D R w0
    (exec (collapse (shp_op_p env (shp_stack_p env be js) op)) w0, [Running (Ret ())])"
  using task_started [where ts = "[]" and w = w0 and p = "shp_op_p env (shp_stack_p env be js) op"
      and N = "\<lambda>p. \<exists>op. D op \<and> p = shp_op_p env (shp_stack_p env be js) op"
      and E = "\<lambda>w w'. \<exists>c. R (w_redis w) c \<and> w' = w\<lparr>w_redis := c\<rparr>"] assms
  unfolding shp_reachable_def task_reachable_def by auto

lemma demo_tables_ok: "tables_ok (w_tables shp_demo_world)"
  by (simp add: shp_demo_world_def demo_tables_def tables_ok_def headers_ok_def shipment_exists_def demo_shipment_def
      header_row_def toDBShipment_def toDBShipmentItems_def toDBShipmentTrackings_def toDBStatusHistoryChanges_def
      to_history_row_def)

definition uuid_env :: "(mem_redis, unit) env" where
  "uuid_env = calm_env\<lparr>e_uuid := (\<lambda>_. ''SHP2'')\<rparr>"

theorem shipment_tables_consistent_witness:
  "let w = exec (shpbus_Create (uuid_NewString uuid_env) (time_Now uuid_env)
      (shpcache_Store uuid_env demo_codec (shpdb_Store uuid_env (Some (ErrMsg [])))) demo_new) shp_demo_world
   in tables_ok (w_tables w) \<and> rows_of ''SHP1'' (w_tables w) = rows_of ''SHP1'' (w_tables shp_demo_world) \<and>
     map row_ID (t_shipments (w_tables w)) = [''SHP1'', ''SHP2'']"
proof -
  let ?w = "exec (shpbus_Create (uuid_NewString uuid_env) (time_Now uuid_env)
      (shpcache_Store uuid_env demo_codec (shpdb_Store uuid_env (Some (ErrMsg [])))) demo_new) shp_demo_world"
  have "shp_reachable uuid_env (Some (ErrMsg [])) demo_codec (\<lambda>op. op = OpCreate demo_new) (\<lambda>_ _. False) shp_demo_world
      (?w, [Running (Ret ())])"
    using op_finished [of "\<lambda>op. op = OpCreate demo_new" "OpCreate demo_new" uuid_env "Some (ErrMsg [])" demo_codec
        "\<lambda>_ _. False" shp_demo_world]
    by (simp add: collapse_shpbus shp_stack_p_def split_beta)
  from shipment_tables_consistent [OF this demo_tables_ok]
  have "tables_ok (w_tables ?w)" "rows_of ''SHP1'' (w_tables ?w) = rows_of ''SHP1'' (w_tables shp_demo_world)"
    by (simp_all add: op_ids_def demo_new_def uuid_env_def)
  moreover have "map row_ID (t_shipments (w_tables ?w)) = [''SHP1'', ''SHP2'']"
    by code_simp
  ultimately show ?thesis
    by (simp add: Let_def)
qed

end
