(* ===== verification/Shp_Races.thy ===== *)
theory Shp_Races
  imports Shp_Concurrent
begin

section \<open>Races between shipment operations\<close>

text \<open>
  Two behaviours of overlapping operations on a shipment that no order of the same
  operations has: a reader that an update overtakes between two of its SELECT statements
  returns, and puts into the cache, the header of the old shipment with the items of the
  new one; and two overlapping updates leave the shipment with the items of both.
\<close>

subsection \<open>Updates the tables accept\<close>

definition number_free :: "Shipment \<Rightarrow> shp_tables \<Rightarrow> bool" where
  "number_free s t \<longleftrightarrow> (\<forall>r \<in> set (t_shipments t). row_ID r \<noteq> shp_ID s \<longrightarrow>
     row_TrackingNumber r \<noteq> Some (shp_TrackingNumber s))"

text \<open>Items and tracking logs of the shipment itself, with keys of their own and values in range.\<close>

definition children_fit :: "Shipment \<Rightarrow> bool" where
  "children_fit s \<longleftrightarrow> aggregate_ids s = {shp_ID s} \<and> shp_Items s \<noteq> [] \<and> shp_TrackingLogs s \<noteq> [] \<and>
     (\<forall>r \<in> set (toDBShipmentItems (shp_Items s)). item_refused r = None) \<and>
     (\<forall>r \<in> set (toDBShipmentTrackings (shp_TrackingLogs s)). tracking_refused r = None) \<and>
     distinct (map si_SKU (shp_Items s)) \<and> distinct (map st_Sequence (shp_TrackingLogs s))"

text \<open>The tables after the first two statements of \<open>Update\<close>, and after the others.\<close>

definition head_done :: "(gotime \<Rightarrow> gotime) \<Rightarrow> Shipment \<Rightarrow> shp_tables \<Rightarrow> shp_tables" where
  "head_done ts s t = t\<lparr>t_shipments := map (\<lambda>r. if row_ID r = shp_ID s
       then (header_row ts (toDBShipment s))\<lparr>row_CreatedAt := row_CreatedAt r\<rparr> else r) (t_shipments t),
     t_items := filter (\<lambda>r. sid_ShipmentID r \<noteq> shp_ID s) (t_items t)\<rparr>"

definition stamp_logs :: "(gotime \<Rightarrow> gotime) \<Rightarrow> Shipment \<Rightarrow> shipmentTrackingDB list" where
  "stamp_logs ts s = map (\<lambda>r. r\<lparr>std_RecordedAt := ts (std_RecordedAt r)\<rparr>)
     (toDBShipmentTrackings (shp_TrackingLogs s))"

definition tail_done :: "(gotime \<Rightarrow> gotime) \<Rightarrow> Shipment \<Rightarrow> shp_tables \<Rightarrow> shp_tables" where
  "tail_done ts s t = t\<lparr>t_items := t_items t @ toDBShipmentItems (shp_Items s),
     t_tracking := filter (\<lambda>r. std_ShipmentID r \<noteq> shp_ID s) (t_tracking t) @ stamp_logs ts s,
     t_history := filter (\<lambda>r. hr_ShipmentID r \<noteq> shp_ID s) (t_history t)\<rparr>"

lemma insert_rows_fit:
  "\<forall>r \<in> set rs. refuse r = None \<Longrightarrow> distinct (map key rs) \<Longrightarrow> key ` set rs \<inter> key ` set t = {} \<Longrightarrow>
    insert_rows refuse key t rs = Inr (t @ rs)"
  by (induction refuse key t rs rule: insert_rows.induct) auto

lemma distinct_keys: "distinct (map g xs) \<Longrightarrow> distinct (map (\<lambda>r. (f r, g r)) xs)"
  by (induction xs) auto

lemma header_accepted:
  "number_free s t \<Longrightarrow> sql_update_shipment ts (toDBShipment s) t = Inr (t\<lparr>t_shipments := map (\<lambda>r.
    if row_ID r = shp_ID s then (header_row ts (toDBShipment s))\<lparr>row_CreatedAt := row_CreatedAt r\<rparr> else r) (t_shipments t)\<rparr>)"
  by (auto simp: number_free_def sql_update_shipment_def toDBShipment_def)

lemma own_ids:
  assumes "children_fit s"
  shows "\<And>r. r \<in> set (toDBShipmentItems (shp_Items s)) \<Longrightarrow> sid_ShipmentID r = shp_ID s"
    and "\<And>r. r \<in> set (toDBShipmentTrackings (shp_TrackingLogs s)) \<Longrightarrow> std_ShipmentID r = shp_ID s"
  using assms by (auto simp: children_fit_def aggregate_ids_def toDBShipmentItems_def toDBShipmentTrackings_def)

lemma items_accepted:
  assumes "children_fit s" and "shipment_exists (shp_ID s) t"
    and "\<forall>r \<in> set (t_items t). sid_ShipmentID r = shp_ID s \<longrightarrow> sid_SKU r \<notin> si_SKU ` set (shp_Items s)"
  shows "sql_insert_items (toDBShipmentItems (shp_Items s)) t =
    Inr (t\<lparr>t_items := t_items t @ toDBShipmentItems (shp_Items s)\<rparr>)"
proof -
  let ?rs = "toDBShipmentItems (shp_Items s)" and ?key = "\<lambda>r. (sid_ShipmentID r, sid_SKU r)"
  have map_skus: "map sid_SKU ?rs = map si_SKU (shp_Items s)"
    by (simp add: toDBShipmentItems_def)
  then have skus: "sid_SKU ` set ?rs = si_SKU ` set (shp_Items s)"
    by (simp flip: set_map)
  have "distinct (map ?key ?rs)"
    using assms(1) by (intro distinct_keys) (simp add: map_skus children_fit_def)
  moreover have "sid_SKU q \<noteq> sid_SKU r" if "r \<in> set ?rs" "q \<in> set (t_items t)" "sid_ShipmentID q = sid_ShipmentID r" for q r
    using that assms(3) own_ids(1) [OF assms(1) that(1)] skus by (metis imageI)
  then have "?key ` set ?rs \<inter> ?key ` set (t_items t) = {}"
    by force
  ultimately have "insert_rows item_refused ?key (t_items t) ?rs = Inr (t_items t @ ?rs)"
    using assms(1) by (intro insert_rows_fit) (simp_all add: children_fit_def)
  then show ?thesis
    using own_ids(1) [OF assms(1)] assms(2) by (simp add: sql_insert_items_def)
qed

lemma tracking_accepted:
  assumes "children_fit s" and "shipment_exists (shp_ID s) t"
    and "\<forall>r \<in> set (t_tracking t). std_ShipmentID r \<noteq> shp_ID s"
  shows "sql_insert_tracking ts (toDBShipmentTrackings (shp_TrackingLogs s)) t =
    Inr (t\<lparr>t_tracking := t_tracking t @ stamp_logs ts s\<rparr>)"
proof -
  let ?key = "\<lambda>r. (std_ShipmentID r, std_Sequence r)"
  have seqs: "map std_Sequence (stamp_logs ts s) = map st_Sequence (shp_TrackingLogs s)"
    by (simp add: stamp_logs_def toDBShipmentTrackings_def)
  have "distinct (map ?key (stamp_logs ts s))"
    using assms(1) by (intro distinct_keys) (simp only: seqs children_fit_def)
  moreover have "std_ShipmentID r = shp_ID s" "tracking_refused r = None" if "r \<in> set (stamp_logs ts s)" for r
    using that own_ids(2) [OF assms(1)] assms(1)
    by (auto simp: stamp_logs_def children_fit_def refused_None)
  moreover from this(1) have "?key ` set (stamp_logs ts s) \<inter> ?key ` set (t_tracking t) = {}"
    using assms(3) by fastforce
  ultimately have "insert_rows tracking_refused ?key (t_tracking t) (stamp_logs ts s) = Inr (t_tracking t @ stamp_logs ts s)"
    by (intro insert_rows_fit) simp_all
  then show ?thesis
    using own_ids(2) [OF assms(1)] assms(2) by (simp add: sql_insert_tracking_def stamp_logs_def)
qed

subsection \<open>An update in two parts\<close>

definition upd_head :: "('c, 'm) env \<Rightarrow> Shipment \<Rightarrow> (('c, 'x) shp_world_scheme, goerr option) prog" where
  "upd_head env s =
     then_exec_p (NamedExecContext (sdb_exec env (sql_update_shipment (e_pgtime env) (toDBShipment s))))
     (then_exec_p (sdb_exec env (sql_delete_items (shp_ID s))) (Ret None))"

definition upd_tail ::
  "('c, 'm) env \<Rightarrow> goerr option \<Rightarrow> Shipment \<Rightarrow> (('c, 'x) shp_world_scheme, goerr option) prog" where
  "upd_tail env be s =
     then_exec_p (NamedExecContext (sdb_exec_slice env be sql_insert_items (toDBShipmentItems (shp_Items s))))
     (then_exec_p (sdb_exec env (sql_delete_tracking (shp_ID s)))
     (then_exec_p (NamedExecContext (sdb_exec_slice env be (sql_insert_tracking (e_pgtime env))
        (toDBShipmentTrackings (shp_TrackingLogs s))))
     (then_exec_p (sdb_exec env (sql_delete_history (shp_ID s)))
     (then_exec_p (NamedExecContext (sdb_exec_slice env be sql_insert_history_elided
        (toDBStatusHistoryChanges (shp_StatusHistory s))))
     (Ret None)))))"

text \<open>What follows the database store's answer: the cache entry of a success, and the caller.\<close>

definition after_update ::
  "('c, 'm) env \<Rightarrow> Shipment \<Rightarrow> goerr option \<Rightarrow> (('c, 'x) shp_world_scheme, unit) prog" where
  "after_update env s r =
     (case r of Some err \<Rightarrow> Ret () | None \<Rightarrow> bindp (atom (shp_deleteCache env (shp_ID s))) (\<lambda>_. Ret ()))"

definition paused_p ::
  "('c, 'm) env \<Rightarrow> goerr option \<Rightarrow> Shipment \<Rightarrow> (('c, 'x) shp_world_scheme, unit) prog" where
  "paused_p env be s = bindp (upd_tail env be s) (after_update env s)"

lemma then_bindp: "bindp (then_exec_p m next) f =
    bindp (atom m) (\<lambda>r. case r of Some e \<Rightarrow> f (Some e) | None \<Rightarrow> bindp next f)"
  by (simp add: then_exec_p_def bindp_assoc option.case_distrib [of "\<lambda>p. bindp p f"] cong: option.case_cong)

lemma update_split:
  "shpdb_Update_p env be s = bindp (upd_head env s) (\<lambda>r. case r of Some err \<Rightarrow> Ret (Some err) | None \<Rightarrow> upd_tail env be s)"
  unfolding shpdb_Update_p_def upd_head_def upd_tail_def [symmetric] then_bindp
  by (simp add: then_exec_p_def cong: option.case_cong)

lemma op_update_split:
  assumes "update_lists u (update_scalars u s) = Returns s1"
  shows "shp_op_p env (shp_stack_p env be js) (OpUpdate s u) =
    bindp (atom (time_Now env)) (\<lambda>t. bindp (upd_head env (s1\<lparr>shp_UpdatedAt := t\<rparr>)) (\<lambda>r.
      case r of Some err \<Rightarrow> Ret () | None \<Rightarrow> paused_p env be (s1\<lparr>shp_UpdatedAt := t\<rparr>)))"
proof -
  have ends: "(case a of None \<Rightarrow> Ret () | Some (err :: goerr) \<Rightarrow> Ret ()) = Ret ()" for a
    by (cases a) simp_all
  show ?thesis
    by (simp add: shpbus_Update_p_def assms shp_stack_p_def shpcache_Store_p_def shpcache_Update_p_def
        shpdb_Store_p_def update_split bindp_assoc bindp_cases Let_def ends paused_p_def after_update_def [abs_def]
        cong: option.case_cong)
qed

lemma collapse_tail: "collapse (upd_tail env be s) =
    then_exec (NamedExecContext (sdb_exec_slice env be sql_insert_items (toDBShipmentItems (shp_Items s))))
    (then_exec (sdb_exec env (sql_delete_tracking (shp_ID s)))
    (then_exec (NamedExecContext (sdb_exec_slice env be (sql_insert_tracking (e_pgtime env))
       (toDBShipmentTrackings (shp_TrackingLogs s))))
    (then_exec (sdb_exec env (sql_delete_history (shp_ID s)))
    (then_exec (NamedExecContext (sdb_exec_slice env be sql_insert_history_elided
       (toDBStatusHistoryChanges (shp_StatusHistory s))))
    (State_Monad.return None)))))"
  by (simp add: upd_tail_def)

lemma head_run:
  assumes "\<And>n. e_db env n = NoFault" and "number_free s (w_tables w)"
  shows "result (collapse (upd_head env s)) w = None"
    and "w_tables (exec (collapse (upd_head env s)) w) = head_done (e_pgtime env) s (w_tables w)"
proof -
  let ?m1 = "sdb_exec env (sql_update_shipment (e_pgtime env) (toDBShipment s))"
  let ?m2 = "sdb_exec env (sql_delete_items (shp_ID s))"
  note ok1 = exec_accepts [of env "sql_update_shipment (e_pgtime env) (toDBShipment s)" w, OF assms(1) header_accepted [OF assms(2)]]
  note ok2 = exec_accepts [of env "sql_delete_items (shp_ID s)" "exec ?m1 w", OF assms(1)]
  have "result ?m2 (exec ?m1 w) = None" "w_tables (exec ?m2 (exec ?m1 w)) = head_done (e_pgtime env) s (w_tables w)"
    by (rule ok2; simp add: sql_delete_items_def ok1 head_done_def)+
  then show "result (collapse (upd_head env s)) w = None"
    "w_tables (exec (collapse (upd_head env s)) w) = head_done (e_pgtime env) s (w_tables w)"
    by (simp_all add: upd_head_def then_exec_run exec_NamedExec NamedExec_None ok1)
qed

lemma tail_run:
  assumes "\<And>n. e_db env n = NoFault" and "children_fit s" and "shipment_exists (shp_ID s) (w_tables w)"
    and "\<forall>r \<in> set (t_items (w_tables w)). sid_ShipmentID r = shp_ID s \<longrightarrow> sid_SKU r \<notin> si_SKU ` set (shp_Items s)"
  shows "w_tables (exec (collapse (upd_tail env be s)) w) = tail_done (e_pgtime env) s (w_tables w)"
proof -
  let ?t = "w_tables w" and ?ts = "e_pgtime env"
  let ?its = "toDBShipmentItems (shp_Items s)" and ?trs = "toDBShipmentTrackings (shp_TrackingLogs s)"
  have ne: "?its \<noteq> []" "?trs \<noteq> []"
    using assms(2) by (simp_all add: children_fit_def toDBShipmentItems_def toDBShipmentTrackings_def)
  let ?t3 = "?t\<lparr>t_items := t_items ?t @ ?its\<rparr>"
  let ?t4 = "?t3\<lparr>t_tracking := filter (\<lambda>r. std_ShipmentID r \<noteq> shp_ID s) (t_tracking ?t)\<rparr>"
  let ?t5 = "?t4\<lparr>t_tracking := t_tracking ?t4 @ stamp_logs ?ts s\<rparr>"
  let ?w3 = "exec (sdb_exec_slice env be sql_insert_items ?its) w"
  let ?w4 = "exec (sdb_exec env (sql_delete_tracking (shp_ID s))) ?w3"
  let ?w5 = "exec (sdb_exec_slice env be (sql_insert_tracking ?ts) ?trs) ?w4"
  let ?w6 = "exec (sdb_exec env (sql_delete_history (shp_ID s))) ?w5"
  have s3: "result (sdb_exec_slice env be sql_insert_items ?its) w = None" "w_tables ?w3 = ?t3"
    using exec_slice_accepts [of env sql_insert_items ?its w ?t3 be, OF assms(1) items_accepted [OF assms(2-4)] ne(1)]
    by simp_all
  have s4: "result (sdb_exec env (sql_delete_tracking (shp_ID s))) ?w3 = None" "w_tables ?w4 = ?t4"
    by (rule exec_accepts [OF assms(1)]; simp add: s3(2) sql_delete_tracking_def)+
  have acc: "sql_insert_tracking ?ts ?trs (w_tables ?w4) = Inr ?t5"
    unfolding s4(2) using assms(3) by (intro tracking_accepted [OF assms(2)]) (simp_all add: shipment_exists_def)
  have s5: "result (sdb_exec_slice env be (sql_insert_tracking ?ts) ?trs) ?w4 = None" "w_tables ?w5 = ?t5"
    using exec_slice_accepts [of env "sql_insert_tracking ?ts" ?trs ?w4 ?t5 be, OF assms(1) acc ne(2)] by blast+
  have s6: "result (sdb_exec env (sql_delete_history (shp_ID s))) ?w5 = None"
    "w_tables ?w6 = ?t5\<lparr>t_history := filter (\<lambda>r. hr_ShipmentID r \<noteq> shp_ID s) (t_history ?t5)\<rparr>"
    by (rule exec_accepts [OF assms(1)]; simp add: s5(2) sql_delete_history_def)+
  show ?thesis
    by (simp add: collapse_tail then_exec_last then_exec_next exec_NamedExec NamedExec_None
        s3(1) s4(1) s5(1) s6 elided_tables tail_done_def)
qed

lemma after_update_tables [simp]: "w_tables (exec (collapse (after_update env s r)) w) = w_tables w"
  by (simp add: after_update_def shp_deleteCache_def on_redis_def split_beta split: option.split)

lemma paused_run:
  assumes "\<And>n. e_db env n = NoFault" and "children_fit s" and "shipment_exists (shp_ID s) (w_tables w)"
    and "\<forall>r \<in> set (t_items (w_tables w)). sid_ShipmentID r = shp_ID s \<longrightarrow> sid_SKU r \<notin> si_SKU ` set (shp_Items s)"
  shows "w_tables (exec (collapse (paused_p env be s)) w) = tail_done (e_pgtime env) s (w_tables w)"
  using tail_run [OF assms] by (simp add: paused_p_def split_beta)

text \<open>A running update gets to the point between its two parts.\<close>

lemma update_pauses:
  fixes env :: "('c, 'm) env" and w :: "('c, 'x) shp_world_scheme"
  assumes "\<And>n. e_db env n = NoFault" and "update_lists u (update_scalars u s) = Returns s1"
    and "number_free s1 (w_tables w)" and "i < length ts"
    and "ts ! i = Running (shp_op_p env (shp_stack_p env be js) (OpUpdate s u))"
  shows "\<exists>w' t. call_step\<^sup>*\<^sup>* (w, ts) (w', ts[i := Running (paused_p env be (s1\<lparr>shp_UpdatedAt := t\<rparr>))]) \<and>
    w_tables w' = head_done (e_pgtime env) (s1\<lparr>shp_UpdatedAt := t\<rparr>) (w_tables w)"
proof -
  let ?t = "result (time_Now env) w" and ?w1 = "exec (time_Now env) w"
  let ?s = "s1\<lparr>shp_UpdatedAt := ?t\<rparr>"
  define f :: "gotime \<Rightarrow> goerr option \<Rightarrow> (('c, 'x) shp_world_scheme, unit) prog" where
    "f = (\<lambda>t r. case r of Some err \<Rightarrow> Ret () | None \<Rightarrow> paused_p env be (s1\<lparr>shp_UpdatedAt := t\<rparr>))"
  have start: "ts = ts[i := Running (bindp (atom (time_Now env)) (\<lambda>t. bindp (upd_head env (s1\<lparr>shp_UpdatedAt := t\<rparr>)) (f t)))]"
    unfolding f_def op_update_split [OF assms(2), of env be js, symmetric] assms(5) [symmetric] by simp
  have "w_tables ?w1 = w_tables w"
    by (simp add: time_Now_def tick_def)
  with assms(3) have free: "number_free ?s (w_tables ?w1)"
    by (simp add: number_free_def)
  note head = head_run [of env, OF assms(1) free]
  have "call_step\<^sup>*\<^sup>* (w, ts) (?w1, ts[i := Running (bindp (upd_head env ?s) (f ?t))])"
    using call_prefix [OF assms(4), of w "atom (time_Now env)"] by (subst start) simp
  also have "call_step\<^sup>*\<^sup>* (?w1, ts[i := Running (bindp (upd_head env ?s) (f ?t))])
      (exec (collapse (upd_head env ?s)) ?w1, ts[i := Running (paused_p env be ?s)])"
    using call_prefix [OF assms(4), of ?w1 "upd_head env ?s" "f ?t"] by (simp add: head(1) f_def)
  finally show ?thesis
    using head(2) \<open>w_tables ?w1 = w_tables w\<close> by auto
qed

subsection \<open>Two updates of one shipment\<close>

lemma fitting_items:
  "children_fit s \<Longrightarrow> filter (\<lambda>r. sid_ShipmentID r = shp_ID s) (toDBShipmentItems (shp_Items s)) = toDBShipmentItems (shp_Items s)"
  "children_fit s \<Longrightarrow> filter (\<lambda>r. std_ShipmentID r = shp_ID s) (stamp_logs ts s) = stamp_logs ts s"
  using own_ids [of s] by (simp_all add: stamp_logs_def filter_id_conv)

lemma head_done_ids: "map row_ID (t_shipments (head_done ts s t)) = map row_ID (t_shipments t)"
  by (simp add: head_done_def header_row_def toDBShipment_def)

lemma stages:
  "shipment_exists sid (head_done ts s t) = shipment_exists sid t"
  "shipment_exists sid (tail_done ts s t) = shipment_exists sid t"
  "number_free s' t \<Longrightarrow> shp_ID s' = shp_ID s \<Longrightarrow> number_free s' (head_done ts s t)"
  "children_fit (s\<lparr>shp_UpdatedAt := u\<rparr>) = children_fit s"
  "r \<in> set (t_items (head_done ts s t)) \<Longrightarrow> sid_ShipmentID r \<noteq> shp_ID s"
  using arg_cong [OF head_done_ids [of ts s t], of set]
  by (auto simp: shipment_exists_def tail_done_def children_fit_def aggregate_ids_def)
    (auto simp: head_done_def number_free_def header_row_def toDBShipment_def)

lemma merged_tables:
  fixes a b :: Shipment and ts
  assumes "children_fit a" and "children_fit b" and "shp_ID a = shp_ID b"
  defines "t' \<equiv> \<lambda>t. tail_done ts b (tail_done ts a (head_done ts b (head_done ts a t)))"
  shows "filter (\<lambda>r. sid_ShipmentID r = shp_ID b) (t_items (t' t)) =
      toDBShipmentItems (shp_Items a) @ toDBShipmentItems (shp_Items b)"
    and "filter (\<lambda>r. std_ShipmentID r = shp_ID b) (t_tracking (t' t)) = stamp_logs ts b"
    and "\<forall>r \<in> set (t_shipments (t' t)). row_ID r = shp_ID b \<longrightarrow>
      row_Carrier r = shp_Carrier b \<and> row_Status r = status_text (shp_Status b)"
proof -
  note own = fitting_items(1) [OF assms(1)] fitting_items(1) [OF assms(2)] fitting_items(2) [OF assms(2)]
  show "filter (\<lambda>r. sid_ShipmentID r = shp_ID b) (t_items (t' t)) =
      toDBShipmentItems (shp_Items a) @ toDBShipmentItems (shp_Items b)"
    using own(1,2) by (simp add: t'_def tail_done_def head_done_def assms(3))
  show "filter (\<lambda>r. std_ShipmentID r = shp_ID b) (t_tracking (t' t)) = stamp_logs ts b"
    using own(3) by (simp add: t'_def tail_done_def head_done_def)
  show "\<forall>r \<in> set (t_shipments (t' t)). row_ID r = shp_ID b \<longrightarrow>
      row_Carrier r = shp_Carrier b \<and> row_Status r = status_text (shp_Status b)"
    by (auto simp: t'_def tail_done_def head_done_def header_row_def toDBShipment_def)
qed

lemma two_begun:
  "shp_reachable env be js (\<lambda>op. op \<in> {a, b}) R w
    (w, [Running (shp_op_p env (shp_stack_p env be js) a), Running (shp_op_p env (shp_stack_p env be js) b)])"
proof -
  have "shp_reachable env be js (\<lambda>op. op \<in> {a, b}) R w (w, [] @ [Running (shp_op_p env (shp_stack_p env be js) a)])"
    unfolding shp_reachable_def by (rule task_reachable_start [OF task_reachable_init]) auto
  then have "shp_reachable env be js (\<lambda>op. op \<in> {a, b}) R w
      (w, ([] @ [Running (shp_op_p env (shp_stack_p env be js) a)]) @ [Running (shp_op_p env (shp_stack_p env be js) b)])"
    unfolding shp_reachable_def by (rule task_reachable_start) auto
  then show ?thesis by simp
qed

lemma two_updates_pause:
  fixes env :: "('c, 'm) env" and w :: "('c, 'x) shp_world_scheme"
  assumes db: "\<And>n. e_db env n = NoFault"
    and "update_lists ua (update_scalars ua s) = Returns sa" and "update_lists ub (update_scalars ub s) = Returns sb"
    and "number_free sa (w_tables w)" "number_free sb (w_tables w)" and "shp_ID sa = shp_ID sb"
  shows "\<exists>w' ta tb. shp_reachable env be js (\<lambda>op. op \<in> {OpUpdate s ua, OpUpdate s ub}) R w
      (w', [Running (paused_p env be (sa\<lparr>shp_UpdatedAt := ta\<rparr>)), Running (paused_p env be (sb\<lparr>shp_UpdatedAt := tb\<rparr>))]) \<and>
    w_tables w' = head_done (e_pgtime env) (sb\<lparr>shp_UpdatedAt := tb\<rparr>)
      (head_done (e_pgtime env) (sa\<lparr>shp_UpdatedAt := ta\<rparr>) (w_tables w))"
proof -
  let ?pa = "shp_op_p env (shp_stack_p env be js) (OpUpdate s ua) :: (('c, 'x) shp_world_scheme, unit) prog"
  let ?pb = "shp_op_p env (shp_stack_p env be js) (OpUpdate s ub) :: (('c, 'x) shp_world_scheme, unit) prog"
  let ?reach = "shp_reachable env be js (\<lambda>op. op \<in> {OpUpdate s ua, OpUpdate s ub}) R w"
  have begun: "?reach (w, [Running ?pa, Running ?pb])"
    by (rule two_begun)
  from update_pauses [OF db assms(2,4), of 0 "[Running ?pa, Running ?pb]" be js] obtain w1 ta where
    s1: "call_step\<^sup>*\<^sup>* (w, [Running ?pa, Running ?pb]) (w1, [Running (paused_p env be (sa\<lparr>shp_UpdatedAt := ta\<rparr>)), Running ?pb])"
    and t1: "w_tables w1 = head_done (e_pgtime env) (sa\<lparr>shp_UpdatedAt := ta\<rparr>) (w_tables w)"
    by auto
  have "number_free sb (w_tables w1)"
    unfolding t1 using assms(5) by (rule stages(3)) (simp add: assms(6))
  from update_pauses [OF db assms(3) this, of 1 "[Running (paused_p env be (sa\<lparr>shp_UpdatedAt := ta\<rparr>)), Running ?pb]" be js]
  obtain w2 tb where
    s2: "call_step\<^sup>*\<^sup>* (w1, [Running (paused_p env be (sa\<lparr>shp_UpdatedAt := ta\<rparr>)), Running ?pb])
      (w2, [Running (paused_p env be (sa\<lparr>shp_UpdatedAt := ta\<rparr>)), Running (paused_p env be (sb\<lparr>shp_UpdatedAt := tb\<rparr>))])"
    and t2: "w_tables w2 = head_done (e_pgtime env) (sb\<lparr>shp_UpdatedAt := tb\<rparr>) (w_tables w1)"
    by auto
  have "?reach (w2, [Running (paused_p env be (sa\<lparr>shp_UpdatedAt := ta\<rparr>)), Running (paused_p env be (sb\<lparr>shp_UpdatedAt := tb\<rparr>))])"
    using begun s1 s2 unfolding shp_reachable_def by (auto intro: tasks_reachable)
  then show ?thesis
    using t2 unfolding t1 by blast
qed

text \<open>Both go on, one after the other.\<close>

lemma paused_updates_end:
  assumes db: "\<And>n. e_db env n = NoFault" and "children_fit a" "children_fit b" and "shp_ID a = shp_ID b"
    and "shipment_exists (shp_ID b) (w_tables w)" and "w_tables w = head_done (e_pgtime env) b t"
    and "si_SKU ` set (shp_Items a) \<inter> si_SKU ` set (shp_Items b) = {}"
  shows "\<exists>w'. call_step\<^sup>*\<^sup>* (w, [Running (paused_p env be a), Running (paused_p env be b)])
      (w', [Running (Ret ()), Running (Ret ())]) \<and>
    w_tables w' = tail_done (e_pgtime env) b (tail_done (e_pgtime env) a (w_tables w))"
proof -
  let ?w1 = "exec (collapse (paused_p env be a)) w"
  let ?w2 = "exec (collapse (paused_p env be b)) ?w1"
  have t1: "w_tables ?w1 = tail_done (e_pgtime env) a (w_tables w)"
    using assms(2,4,5) stages(5) [of _ "e_pgtime env" b t] by (intro paused_run db) (auto simp: assms(6))
  have "\<forall>r \<in> set (t_items (w_tables ?w1)). sid_ShipmentID r = shp_ID b \<longrightarrow> sid_SKU r \<notin> si_SKU ` set (shp_Items b)"
    using assms(7) stages(5) [of _ "e_pgtime env" b t] unfolding t1 assms(6)
    by (auto simp: tail_done_def toDBShipmentItems_def)
  then have "w_tables ?w2 = tail_done (e_pgtime env) b (w_tables ?w1)"
    using assms(3,5) by (intro paused_run db) (auto simp: stages t1)
  moreover have "call_step\<^sup>*\<^sup>* (w, [Running (paused_p env be a), Running (paused_p env be b)])
      (?w1, [Running (Ret ()), Running (paused_p env be b)])"
    using run_whole [of 0 "[Running (paused_p env be a), Running (paused_p env be b)]" _ w] by simp
  moreover have "call_step\<^sup>*\<^sup>* (?w1, [Running (Ret ()), Running (paused_p env be b)])
      (?w2, [Running (Ret ()), Running (Ret ())])"
    using run_whole [of 1 "[Running (Ret ()), Running (paused_p env be b)]" _ ?w1] by simp
  ultimately show ?thesis
    using t1 by (metis (no_types, lifting) rtranclp_trans)
qed

text \<open>
  C28: two updates of one shipment are not isolated. When the database answers, there is a
  schedule in which both calls of \<open>Business.Update\<close> have updated the header and deleted the
  items (\<open>paused_p\<close>), and then the first runs to its end and after it the second; it leaves
  the shipment with the items of both, under the header and the tracking logs of the second:
  an aggregate that neither caller wrote. It is shown for a stored shipment and two updates
  with items and tracking logs of their own, whose items have no SKU in common, whose rows satisfy the constraints of the tables and
  whose tracking numbers no other shipment has. (With a common SKU the second insertion
  violates the primary key; in other orders of the statements the header of one update can
  meet the logs of the other.)
\<close>

theorem overlapping_updates_merge:
  fixes env :: "('c, 'm) env" and w :: "('c, 'x) shp_world_scheme"
  assumes "\<forall>n. e_db env n = NoFault" and "shipment_exists (shp_ID s) (w_tables w)"
    and "update_lists ua (update_scalars ua s) = Returns sa" and "update_lists ub (update_scalars ub s) = Returns sb"
    and "children_fit sa" "children_fit sb" and "number_free sa (w_tables w)" "number_free sb (w_tables w)"
    and "si_SKU ` set (shp_Items sa) \<inter> si_SKU ` set (shp_Items sb) = {}"
  shows "\<exists>w1 ta tb w'. shp_reachable env be js (\<lambda>op. op \<in> {OpUpdate s ua, OpUpdate s ub}) R w
      (w1, [Running (paused_p env be (sa\<lparr>shp_UpdatedAt := ta\<rparr>)), Running (paused_p env be (sb\<lparr>shp_UpdatedAt := tb\<rparr>))]) \<and>
    call_step\<^sup>*\<^sup>*
      (w1, [Running (paused_p env be (sa\<lparr>shp_UpdatedAt := ta\<rparr>)), Running (paused_p env be (sb\<lparr>shp_UpdatedAt := tb\<rparr>))])
      (w', [Running (Ret ()), Running (Ret ())]) \<and>
    shp_reachable env be js (\<lambda>op. op \<in> {OpUpdate s ua, OpUpdate s ub}) R w (w', [Running (Ret ()), Running (Ret ())]) \<and>
    filter (\<lambda>r. sid_ShipmentID r = shp_ID s) (t_items (w_tables w')) =
      toDBShipmentItems (shp_Items sa) @ toDBShipmentItems (shp_Items sb) \<and>
    filter (\<lambda>r. std_ShipmentID r = shp_ID s) (t_tracking (w_tables w')) = stamp_logs (e_pgtime env) sb \<and>
    (\<forall>r \<in> set (t_shipments (w_tables w')). row_ID r = shp_ID s \<longrightarrow>
      row_Carrier r = shp_Carrier sb \<and> row_Status r = status_text (shp_Status sb))"
proof -
  let ?reach = "shp_reachable env be js (\<lambda>op. op \<in> {OpUpdate s ua, OpUpdate s ub}) R w"
  have db: "e_db env n = NoFault" for n
    using assms(1) by blast
  have ids: "shp_ID sa = shp_ID s" "shp_ID sb = shp_ID s"
    using update_lists_keeps [OF assms(3)] update_lists_keeps [OF assms(4)] by simp_all
  then have same: "shp_ID sa = shp_ID sb"
    by simp
  from two_updates_pause [OF db assms(3,4,7,8) same, of be js R] obtain w2 ta tb where
    paused: "?reach (w2, [Running (paused_p env be (sa\<lparr>shp_UpdatedAt := ta\<rparr>)), Running (paused_p env be (sb\<lparr>shp_UpdatedAt := tb\<rparr>))])"
    and t2: "w_tables w2 = head_done (e_pgtime env) (sb\<lparr>shp_UpdatedAt := tb\<rparr>)
      (head_done (e_pgtime env) (sa\<lparr>shp_UpdatedAt := ta\<rparr>) (w_tables w))"
    by blast
  let ?a = "sa\<lparr>shp_UpdatedAt := ta\<rparr>" and ?b = "sb\<lparr>shp_UpdatedAt := tb\<rparr>"
  have fit: "children_fit ?a" "children_fit ?b" "shp_ID ?a = shp_ID ?b"
    using assms(5,6) by (simp_all add: stages same)
  have "shipment_exists (shp_ID ?b) (w_tables w2)" "si_SKU ` set (shp_Items ?a) \<inter> si_SKU ` set (shp_Items ?b) = {}"
    using assms(2,9) by (simp_all add: t2 stages ids)
  from paused_updates_end [OF db fit this(1) t2 this(2), of be] obtain w' where
    "call_step\<^sup>*\<^sup>* (w2, [Running (paused_p env be ?a), Running (paused_p env be ?b)]) (w', [Running (Ret ()), Running (Ret ())])"
    and t': "w_tables w' = tail_done (e_pgtime env) ?b (tail_done (e_pgtime env) ?a (w_tables w2))"
    by blast
  moreover from paused this(1) have "?reach (w', [Running (Ret ()), Running (Ret ())])"
    unfolding shp_reachable_def by (rule tasks_reachable)
  moreover have "stamp_logs (e_pgtime env) ?b = stamp_logs (e_pgtime env) sb"
    by (simp add: stamp_logs_def)
  ultimately show ?thesis
    using paused merged_tables [OF fit, of "e_pgtime env" "w_tables w"]
    by (intro exI [where x = w2] exI [where x = ta] exI [where x = tb] exI [where x = w']) (simp add: t' t2 ids)
qed

definition demo_update :: "string \<Rightarrow> UpdateShipment" where
  "demo_update sku = \<lparr>us_Carrier = None, us_TrackingNumber = None, us_OriginLocationID = None,
     us_DestinationLocationID = None, us_Status = Some StatusDelivered, us_ETA = None, us_DispatchedAt = None,
     us_DeliveredAt = None, us_UpdatedAt = None,
     us_Items = Some [Some \<lparr>si_ShipmentID = ''SHP1'', si_SKU = sku, si_Quantity = 1\<rparr>],
     us_TrackingLogs = None, us_StatusHistory = None\<rparr>"

definition demo_updated :: "string \<Rightarrow> Shipment" where
  "demo_updated sku = demo_shipment\<lparr>shp_Status := StatusDelivered,
     shp_Items := [\<lparr>si_ShipmentID = ''SHP1'', si_SKU = sku, si_Quantity = 1\<rparr>]\<rparr>"

lemma demo_updates:
  "update_lists (demo_update sku) (update_scalars (demo_update sku) demo_shipment) = Returns (demo_updated sku)"
  "children_fit (demo_updated sku)" "number_free (demo_updated sku) (w_tables shp_demo_world)"
  by (simp_all add: update_lists_def update_scalars_def set_if_def demo_update_def demo_updated_def demo_shipment_def
      children_fit_def aggregate_ids_def toDBShipmentItems_def toDBShipmentTrackings_def item_refused_def
      tracking_refused_def number_free_def shp_demo_world_def demo_tables_def header_row_def toDBShipment_def)

theorem overlapping_updates_merge_witness:
  "\<exists>w'. shp_reachable shp_env None demo_codec
      (\<lambda>op. op \<in> {OpUpdate demo_shipment (demo_update ''S2''), OpUpdate demo_shipment (demo_update ''S3'')}) (\<lambda>_ _. False)
      shp_demo_world (w', [Running (Ret ()), Running (Ret ())]) \<and>
    map sid_SKU (filter (\<lambda>r. sid_ShipmentID r = ''SHP1'') (t_items (w_tables w'))) = [''S2'', ''S3'']"
proof -
  have stored: "shipment_exists (shp_ID demo_shipment) (w_tables shp_demo_world)"
    by (simp add: shipment_exists_def shp_demo_world_def demo_tables_def header_row_def toDBShipment_def)
  have disj: "si_SKU ` set (shp_Items (demo_updated ''S2'')) \<inter> si_SKU ` set (shp_Items (demo_updated ''S3'')) = {}"
    and db: "\<forall>n. e_db shp_env n = NoFault"
    by (simp_all add: demo_updated_def)
  from overlapping_updates_merge [OF db stored demo_updates(1,1) demo_updates(2,2,3,3) disj, of None demo_codec "\<lambda>_ _. False"]
  obtain w' :: "mem_redis shp_world" where
    "shp_reachable shp_env None demo_codec
      (\<lambda>op. op \<in> {OpUpdate demo_shipment (demo_update ''S2''), OpUpdate demo_shipment (demo_update ''S3'')}) (\<lambda>_ _. False)
      shp_demo_world (w', [Running (Ret ()), Running (Ret ())])"
    "filter (\<lambda>r. sid_ShipmentID r = shp_ID demo_shipment) (t_items (w_tables w')) =
      toDBShipmentItems (shp_Items (demo_updated ''S2'')) @ toDBShipmentItems (shp_Items (demo_updated ''S3''))"
    by (elim exE conjE)
  then show ?thesis
    by (intro exI [where x = w']) (simp add: demo_updated_def toDBShipmentItems_def demo_shipment_def)
qed

subsection \<open>A reader and an update\<close>

text \<open>What is left of a read after its first SELECT statement has returned \<open>dbShp\<close>.\<close>

definition query_rest ::
  "('c, 'm) env \<Rightarrow> string \<Rightarrow> shipmentDB \<Rightarrow> (('c, 'x) shp_world_scheme, goerr + Shipment) prog" where
  "query_rest env sid dbShp =
     bindp (atom (NamedQuerySlice (sdb_query env (\<lambda>t. filter (\<lambda>r. sid_ShipmentID r = sid) (t_items t))) Inr)) (\<lambda>i.
       case i of
         Inl err \<Rightarrow> Ret (Inl (ErrWrap ''db: '' err))
       | Inr dbItems \<Rightarrow>
     bindp (atom (NamedQuerySlice (sdb_query env (\<lambda>t. filter (\<lambda>r. std_ShipmentID r = sid) (t_tracking t))) Inr)) (\<lambda>l.
       case l of
         Inl err \<Rightarrow> Ret (Inl (ErrWrap ''db: '' err))
       | Inr dbTls \<Rightarrow>
     bindp (atom (NamedQuerySlice (sdb_query env (\<lambda>t. filter (\<lambda>r. hr_ShipmentID r = sid) (t_history t))) scan_history)) (\<lambda>s.
       case s of
         Inl err \<Rightarrow> Ret (Inl (ErrWrap ''db: '' err))
       | Inr dbShs \<Rightarrow> Ret (Inr
           ((toBusShipment dbShp)
             \<lparr>shp_Items := toBusShipmentItems dbItems,
              shp_TrackingLogs := toBusShipmentTrackings dbTls,
              shp_StatusHistory := toBusStatusHistoryChanges dbShs\<rparr>)))))"

definition reading_p ::
  "('c, 'm) env \<Rightarrow> json_codec \<Rightarrow> string \<Rightarrow> shipmentDB \<Rightarrow> (('c, 'x) shp_world_scheme, unit) prog" where
  "reading_p env js sid dbShp = bindp (query_rest env sid dbShp) (\<lambda>r.
     case r of Inl err \<Rightarrow> Ret () | Inr shp \<Rightarrow> bindp (atom (shp_writeCache env js shp)) (\<lambda>_. Ret ()))"

abbreviation header_query ::
  "('c, 'm) env \<Rightarrow> string \<Rightarrow> (('c, 'x) shp_world_scheme, goerr + shipmentDB) state" where
  "header_query env sid \<equiv>
     NamedQueryStruct (sdb_query env (\<lambda>t. filter (\<lambda>r. row_ID r = sid) (t_shipments t))) scan_shipment"

lemma query_split:
  "shpdb_QueryByID_p env sid = bindp (atom (header_query env sid)) (\<lambda>h. case h of
    Inl err \<Rightarrow> Ret (Inl (ErrWrap ''db: '' err)) | Inr d \<Rightarrow> query_rest env sid d)"
  by (simp only: shpdb_QueryByID_p_def query_rest_def)

lemma op_query_split:
  "shp_op_p env (shp_stack_p env be js) (OpQuery sid) =
    bindp (atom (shp_readCache env js sid)) (\<lambda>c. case c of
      Inl _ \<Rightarrow> bindp (atom (header_query env sid)) (\<lambda>h. case h of
        Inl err \<Rightarrow> Ret () | Inr d \<Rightarrow> reading_p env js sid d)
    | Inr shp \<Rightarrow> Ret ())"
proof -
  have ends: "(case a of Inl (e :: goerr) \<Rightarrow> Ret () | Inr (x :: Shipment) \<Rightarrow> Ret ()) = Ret ()" for a
    by (cases a) simp_all
  show ?thesis
    by (simp add: query_split shpbus_QueryById_p_def shp_stack_p_def shpcache_Store_p_def shpcache_QueryByID_p_def shpdb_Store_p_def
        bindp_assoc bindp_cases ends reading_p_def cong: sum.case_cong)
qed

lemma query_starts:
  fixes env :: "('c, 'm) env" and w :: "('c, 'x) shp_world_scheme"
  assumes "\<And>n. e_db env n = NoFault" and "result (shp_readCache env js sid) w = Inl e"
    and "filter (\<lambda>r. row_ID r = sid) (t_shipments (w_tables w)) = [row]" and "scan_shipment row = Inr d"
    and "i < length ts" and "ts ! i = Running (shp_op_p env (shp_stack_p env be js) (OpQuery sid))"
  shows "\<exists>w'. call_step\<^sup>*\<^sup>* (w, ts) (w', ts[i := Running (reading_p env js sid d)]) \<and> w_tables w' = w_tables w"
proof -
  define g :: "goerr + shipmentDB \<Rightarrow> (('c, 'x) shp_world_scheme, unit) prog" where
    "g = (\<lambda>h. case h of Inl err \<Rightarrow> Ret () | Inr d \<Rightarrow> reading_p env js sid d)"
  define f :: "goerr + Shipment \<Rightarrow> (('c, 'x) shp_world_scheme, unit) prog" where
    "f = (\<lambda>c. case c of Inl _ \<Rightarrow> bindp (atom (header_query env sid)) g | Inr shp \<Rightarrow> Ret ())"
  have start: "ts = ts[i := Running (bindp (atom (shp_readCache env js sid)) f)]"
    unfolding f_def g_def op_query_split [of env be js sid, symmetric] assms(6) [symmetric] by simp
  let ?w1 = "exec (shp_readCache env js sid) w"
  have same: "w_tables ?w1 = w_tables w"
    by (simp add: shp_read_run(2))
  have head: "result (header_query env sid) ?w1 = Inr d"
    by (simp add: query_struct_run(1) [OF assms(1)] same assms(3,4))
  have "call_step\<^sup>*\<^sup>* (w, ts) (?w1, ts[i := Running (bindp (atom (header_query env sid)) g)])"
    using call_prefix [OF assms(5), of w "atom (shp_readCache env js sid)" f] start
    by (simp add: assms(2)) (simp add: f_def)
  also have "call_step\<^sup>*\<^sup>* (?w1, ts[i := Running (bindp (atom (header_query env sid)) g)])
      (exec (header_query env sid) ?w1, ts[i := Running (reading_p env js sid d)])"
    using call_prefix [OF assms(5), of ?w1 "atom (header_query env sid)" g] by (simp add: head) (simp add: g_def)
  finally show ?thesis
    using query_tables(1) [of env "\<lambda>t. filter (\<lambda>r. row_ID r = sid) (t_shipments t)" scan_shipment ?w1] same by auto
qed

lemma query_rest_run:
  assumes "\<And>n. e_db env n = NoFault" and "filter (\<lambda>r. hr_ShipmentID r = sid) (t_history (w_tables w)) = []"
  shows "result (collapse (query_rest env sid d)) w = Inr ((toBusShipment d)
      \<lparr>shp_Items := toBusShipmentItems (filter (\<lambda>r. sid_ShipmentID r = sid) (t_items (w_tables w))),
       shp_TrackingLogs := toBusShipmentTrackings (filter (\<lambda>r. std_ShipmentID r = sid) (t_tracking (w_tables w))),
       shp_StatusHistory := []\<rparr>)"
    and "w_tables (exec (collapse (query_rest env sid d)) w) = w_tables w"
  by (simp_all add: query_rest_def collapse_cases split_beta query_struct_run [OF assms(1)] query_tables assms(2)
      toBusStatusHistoryChanges_def cong: case_congs)

lemma read_ends:
  assumes "\<And>n. e_db env n = NoFault" and "redis_up (e_redis env) view"
    and "filter (\<lambda>r. hr_ShipmentID r = sid) (t_history (w_tables w)) = []"
    and "m = (toBusShipment d)
      \<lparr>shp_Items := toBusShipmentItems (filter (\<lambda>r. sid_ShipmentID r = sid) (t_items (w_tables w))),
       shp_TrackingLogs := toBusShipmentTrackings (filter (\<lambda>r. std_ShipmentID r = sid) (t_tracking (w_tables w))),
       shp_StatusHistory := []\<rparr>"
    and "shp_ID m = sid" and "json_Marshal js m = Inr data" and "json_Unmarshal js data = Inr m"
  shows "w_tables (exec (collapse (reading_p env js sid d)) w) = w_tables w"
    and "result (shpcache_QueryByID env js storer sid) (exec (collapse (reading_p env js sid d)) w) = Inr m"
proof -
  let ?w1 = "exec (collapse (query_rest env sid d)) w"
  let ?w2 = "exec (shp_writeCache env js m) ?w1"
  note rest = query_rest_run [OF assms(1,3), of d, folded assms(4)]
  have run: "exec (collapse (reading_p env js sid d)) w = ?w2"
    by (simp add: reading_p_def split_beta rest(1))
  show "w_tables (exec (collapse (reading_p env js sid d)) w) = w_tables w"
    by (simp add: run shp_write_run(2) [OF assms(6)] rest(2))
  have "fst (SetTTL (e_redis env) (shipment_key sid) data day_ttl (w_redis ?w1)) = None"
    by (rule redis_up.set_up [OF assms(2)])
  then have "view (w_redis ?w2) (shipment_key sid) = Some (RString data)"
    using redis_laws.set_ok [OF redis_up.axioms(1) [OF assms(2)]] by (simp add: shp_write_run(2) [OF assms(6)] assms(5))
  then have "fst (GetBytes (e_redis env) (shipment_key sid) (w_redis ?w2)) = Inr data"
    by (rule redis_up.get_up [OF assms(2)])
  then have "result (shp_readCache env js sid) ?w2 = Inr m"
    by (simp add: shp_read_run(1) assms(7))
  then show "result (shpcache_QueryByID env js storer sid) (exec (collapse (reading_p env js sid d)) w) = Inr m"
    by (simp add: run shpcache_QueryByID_def split_beta)
qed

text \<open>The header of one aggregate with the items and the tracking logs of another, and no history.\<close>

definition mixed :: "(gotime \<Rightarrow> gotime) \<Rightarrow> Shipment \<Rightarrow> Shipment \<Rightarrow> Shipment" where
  "mixed ts old new = (stamped ts old)\<lparr>shp_Items := shp_Items new,
     shp_TrackingLogs := shp_TrackingLogs (stamped ts new), shp_StatusHistory := []\<rparr>"

abbreviation scanned :: "(gotime \<Rightarrow> gotime) \<Rightarrow> shipmentDB \<Rightarrow> shipmentDB" where
  "scanned ts d \<equiv> d\<lparr>sdb_ETA := ts (sdb_ETA d), sdb_DispatchedAt := ts (sdb_DispatchedAt d),
     sdb_DeliveredAt := ts (sdb_DeliveredAt d), sdb_CreatedAt := ts (sdb_CreatedAt d),
     sdb_UpdatedAt := ts (sdb_UpdatedAt d), sdb_Items := [], sdb_TrackingLogs := [], sdb_StatusHistory := []\<rparr>"

lemma updated_rows:
  fixes a :: Shipment
  assumes "shp_ID a = sid"
  shows "filter (\<lambda>r. hr_ShipmentID r = sid) (t_history (tail_done ts a t)) = []"
    and "\<forall>r \<in> set (t_shipments (tail_done ts a (head_done ts a t))). row_ID r = sid \<longrightarrow>
      row_Status r = status_text (shp_Status a)"
  using assms by (auto simp: tail_done_def head_done_def header_row_def toDBShipment_def)

lemma mixed_read:
  assumes "children_fit a" and "shp_ID a = shp_ID s" and "t' = tail_done ts a (head_done ts a t)"
  shows "mixed ts s a = (toBusShipment (scanned ts (toDBShipment s)))
      \<lparr>shp_Items := toBusShipmentItems (filter (\<lambda>r. sid_ShipmentID r = shp_ID s) (t_items t')),
       shp_TrackingLogs := toBusShipmentTrackings (filter (\<lambda>r. std_ShipmentID r = shp_ID s) (t_tracking t')),
       shp_StatusHistory := []\<rparr>"
  using fitting_items [OF assms(1)]
  by (simp add: assms(2,3) tail_done_def head_done_def stamp_logs_def tracking_stamped)
    (simp add: mixed_def stamped_def toBusShipment_def toDBShipment_def)

lemma update_overtakes:
  fixes env :: "('c, 'm) env" and w :: "('c, 'x) shp_world_scheme"
  assumes "\<And>n. e_db env n = NoFault" and "update_lists u (update_scalars u s) = Returns s1"
    and "number_free s1 (w_tables w)" and "children_fit s1" and "shipment_exists (shp_ID s1) (w_tables w)"
    and "i < length ts" and "ts ! i = Running (shp_op_p env (shp_stack_p env be js) (OpUpdate s u))"
  shows "\<exists>w' t. call_step\<^sup>*\<^sup>* (w, ts) (w', ts[i := Running (Ret ())]) \<and>
    w_tables w' = tail_done (e_pgtime env) (s1\<lparr>shp_UpdatedAt := t\<rparr>)
      (head_done (e_pgtime env) (s1\<lparr>shp_UpdatedAt := t\<rparr>) (w_tables w))"
proof -
  from update_pauses [OF assms(1-3,6,7)] obtain w1 t where
    s1: "call_step\<^sup>*\<^sup>* (w, ts) (w1, ts[i := Running (paused_p env be (s1\<lparr>shp_UpdatedAt := t\<rparr>))])"
    and t1: "w_tables w1 = head_done (e_pgtime env) (s1\<lparr>shp_UpdatedAt := t\<rparr>) (w_tables w)"
    by blast
  let ?a = "s1\<lparr>shp_UpdatedAt := t\<rparr>"
  have "w_tables (exec (collapse (paused_p env be ?a)) w1) = tail_done (e_pgtime env) ?a (w_tables w1)"
    using assms(4,5) stages(5) [of _ "e_pgtime env" ?a "w_tables w"]
    by (intro paused_run assms(1)) (auto simp: stages t1)
  moreover have "call_step\<^sup>*\<^sup>* (w, ts) (exec (collapse (paused_p env be ?a)) w1, ts[i := Running (Ret ())])"
    using rtranclp_trans [OF s1 run_whole] assms(6) by fastforce
  ultimately show ?thesis
    using t1 by metis
qed

lemma read_overtaken:
  fixes env :: "('c, 'm) env" and w :: "('c, 'x) shp_world_scheme"
  assumes db: "\<And>n. e_db env n = NoFault" and "stored_as (e_pgtime env) s (w_tables w)"
    and miss: "result (shp_readCache env js (shp_ID s)) w = Inl e"
    and "update_lists u (update_scalars u s) = Returns s1" and "children_fit s1" and "number_free s1 (w_tables w)"
  shows "\<exists>w' t. shp_reachable env be js (\<lambda>op. op \<in> {OpQuery (shp_ID s), OpUpdate s u}) R w
      (w', [Running (reading_p env js (shp_ID s) (scanned (e_pgtime env) (toDBShipment s))), Running (Ret ())]) \<and>
    w_tables w' = tail_done (e_pgtime env) (s1\<lparr>shp_UpdatedAt := t\<rparr>)
      (head_done (e_pgtime env) (s1\<lparr>shp_UpdatedAt := t\<rparr>) (w_tables w))"
proof -
  let ?sid = "shp_ID s"
  let ?q = "shp_op_p env (shp_stack_p env be js) (OpQuery ?sid) :: (('c, 'x) shp_world_scheme, unit) prog"
  let ?u = "shp_op_p env (shp_stack_p env be js) (OpUpdate s u) :: (('c, 'x) shp_world_scheme, unit) prog"
  let ?held = "reading_p env js ?sid (scanned (e_pgtime env) (toDBShipment s)) :: (('c, 'x) shp_world_scheme, unit) prog"
  let ?reach = "shp_reachable env be js (\<lambda>op. op \<in> {OpQuery ?sid, OpUpdate s u}) R w"
  have same: "shp_ID s1 = ?sid"
    using update_lists_keeps [OF assms(4)] by simp
  have row: "filter (\<lambda>r. row_ID r = ?sid) (t_shipments (w_tables w)) = [header_row (e_pgtime env) (toDBShipment s)]"
    using assms(2) by (simp add: stored_as_def)
  have begun: "?reach (w, [Running ?q, Running ?u])"
    by (rule two_begun)
  from query_starts [OF db miss row scan_header, of 0 "[Running ?q, Running ?u]" be] obtain w1 where
    s1: "call_step\<^sup>*\<^sup>* (w, [Running ?q, Running ?u]) (w1, [Running ?held, Running ?u])" and t1: "w_tables w1 = w_tables w"
    by auto
  have "shipment_exists (shp_ID s1) (w_tables w1)"
    using row by (auto simp: same t1 shipment_exists_def dest: filter_eq_ConsD)
  moreover have "number_free s1 (w_tables w1)"
    using assms(6) by (simp add: t1)
  ultimately obtain w2 t where
    s2: "call_step\<^sup>*\<^sup>* (w1, [Running ?held, Running ?u]) (w2, [Running ?held, Running (Ret ())])"
    and t2: "w_tables w2 = tail_done (e_pgtime env) (s1\<lparr>shp_UpdatedAt := t\<rparr>)
      (head_done (e_pgtime env) (s1\<lparr>shp_UpdatedAt := t\<rparr>) (w_tables w1))"
    using update_overtakes [OF db assms(4) _ assms(5), of w1 1 "[Running ?held, Running ?u]" be js] by auto
  have "?reach (w2, [Running ?held, Running (Ret ())])"
    using begun s1 s2 unfolding shp_reachable_def by (auto intro: tasks_reachable)
  then show ?thesis
    using t2 unfolding t1 by blast
qed

text \<open>
  C27: a read of a shipment that an update overtakes after the first of its four SELECT
  statements returns the old header with the new items and tracking logs, and puts this
  mixture, which no one ever stored, into the cache, where the following reads find it
  instead of the updated shipment.
\<close>

theorem overtaken_read_mixes:
  fixes env :: "('c, 'm) env" and w :: "('c, 'x) shp_world_scheme"
  assumes "redis_up (e_redis env) view" and "\<forall>n. e_db env n = NoFault"
    and "stored_as (e_pgtime env) s (w_tables w)" and "view (w_redis w) (shipment_key (shp_ID s)) = None"
    and "update_lists u (update_scalars u s) = Returns s1" and "children_fit s1" and "number_free s1 (w_tables w)"
    and "json_Marshal js (mixed (e_pgtime env) s s1) = Inr data"
    and "json_Unmarshal js data = Inr (mixed (e_pgtime env) s s1)"
  shows "\<exists>w'. shp_reachable env be js (\<lambda>op. op \<in> {OpQuery (shp_ID s), OpUpdate s u}) R w
      (w', [Running (Ret ()), Running (Ret ())]) \<and>
    result (shpcache_QueryByID env js (shpdb_Store env be) (shp_ID s)) w' = Inr (mixed (e_pgtime env) s s1) \<and>
    (\<forall>r \<in> set (t_shipments (w_tables w')). row_ID r = shp_ID s \<longrightarrow> row_Status r = status_text (shp_Status s1))"
proof -
  let ?ts = "e_pgtime env"
  let ?held = "reading_p env js (shp_ID s) (scanned ?ts (toDBShipment s)) :: (('c, 'x) shp_world_scheme, unit) prog"
  let ?reach = "shp_reachable env be js (\<lambda>op. op \<in> {OpQuery (shp_ID s), OpUpdate s u}) R w"
  have db: "e_db env n = NoFault" for n
    using assms(2) by blast
  obtain e where miss: "result (shp_readCache env js (shp_ID s)) w = Inl e"
    using redis_laws.get_missing [OF redis_up.axioms(1) [OF assms(1)] assms(4)]
    by (cases "fst (GetBytes (e_redis env) (shipment_key (shp_ID s)) (w_redis w))") (auto simp: shp_read_run(1))
  from read_overtaken [OF db assms(3) miss assms(5-7), of be R] obtain w2 t where
    held: "?reach (w2, [Running ?held, Running (Ret ())])"
    and t2: "w_tables w2 = tail_done ?ts (s1\<lparr>shp_UpdatedAt := t\<rparr>) (head_done ?ts (s1\<lparr>shp_UpdatedAt := t\<rparr>) (w_tables w))"
    by blast
  let ?a = "s1\<lparr>shp_UpdatedAt := t\<rparr>" and ?m = "mixed ?ts s s1" and ?w3 = "exec (collapse ?held) w2"
  have same: "shp_ID ?a = shp_ID s" "shp_ID ?m = shp_ID s" "?m = mixed ?ts s ?a"
    using update_lists_keeps [OF assms(5)] by (simp_all add: mixed_def stamped_def)
  have "children_fit ?a"
    using assms(6) by (simp add: stages)
  note read = read_ends [OF db assms(1) updated_rows(1) [OF same(1), of ?ts "head_done ?ts ?a (w_tables w)", folded t2]
    mixed_read [OF this same(1) t2, folded same(3)] same(2) assms(8,9)]
  have "call_step\<^sup>*\<^sup>* (w2, [Running ?held, Running (Ret ())]) (?w3, [Running (Ret ()), Running (Ret ())])"
    using run_whole [of 0 "[Running ?held, Running (Ret ())]" ?held w2] by simp
  with held have "?reach (?w3, [Running (Ret ()), Running (Ret ())])"
    unfolding shp_reachable_def by (blast intro: tasks_reachable)
  then show ?thesis
    using read updated_rows(2) [OF same(1), of ?ts "w_tables w"]
    by (intro exI [where x = ?w3]) (simp add: t2)
qed

definition mixed_codec :: json_codec where
  "mixed_codec = \<lparr>json_Marshal = (\<lambda>_. Inr []), json_Unmarshal = (\<lambda>_. Inr (mixed (\<lambda>t. t) demo_shipment (demo_updated ''S2'')))\<rparr>"

theorem overtaken_read_mixes_witness:
  "\<exists>w' m. result (shpcache_QueryByID shp_env mixed_codec (shpdb_Store shp_env None) ''SHP1'') w' = Inr m \<and>
    shp_Status m = StatusInTransit \<and> map si_SKU (shp_Items m) = [''S2''] \<and> shp_StatusHistory m = [] \<and>
    shp_reachable shp_env None mixed_codec (\<lambda>op. op \<in> {OpQuery ''SHP1'', OpUpdate demo_shipment (demo_update ''S2'')})
      (\<lambda>_ _. False) shp_demo_world (w', [Running (Ret ()), Running (Ret ())])"
proof -
  have up: "redis_up (e_redis shp_env) mem_view"
    by (simp add: mem.redis_up_axioms)
  have stored: "stored_as (e_pgtime shp_env) demo_shipment (w_tables shp_demo_world)"
    by (simp add: stored_as_def shp_demo_world_def demo_tables_def demo_shipment_def header_row_def toDBShipment_def
        toDBShipmentItems_def toDBShipmentTrackings_def toDBStatusHistoryChanges_def to_history_row_def)
  have miss: "mem_view (w_redis shp_demo_world) (shipment_key (shp_ID demo_shipment)) = None"
    by (simp add: shp_demo_world_def mem_view_def)
  have codec: "json_Marshal mixed_codec (mixed (e_pgtime shp_env) demo_shipment (demo_updated ''S2'')) = Inr []"
    "json_Unmarshal mixed_codec [] = Inr (mixed (e_pgtime shp_env) demo_shipment (demo_updated ''S2''))"
    by (simp_all add: mixed_codec_def calm_env_def)
  from overtaken_read_mixes [OF up _ stored miss demo_updates codec, of None "\<lambda>_ _. False"] obtain w' where
    "shp_reachable shp_env None mixed_codec (\<lambda>op. op \<in> {OpQuery ''SHP1'', OpUpdate demo_shipment (demo_update ''S2'')})
      (\<lambda>_ _. False) shp_demo_world (w', [Running (Ret ()), Running (Ret ())])"
    "result (shpcache_QueryByID shp_env mixed_codec (shpdb_Store shp_env None) ''SHP1'') w' =
      Inr (mixed (e_pgtime shp_env) demo_shipment (demo_updated ''S2''))"
    by (auto simp: demo_shipment_def)
  then show ?thesis
    by (intro exI [where x = w'] exI [where x = "mixed (e_pgtime shp_env) demo_shipment (demo_updated ''S2'')"])
      (simp add: mixed_def stamped_def demo_updated_def demo_shipment_def)
qed

end
