(* ===== verification/Migrations.thy ===== *)
theory Migrations
  imports SqlDB
begin

section \<open>Schema migrations and seeding\<close>

text \<open>
  \<open>Migrate\<close> and \<open>Seed\<close> of the two services' \<open>internal/migrate/migrate.go\<close>. The
  two files have the same text; each function is translated for each service. The
  database handle, the migration library \<open>darwin\<close> and the two embedded documents are
  arguments. What \<open>Seed\<close> relies on is the documented behaviour of \<open>database/sql\<close>
  transactions on PostgreSQL: the locale \<open>tx_laws\<close>.
\<close>

subsection \<open>The database handle\<close>

text \<open>What \<open>StatusCheck\<close> meets: the deadline of the context, the pings, the query.\<close>

record db_health =
  dh_Deadline :: "nat option"
  dh_Ping :: "nat \<Rightarrow> bool \<times> nat"
  dh_CtxErr :: "nat \<Rightarrow> goerr option"
  dh_Select :: "goerr option"

definition health_check :: "db_health \<Rightarrow> goerr option" where
  "health_check h = StatusCheck (dh_Deadline h) (dh_Ping h) (dh_CtxErr h) (dh_Select h)"

record 'w sql_api =
  sq_Begin :: "('w, goerr option) state"
  sq_Exec :: "string \<Rightarrow> ('w, goerr option) state"
  sq_Commit :: "('w, goerr option) state"
  sq_Rollback :: "('w, goerr option) state"

record ('w, 'mig) darwin_api =
  dw_NewDriver :: "('w, goerr option) state"
  dw_Parse :: "string \<Rightarrow> 'mig list"
  dw_Migrate :: "'mig list \<Rightarrow> ('w, goerr option) state"

definition ErrTxDone :: goerr where
  "ErrTxDone = ErrNew ''sql: transaction has already been committed or rolled back''"

subsection \<open>Migrate\<close>

definition inv_Migrate ::
  "string \<Rightarrow> ('w, 'mig) darwin_api \<Rightarrow> db_health \<Rightarrow> ('w, goerr option) state" where
  "inv_Migrate migrateDoc darwin db =
     (case health_check db of
        Some err \<Rightarrow> State_Monad.return (Some (ErrWrap ''status check database: '' err))
      | None \<Rightarrow>
          do {
            driver \<leftarrow> dw_NewDriver darwin;
            case driver of
              Some err \<Rightarrow> State_Monad.return (Some (ErrWrap ''construct darwin driver: '' err))
            | None \<Rightarrow> dw_Migrate darwin (dw_Parse darwin migrateDoc)
          })"

definition shp_Migrate ::
  "string \<Rightarrow> ('w, 'mig) darwin_api \<Rightarrow> db_health \<Rightarrow> ('w, goerr option) state" where
  "shp_Migrate migrateDoc darwin db =
     (case health_check db of
        Some err \<Rightarrow> State_Monad.return (Some (ErrWrap ''status check database: '' err))
      | None \<Rightarrow>
          do {
            driver \<leftarrow> dw_NewDriver darwin;
            case driver of
              Some err \<Rightarrow> State_Monad.return (Some (ErrWrap ''construct darwin driver: '' err))
            | None \<Rightarrow> dw_Migrate darwin (dw_Parse darwin migrateDoc)
          })"

subsection \<open>Seed\<close>

text \<open>
  The deferred call: a rollback of a finished transaction leaves the result, any other
  rollback error replaces it.
\<close>

definition deferred_rollback :: "'w sql_api \<Rightarrow> goerr option \<Rightarrow> ('w, goerr option) state" where
  "deferred_rollback db err =
     do {
       errTx \<leftarrow> sq_Rollback db;
       State_Monad.return
         (case errTx of
            None \<Rightarrow> err
          | Some e \<Rightarrow> if errors_Is e ErrTxDone then err else Some (ErrWrap ''rollback: '' e))
     }"

definition inv_Seed :: "string \<Rightarrow> 'w sql_api \<Rightarrow> db_health \<Rightarrow> ('w, goerr option) state" where
  "inv_Seed seedDoc db health =
     (case health_check health of
        Some err \<Rightarrow> State_Monad.return (Some (ErrWrap ''status check database: '' err))
      | None \<Rightarrow>
          do {
            tx \<leftarrow> sq_Begin db;
            case tx of
              Some err \<Rightarrow> State_Monad.return (Some err)
            | None \<Rightarrow>
                do {
                  r \<leftarrow> sq_Exec db seedDoc;
                  case r of
                    Some err \<Rightarrow> deferred_rollback db (Some (ErrWrap ''exec: '' err))
                  | None \<Rightarrow>
                      do {
                        c \<leftarrow> sq_Commit db;
                        deferred_rollback db (map_option (ErrWrap ''commit: '') c)
                      }
                }
          })"

definition shp_Seed :: "string \<Rightarrow> 'w sql_api \<Rightarrow> db_health \<Rightarrow> ('w, goerr option) state" where
  "shp_Seed seedDoc db health =
     (case health_check health of
        Some err \<Rightarrow> State_Monad.return (Some (ErrWrap ''status check database: '' err))
      | None \<Rightarrow>
          do {
            tx \<leftarrow> sq_Begin db;
            case tx of
              Some err \<Rightarrow> State_Monad.return (Some err)
            | None \<Rightarrow>
                do {
                  r \<leftarrow> sq_Exec db seedDoc;
                  case r of
                    Some err \<Rightarrow> deferred_rollback db (Some (ErrWrap ''exec: '' err))
                  | None \<Rightarrow>
                      do {
                        c \<leftarrow> sq_Commit db;
                        deferred_rollback db (map_option (ErrWrap ''commit: '') c)
                      }
                }
          })"

text \<open>The two services' copies have not drifted apart.\<close>

lemma seed_copies: "shp_Seed = inv_Seed" "shp_Migrate = inv_Migrate"
  by (simp_all add: fun_eq_iff inv_Seed_def shp_Seed_def inv_Migrate_def shp_Migrate_def)

subsection \<open>The documented behaviour of transactions\<close>

text \<open>
  \<open>durable w\<close> is the committed content of the database, \<open>open_tx w\<close> the content the
  open transaction sees, if one is open, and \<open>apply doc d\<close> what running the statements of
  \<open>doc\<close> makes of the content \<open>d\<close>. Nothing but a commit changes the durable content.
  \<open>Commit\<close> and \<open>Rollback\<close> finish the transaction whatever they answer; a commit whose
  answer is an error may have happened or not; a rollback of a finished transaction answers
  \<open>ErrTxDone\<close>.
\<close>

locale tx_laws =
  fixes db :: "'w sql_api"
    and durable :: "'w \<Rightarrow> 'd"
    and open_tx :: "'w \<Rightarrow> 'd option"
    and apply_doc :: "string \<Rightarrow> 'd \<Rightarrow> 'd"
  assumes begin_durable: "durable (exec (sq_Begin db) w) = durable w"
    and begin_ok: "open_tx w = None \<Longrightarrow> open_tx (exec (sq_Begin db) w) =
      (if result (sq_Begin db) w = None then Some (durable w) else None)"
    and exec_durable: "durable (exec (sq_Exec db doc) w) = durable w"
    and exec_ok: "open_tx w = Some d \<Longrightarrow> result (sq_Exec db doc) w = None \<Longrightarrow>
      open_tx (exec (sq_Exec db doc) w) = Some (apply_doc doc d)"
    and commit_ok: "open_tx w = Some d \<Longrightarrow> result (sq_Commit db) w = None \<Longrightarrow>
      durable (exec (sq_Commit db) w) = d"
    and commit_err: "open_tx w = Some d \<Longrightarrow> durable (exec (sq_Commit db) w) \<in> {durable w, d}"
    and commit_done: "open_tx (exec (sq_Commit db) w) = None"
    and rollback_durable: "durable (exec (sq_Rollback db) w) = durable w"
    and rollback_done: "open_tx (exec (sq_Rollback db) w) = None"
    and rollback_again: "open_tx w = None \<Longrightarrow> result (sq_Rollback db) w = Some ErrTxDone"
begin

lemma deferred_rollback_durable: "durable (exec (deferred_rollback db r) w) = durable w"
  and deferred_rollback_closes: "open_tx (exec (deferred_rollback db r) w) = None"
  by (simp_all add: deferred_rollback_def split_beta rollback_durable rollback_done)

lemma deferred_rollback_keeps: "open_tx w = None \<Longrightarrow> result (deferred_rollback db r) w = r"
  by (simp add: deferred_rollback_def split_beta rollback_again)

lemma deferred_rollback_error:
  "result (deferred_rollback db (Some e)) w \<noteq> None"
  by (simp add: deferred_rollback_def split_beta split: option.splits)

lemmas deferred_rollback_facts =
  deferred_rollback_durable deferred_rollback_closes deferred_rollback_keeps deferred_rollback_error

text \<open>The four ways through \<open>Seed\<close>.\<close>

lemma seed_not_started:
  assumes "open_tx w = None"
    and "health_check health \<noteq> None \<or> result (sq_Begin db) w \<noteq> None"
  shows "open_tx (exec (inv_Seed doc db health) w) = None"
    and "durable (exec (inv_Seed doc db health) w) = durable w"
    and "result (inv_Seed doc db health) w \<noteq> None"
  using assms by (auto simp: inv_Seed_def split_beta begin_durable begin_ok split: option.splits)

lemma seed_exec_failed:
  assumes "health_check health = None" and "result (sq_Begin db) w = None"
    and "result (sq_Exec db doc) (exec (sq_Begin db) w) = Some err"
  shows "open_tx (exec (inv_Seed doc db health) w) = None"
    and "durable (exec (inv_Seed doc db health) w) = durable w"
    and "result (inv_Seed doc db health) w \<noteq> None"
  using assms
  by (simp_all add: inv_Seed_def split_beta deferred_rollback_facts begin_durable exec_durable del: not_None_eq)

lemma seed_ran:
  assumes "open_tx w = None" and "health_check health = None" and "result (sq_Begin db) w = None"
    and "result (sq_Exec db doc) (exec (sq_Begin db) w) = None"
  shows "open_tx (exec (inv_Seed doc db health) w) = None"
    and "durable (exec (inv_Seed doc db health) w) \<in> {durable w, apply_doc doc (durable w)}"
    and "result (inv_Seed doc db health) w = None \<Longrightarrow>
      durable (exec (inv_Seed doc db health) w) = apply_doc doc (durable w)"
proof -
  let ?w1 = "exec (sq_Begin db) w"
  let ?w2 = "exec (sq_Exec db doc) ?w1"
  have tx: "open_tx ?w2 = Some (apply_doc doc (durable w))"
    using assms begin_ok [of w] exec_ok [of ?w1 "durable w" doc] by simp
  have d2: "durable ?w2 = durable w"
    by (simp add: begin_durable exec_durable)
  let ?c = "result (sq_Commit db) ?w2"
  have run: "run_state (inv_Seed doc db health) w =
      run_state (deferred_rollback db (map_option (ErrWrap ''commit: '') ?c)) (exec (sq_Commit db) ?w2)"
    using assms by (simp add: inv_Seed_def split_beta)
  show "open_tx (exec (inv_Seed doc db health) w) = None"
    by (simp add: run deferred_rollback_closes)
  show "durable (exec (inv_Seed doc db health) w) \<in> {durable w, apply_doc doc (durable w)}"
    using commit_err [OF tx] by (simp add: run deferred_rollback_durable d2)
  show "durable (exec (inv_Seed doc db health) w) = apply_doc doc (durable w)"
    if "result (inv_Seed doc db health) w = None"
    using that commit_ok [OF tx]
    by (simp add: run deferred_rollback_durable deferred_rollback_keeps commit_done)
qed

lemma seed_all:
  assumes "open_tx w = None"
  shows "let w' = exec (inv_Seed doc db health) w; r = result (inv_Seed doc db health) w;
      started = exec (sq_Begin db) w
    in open_tx w' = None \<and>
      durable w' \<in> {durable w, apply_doc doc (durable w)} \<and>
      (r = None \<longrightarrow> durable w' = apply_doc doc (durable w)) \<and>
      (health_check health \<noteq> None \<or> result (sq_Begin db) w \<noteq> None \<or>
        result (sq_Exec db doc) started \<noteq> None \<longrightarrow> r \<noteq> None \<and> durable w' = durable w)"
proof (cases "health_check health \<noteq> None \<or> result (sq_Begin db) w \<noteq> None")
  case True
  with seed_not_started [OF assms] show ?thesis by (simp add: Let_def del: not_None_eq)
next
  case False
  show ?thesis
  proof (cases "result (sq_Exec db doc) (exec (sq_Begin db) w)")
    case None
    with False seed_ran [OF assms] show ?thesis by (simp add: Let_def)
  next
    case (Some err)
    with False seed_exec_failed [of health w doc err] show ?thesis by (simp add: Let_def del: not_None_eq)
  qed
qed

end

subsection \<open>A database that obeys the laws\<close>

text \<open>
  Its content is a list of the documents that were run; it has the open transaction and a
  flag that makes every \<open>Exec\<close> fail.
\<close>

record list_db =
  ld_rows :: "string list"
  ld_tx :: "string list option"
  ld_broken :: bool

definition list_sql :: "list_db sql_api" where
  "list_sql = \<lparr>
     sq_Begin = State (\<lambda>w. if ld_tx w = None then (None, w\<lparr>ld_tx := Some (ld_rows w)\<rparr>)
       else (Some (ErrMsg ''busy''), w)),
     sq_Exec = (\<lambda>doc. State (\<lambda>w. if ld_broken w then (Some (ErrPg undefinedTable), w)
       else (None, w\<lparr>ld_tx := map_option (\<lambda>d. d @ [doc]) (ld_tx w)\<rparr>))),
     sq_Commit = State (\<lambda>w. case ld_tx w of
         Some d \<Rightarrow> (None, w\<lparr>ld_rows := d, ld_tx := None\<rparr>)
       | None \<Rightarrow> (Some ErrTxDone, w)),
     sq_Rollback = State (\<lambda>w. if ld_tx w = None then (Some ErrTxDone, w)
       else (None, w\<lparr>ld_tx := None\<rparr>))\<rparr>"

interpretation list_db: tx_laws list_sql ld_rows ld_tx "\<lambda>doc d. d @ [doc]"
  by unfold_locales (auto simp: list_sql_def split: option.splits if_splits)

definition healthy :: db_health where
  "healthy = \<lparr>dh_Deadline = None, dh_Ping = (\<lambda>_. (True, 1)), dh_CtxErr = (\<lambda>_. None), dh_Select = None\<rparr>"

lemma healthy_check [simp]: "health_check healthy = None"
  by (simp add: health_check_def healthy_def StatusCheck_def ping_loop.simps Let_def ctx_Err_def)

subsection \<open>Properties\<close>

text \<open>
  C25: \<open>Seed\<close> is all or nothing: it never leaves a transaction open, the database afterwards
  holds either what it held before or that with the whole seed document applied, a \<open>nil\<close>
  result means that the document was applied, and when a statement of the document or the
  health check failed the database is unchanged and the result is an error, even where the
  deferred rollback replaced it.
\<close>

theorem Seed_atomic:
  assumes laws: "tx_laws db durable open_tx apply_doc" and idle: "open_tx w = None"
  shows "let w' = exec (inv_Seed doc db health) w; r = result (inv_Seed doc db health) w;
      started = exec (sq_Begin db) w
    in open_tx w' = None \<and>
      durable w' \<in> {durable w, apply_doc doc (durable w)} \<and>
      (r = None \<longrightarrow> durable w' = apply_doc doc (durable w)) \<and>
      (health_check health \<noteq> None \<or> result (sq_Begin db) w \<noteq> None \<or>
        result (sq_Exec db doc) started \<noteq> None \<longrightarrow> r \<noteq> None \<and> durable w' = durable w)"
  using laws idle by (rule tx_laws.seed_all)

text \<open>
  On the broken database the seed fails and changes nothing; on the working one it appends
  the document.
\<close>

theorem Seed_atomic_witness:
  "ld_rows (exec (inv_Seed ''s'' list_sql healthy) \<lparr>ld_rows = [''a''], ld_tx = None, ld_broken = True\<rparr>) = [''a''] \<and>
   ld_rows (exec (inv_Seed ''s'' list_sql healthy) \<lparr>ld_rows = [''a''], ld_tx = None, ld_broken = False\<rparr>) = [''a'', ''s'']"
proof -
  let ?w = "\<lparr>ld_rows = [''a''], ld_tx = None, ld_broken = True\<rparr>"
  let ?w' = "\<lparr>ld_rows = [''a''], ld_tx = None, ld_broken = False\<rparr>"
  have fails: "result (sq_Exec list_sql ''s'') (exec (sq_Begin list_sql) ?w) \<noteq> None"
    by (simp add: list_sql_def)
  have ok: "result (inv_Seed ''s'' list_sql healthy) ?w' = None"
    by (simp add: list_sql_def inv_Seed_def deferred_rollback_def)
  show ?thesis
    using fails ok
      Seed_atomic [OF list_db.tx_laws_axioms, of ?w "''s''" healthy]
      Seed_atomic [OF list_db.tx_laws_axioms, of ?w' "''s''" healthy]
    by (simp add: Let_def del: not_None_eq)
qed

end
