(* ===== verification/Net_URL.thy ===== *)
theory Net_URL
  imports DBArray_Encode Prelude "HOL-Library.Char_ord" "HOL-Library.List_Lexorder"
begin

section \<open>Connection strings\<close>

text \<open>
  The texts the services connect with: the PostgreSQL data source name that
  \<open>sqldb.Open\<close> builds, the Redis URL of \<open>BuildRedisURL\<close> and the server list for
  NATS. What these functions use of \<open>net/url\<close> is modelled with them: percent encoding
  and decoding in the modes of its \<open>escape\<close> and \<open>unescape\<close>, \<open>Values\<close> and
  \<open>URL.String\<close>.
\<close>

subsection \<open>Percent encoding\<close>

datatype url_mode = EncodeQueryComponent | EncodeUserPassword | EncodePath | EncodeHost

definition url_unreserved :: "char \<Rightarrow> bool" where
  "url_unreserved c \<longleftrightarrow>
     (let n = of_char c :: nat in (97 \<le> n \<and> n \<le> 122) \<or> (65 \<le> n \<and> n \<le> 90) \<or> (48 \<le> n \<and> n \<le> 57)) \<or>
     c \<in> {CHR ''-'', CHR ''_'', CHR ''.'', CHR ''~''}"

definition url_reserved :: "char set" where
  "url_reserved = {CHR ''$'', CHR ''&'', CHR ''+'', CHR '','', CHR ''/'', CHR '':'', CHR '';'', CHR ''='',
     CHR ''?'', CHR ''@''}"

definition shouldEscape :: "url_mode \<Rightarrow> char \<Rightarrow> bool" where
  "shouldEscape mode c =
     (if url_unreserved c then False
      else if mode = EncodeHost \<and> c \<in> {CHR ''!'', CHR ''$'', CHR ''&'', CHR 0x27, CHR ''('', CHR '')'',
          CHR ''*'', CHR ''+'', CHR '','', CHR '';'', CHR ''='', CHR '':'', CHR ''['', CHR '']'', CHR ''<'',
          CHR ''>'', CHR 0x22} then False
      else if c \<in> url_reserved then
        (case mode of
           EncodePath \<Rightarrow> c = CHR ''?''
         | EncodeUserPassword \<Rightarrow> c \<in> {CHR ''@'', CHR ''/'', CHR ''?'', CHR '':''}
         | _ \<Rightarrow> True)
      else True)"

definition upper_hex :: "nat \<Rightarrow> char" where
  "upper_hex n = ''0123456789ABCDEF'' ! n"

definition escape_char :: "url_mode \<Rightarrow> char \<Rightarrow> string" where
  "escape_char mode c =
     (if mode = EncodeQueryComponent \<and> c = CHR '' '' then ''+''
      else if shouldEscape mode c
      then [CHR ''%'', upper_hex (of_char c div 16), upper_hex (of_char c mod 16)]
      else [c])"

definition url_escape :: "url_mode \<Rightarrow> string \<Rightarrow> string" where
  "url_escape mode s = concat (map (escape_char mode) s)"

abbreviation QueryEscape :: "string \<Rightarrow> string" where
  "QueryEscape \<equiv> url_escape EncodeQueryComponent"

fun url_unescape :: "url_mode \<Rightarrow> string \<Rightarrow> string option" where
  "url_unescape mode [] = Some []"
| "url_unescape mode (c # s) =
     (if c = CHR ''%'' then
        (case s of
           a # b # t \<Rightarrow>
             (case (from_hex a, from_hex b) of
                (Some x, Some y) \<Rightarrow> map_option ((#) (char_of (16 * x + y))) (url_unescape mode t)
              | _ \<Rightarrow> None)
         | _ \<Rightarrow> None)
      else if mode = EncodeQueryComponent \<and> c = CHR ''+''
      then map_option ((#) (CHR '' '')) (url_unescape mode s)
      else map_option ((#) c) (url_unescape mode s))"

lemma from_upper_hex: "n < 16 \<Longrightarrow> from_hex (upper_hex n) = Some n"
proof -
  assume "n < 16"
  then have "n \<in> set [0..<16]" by simp
  moreover have "\<forall>n \<in> set [0..<16]. from_hex (upper_hex n) = Some n"
    by code_simp
  ultimately show ?thesis by blast
qed

lemma hex_pair: "char_of (16 * (of_char c div 16) + of_char c mod 16 :: nat) = (c :: char)"
  by simp

lemma unescape_percent:
  "url_unescape mode (CHR ''%'' # upper_hex (of_char c div 16) # upper_hex (of_char c mod 16) # t) =
    map_option ((#) c) (url_unescape mode t)"
proof -
  have "(of_char c :: nat) div 16 < 16"
    using of_char_less_256 [of c] by linarith
  then have "from_hex (upper_hex (of_char c div 16)) = Some (of_char c div 16)"
    by (rule from_upper_hex)
  moreover have "from_hex (upper_hex (of_char c mod 16)) = Some (of_char c mod 16)"
    by (rule from_upper_hex) simp
  ultimately show ?thesis
    by (simp add: hex_pair)
qed

lemma unescape_plain:
  "c \<noteq> CHR ''%'' \<Longrightarrow> \<not> (mode = EncodeQueryComponent \<and> c = CHR ''+'') \<Longrightarrow>
    url_unescape mode (c # t) = map_option ((#) c) (url_unescape mode t)"
  by auto

lemma percent_escaped: "shouldEscape mode (CHR ''%'')"
  by (simp add: shouldEscape_def url_unreserved_def url_reserved_def)

lemma plus_escaped: "shouldEscape EncodeQueryComponent (CHR ''+'')"
  by (simp add: shouldEscape_def url_unreserved_def url_reserved_def)

lemma unescape_escape_char:
  "url_unescape mode (escape_char mode c @ t) = map_option ((#) c) (url_unescape mode t)"
proof (cases "mode = EncodeQueryComponent \<and> c = CHR '' '' \<or> shouldEscape mode c")
  case True
  then show ?thesis
    using unescape_percent by (auto simp: escape_char_def)
next
  case False
  then have "c \<noteq> CHR ''%''" "\<not> (mode = EncodeQueryComponent \<and> c = CHR ''+'')"
    using percent_escaped plus_escaped by metis+
  moreover have "escape_char mode c = [c]"
    using False by (simp add: escape_char_def)
  ultimately show ?thesis
    using unescape_plain by simp
qed

text \<open>What is escaped in a mode is recovered by unescaping in the same mode.\<close>

lemma unescape_escape: "url_unescape mode (url_escape mode s) = Some s"
  by (induction s) (simp_all add: url_escape_def unescape_escape_char)

text \<open>
  Text escaped for a query and read back as a user name or password: a space was written
  as a plus sign, which only queries read as a space.
\<close>

definition space_to_plus :: "char \<Rightarrow> char" where
  "space_to_plus c = (if c = CHR '' '' then CHR ''+'' else c)"

lemma unescape_query_char:
  "url_unescape EncodeUserPassword (escape_char EncodeQueryComponent c @ t) =
    map_option ((#) (space_to_plus c)) (url_unescape EncodeUserPassword t)"
proof (cases "c = CHR '' '' \<or> \<not> shouldEscape EncodeQueryComponent c")
  case True
  then have "escape_char EncodeQueryComponent c = [space_to_plus c]" "space_to_plus c \<noteq> CHR ''%''"
    using percent_escaped by (auto simp: escape_char_def space_to_plus_def)
  then show ?thesis
    by simp
next
  case False
  then show ?thesis
    using unescape_percent by (auto simp: escape_char_def space_to_plus_def)
qed

lemma unescape_query_escape:
  "url_unescape EncodeUserPassword (QueryEscape s) = Some (map space_to_plus s)"
  by (induction s) (simp_all add: url_escape_def unescape_query_char)

lemma space_to_plus_id: "map space_to_plus s = s \<longleftrightarrow> CHR '' '' \<notin> set s"
  by (induction s) (auto simp: space_to_plus_def)

text \<open>Escaped query text holds only unreserved characters, percent signs and plus signs.\<close>

lemma upper_hex_unreserved: "n < 16 \<Longrightarrow> url_unreserved (upper_hex n)"
proof -
  assume "n < 16"
  then have "n \<in> set [0..<16]" by simp
  moreover have "\<forall>n \<in> set [0..<16]. url_unreserved (upper_hex n)"
    by code_simp
  ultimately show ?thesis by blast
qed

lemma query_escape_chars:
  assumes "c \<in> set (QueryEscape s)"
  shows "url_unreserved c \<or> c = CHR ''%'' \<or> c = CHR ''+''"
proof -
  have hex: "url_unreserved (upper_hex (of_char d div 16))" "url_unreserved (upper_hex (of_char d mod 16))" for d :: char
    using of_char_less_256 [of d] by (intro upper_hex_unreserved; linarith)+
  have "c \<in> set (escape_char EncodeQueryComponent d) \<Longrightarrow> url_unreserved c \<or> c = CHR ''%'' \<or> c = CHR ''+''" for d
    using hex [of d] by (auto simp: escape_char_def shouldEscape_def split: if_splits)
  then show ?thesis
    using assms by (auto simp: url_escape_def)
qed

lemma query_escape_no_delimiter:
  "set (QueryEscape s) \<inter> {CHR '':'', CHR ''@'', CHR ''/'', CHR ''?'', CHR ''#''} = {}"
proof -
  have "\<not> url_unreserved d \<and> d \<noteq> CHR ''%'' \<and> d \<noteq> CHR ''+''"
    if "d \<in> {CHR '':'', CHR ''@'', CHR ''/'', CHR ''?'', CHR ''#''}" for d
    using that by (auto simp: url_unreserved_def)
  then show ?thesis
    using query_escape_chars [of _ s] by blast
qed

subsection \<open>BuildRedisURL\<close>

definition BuildRedisURL :: "string \<Rightarrow> int64 \<Rightarrow> string \<Rightarrow> int64 \<Rightarrow> string" where
  "BuildRedisURL host port password db =
     (let auth = (if password \<noteq> [] then '':'' @ QueryEscape password @ ''@'' else [])
      in ''redis://'' @ auth @ host @ '':'' @ FormatInt (sint port) @ ''/'' @ FormatInt (sint db))"

text \<open>
  What a reader of URLs makes of it (\<open>url.Parse\<close>, which go-redis uses): the authority
  ends at the first slash, question mark or number sign, the user information at its last
  at sign, the user name at the first colon.
\<close>

definition url_authority :: "string \<Rightarrow> string" where
  "url_authority url = takeWhile (\<lambda>c. c \<notin> {CHR ''/'', CHR ''?'', CHR ''#''}) (drop (length ''redis://'') url)"

definition url_hostport :: "string \<Rightarrow> string" where
  "url_hostport url = rev (takeWhile (\<lambda>c. c \<noteq> CHR ''@'') (rev (url_authority url)))"

definition url_password :: "string \<Rightarrow> string option" where
  "url_password url =
     (let userinfo = rev (drop 1 (dropWhile (\<lambda>c. c \<noteq> CHR ''@'') (rev (url_authority url))))
      in url_unescape EncodeUserPassword (drop 1 (dropWhile (\<lambda>c. c \<noteq> CHR '':'') userinfo)))"

lemma FormatInt_no_delimiter:
  "set (FormatInt i) \<inter> {CHR '':'', CHR ''@'', CHR ''/'', CHR ''?'', CHR ''#''} = {}"
proof -
  have "\<not> is_num_char d" if "d \<in> {CHR '':'', CHR ''@'', CHR ''/'', CHR ''?'', CHR ''#''}" for d
    using that by (auto simp: is_num_char_def is_digit_def)
  then show ?thesis
    using FormatInt_chars [of _ i] by blast
qed

lemma takeWhile_stop: "\<forall>c \<in> set xs. P c \<Longrightarrow> \<not> P y \<Longrightarrow> takeWhile P (xs @ y # ys) = xs"
  and dropWhile_stop: "\<forall>c \<in> set xs. P c \<Longrightarrow> \<not> P y \<Longrightarrow> dropWhile P (xs @ y # ys) = y # ys"
  by (simp_all add: takeWhile_append2 dropWhile_append2)

lemma redis_authority:
  assumes "set host \<inter> {CHR ''@'', CHR ''/'', CHR ''?'', CHR ''#''} = {}" and "password \<noteq> []"
  shows "url_authority (BuildRedisURL host port password db) =
    '':'' @ QueryEscape password @ ''@'' @ host @ '':'' @ FormatInt (sint port)"
proof -
  let ?a = "'':'' @ QueryEscape password @ ''@'' @ host @ '':'' @ FormatInt (sint port)"
  have "drop (length ''redis://'') (BuildRedisURL host port password db) = ?a @ CHR ''/'' # FormatInt (sint db)"
    using assms(2) by (simp add: BuildRedisURL_def)
  moreover have "\<forall>c \<in> set ?a. c \<notin> {CHR ''/'', CHR ''?'', CHR ''#''}"
    using assms(1) query_escape_no_delimiter [of password] FormatInt_no_delimiter [of "sint port"] by auto
  ultimately show ?thesis
    unfolding url_authority_def by (simp only: takeWhile_stop) simp
qed

lemma redis_split:
  assumes "set host \<inter> {CHR ''@'', CHR ''/'', CHR ''?'', CHR ''#''} = {}" and "password \<noteq> []"
  shows "url_hostport (BuildRedisURL host port password db) = host @ '':'' @ FormatInt (sint port)"
    and "url_password (BuildRedisURL host port password db) = Some (map space_to_plus password)"
proof -
  let ?h = "host @ '':'' @ FormatInt (sint port)"
  have no_at: "\<forall>c \<in> set (rev ?h). c \<noteq> CHR ''@''"
    using assms(1) FormatInt_no_delimiter [of "sint port"] by auto
  have r: "rev (url_authority (BuildRedisURL host port password db)) =
      rev ?h @ CHR ''@'' # rev ('':'' @ QueryEscape password)"
    unfolding redis_authority [OF assms] by simp
  have tw: "takeWhile (\<lambda>c. c \<noteq> CHR ''@'') (rev ?h @ CHR ''@'' # xs) = rev ?h" for xs
    using no_at by (rule takeWhile_stop) simp
  have dw: "dropWhile (\<lambda>c. c \<noteq> CHR ''@'') (rev ?h @ CHR ''@'' # xs) = CHR ''@'' # xs" for xs
    using no_at by (rule dropWhile_stop) simp
  show "url_hostport (BuildRedisURL host port password db) = ?h"
    by (simp only: url_hostport_def r tw rev_rev_ident)
  show "url_password (BuildRedisURL host port password db) = Some (map space_to_plus password)"
    unfolding url_password_def r dw Let_def by (simp add: unescape_query_escape)
qed

subsection \<open>url.Values and sqldb.Open\<close>

type_synonym url_values = "(string \<times> string) list"

definition values_Set :: "string \<Rightarrow> string \<Rightarrow> url_values \<Rightarrow> url_values" where
  "values_Set k v q = filter (\<lambda>kv. fst kv \<noteq> k) q @ [(k, v)]"

definition values_Encode :: "url_values \<Rightarrow> string" where
  "values_Encode q = join_with ''&'' (map (\<lambda>(k, v). QueryEscape k @ ''='' @ QueryEscape v) (sort_key fst q))"

record net_url =
  url_Scheme :: string
  url_User :: string
  url_Password :: string
  url_Host :: string
  url_Path :: string
  url_RawQuery :: string

definition url_String :: "net_url \<Rightarrow> string" where
  "url_String u =
     (let path = (if url_Path u = ''*'' then ''*'' else url_escape EncodePath (url_Path u))
      in url_Scheme u @ ''://'' @
         url_escape EncodeUserPassword (url_User u) @ '':'' @ url_escape EncodeUserPassword (url_Password u) @ ''@'' @
         url_escape EncodeHost (url_Host u) @
         (if path \<noteq> [] \<and> hd path \<noteq> CHR ''/'' \<and> url_Host u \<noteq> [] then ''/'' else []) @ path @
         (if url_RawQuery u \<noteq> [] then ''?'' @ url_RawQuery u else []))"

record db_config =
  db_User :: string
  db_Password :: string
  db_Host :: string
  db_Name :: string
  db_Schema :: string
  db_MaxIdleConns :: int64
  db_MaxOpenConns :: int64
  db_DisableTLS :: bool

definition open_query :: "db_config \<Rightarrow> url_values" where
  "open_query cfg =
     (let q = values_Set ''timezone'' ''utc''
                (values_Set ''sslmode'' (if db_DisableTLS cfg then ''disable'' else ''require'') [])
      in if db_Schema cfg \<noteq> [] then values_Set ''search_path'' (db_Schema cfg) q else q)"

definition open_url :: "db_config \<Rightarrow> net_url" where
  "open_url cfg = \<lparr>url_Scheme = ''postgres'', url_User = db_User cfg, url_Password = db_Password cfg,
     url_Host = db_Host cfg, url_Path = db_Name cfg, url_RawQuery = values_Encode (open_query cfg)\<rparr>"

lemma open_query_sorted:
  "sort_key fst (open_query cfg) =
    (if db_Schema cfg \<noteq> [] then [(''search_path'', db_Schema cfg)] else []) @
    [(''sslmode'', if db_DisableTLS cfg then ''disable'' else ''require''), (''timezone'', ''utc'')]"
proof -
  have "''search_path'' < ''sslmode''" "''sslmode'' < ''timezone''"
    by (simp_all add: Cons_less_Cons less_char_def)
  then show ?thesis
    by (simp add: open_query_def values_Set_def)
qed

subsection \<open>Properties\<close>

text \<open>
  the connection string of \<open>BuildRedisURL\<close> reads back, for a host without URL
  delimiters: host and port are recovered whatever the password contains, and the password
  is recovered exactly when it has no space. A space was written as a plus sign
  (\<open>url.QueryEscape\<close>), which is a plus sign in user information.
\<close>

theorem redis_url_round_trip:
  assumes "set host \<inter> {CHR ''@'', CHR ''/'', CHR ''?'', CHR ''#''} = {}" and "password \<noteq> []"
  shows "url_hostport (BuildRedisURL host port password db) = host @ '':'' @ FormatInt (sint port) \<and>
    url_password (BuildRedisURL host port password db) = Some (map space_to_plus password) \<and>
    (url_password (BuildRedisURL host port password db) = Some password \<longleftrightarrow> CHR '' '' \<notin> set password)"
  using redis_split [OF assms] by (simp add: space_to_plus_id)

theorem redis_url_round_trip_witness:
  "url_password (BuildRedisURL ''redis'' 6379 ''p@ss:w/rd'' 0) = Some ''p@ss:w/rd'' \<and>
    url_password (BuildRedisURL ''redis'' 6379 ''pass word'' 0) = Some ''pass+word''"
  using redis_url_round_trip [of "''redis''" "''p@ss:w/rd''" 6379 0]
    redis_url_round_trip [of "''redis''" "''pass word''" 6379 0]
  by (simp add: space_to_plus_def)

end
