(* ===== verification/Logger.thy ===== *)
theory Logger
  imports Strconv
begin

section \<open>The logger: pkg/logger\<close>

text \<open>
  \<open>pkg/logger\<close>: the \<open>Logger\<close> with its levels, the event functions of
  \<open>logHandler\<close>, the conversion of a log record and the \<open>BuildInfo\<close> line. The parts
  of \<open>log/slog\<close> the package builds on are modelled with it: the JSON handler as a value
  with its options, attributes and groups, writing one line per record, and the pairing of
  the variadic arguments into attributes. The rendering of a line as JSON text is left out:
  a line is the list of what it holds.
\<close>

subsection \<open>Records of log/slog\<close>

type_synonym log_level = int

definition LevelDebug :: log_level where "LevelDebug = - 4"
definition LevelInfo :: log_level where "LevelInfo = 0"
definition LevelWarn :: log_level where "LevelWarn = 4"
definition LevelError :: log_level where "LevelError = 8"

lemmas level_defs = LevelDebug_def LevelInfo_def LevelWarn_def LevelError_def

text \<open>
  A logged value: a string, a \<open>*slog.Source\<close>, an attribute passed as a value, or
  anything else by its text.
\<close>

datatype log_val = LVString string | LVSource string int | LVAttr slog_attr | LVOther string
  and slog_attr = Attr (attr_Key: string) (attr_Value: log_val)

datatype log_arg = ArgString string | ArgAttr slog_attr | ArgOther string

record slog_record =
  lr_Time :: gotime
  lr_Level :: log_level
  lr_Message :: string
  lr_PC :: nat
  lr_Attrs :: "slog_attr list"

primrec arg_value :: "log_arg \<Rightarrow> log_val" where
  "arg_value (ArgString s) = LVString s"
| "arg_value (ArgAttr a) = LVAttr a"
| "arg_value (ArgOther t) = LVOther t"

definition badKey :: string where
  "badKey = ''!BADKEY''"

text \<open>
  \<open>Record.Add\<close>: a string is a key and takes the next argument as its value, whatever that
  is; a last string without a value and an argument that is no key get the key
  \<open>!BADKEY\<close>.
\<close>

fun record_Add :: "log_arg list \<Rightarrow> slog_attr list" where
  "record_Add [] = []"
| "record_Add [ArgString k] = [Attr badKey (LVString k)]"
| "record_Add (ArgString k # a # as) = Attr k (arg_value a) # record_Add as"
| "record_Add (ArgAttr a # as) = a # record_Add as"
| "record_Add (ArgOther t # as) = Attr badKey (LVOther t) # record_Add as"

subsection \<open>model.go\<close>

record log_record =
  rc_Time :: gotime
  rc_Message :: string
  rc_Level :: log_level
  rc_Attributes :: "string \<Rightarrow> log_val option"

definition toRecord :: "slog_record \<Rightarrow> log_record" where
  "toRecord r = \<lparr>rc_Time = lr_Time r, rc_Message = lr_Message r, rc_Level = lr_Level r,
     rc_Attributes = fold (\<lambda>a atts. atts(attr_Key a \<mapsto> attr_Value a)) (lr_Attrs r) Map.empty\<rparr>"

type_synonym ('ctx, 'w) EventFn = "'ctx \<Rightarrow> log_record \<Rightarrow> ('w, unit) state"

record ('ctx, 'w) log_events =
  le_Debug :: "('ctx, 'w) EventFn option"
  le_Info :: "('ctx, 'w) EventFn option"
  le_Warn :: "('ctx, 'w) EventFn option"
  le_Error :: "('ctx, 'w) EventFn option"

definition no_events :: "('ctx, 'w) log_events" where
  "no_events = \<lparr>le_Debug = None, le_Info = None, le_Warn = None, le_Error = None\<rparr>"

subsection \<open>Handlers\<close>

record log_line =
  ln_Time :: gotime
  ln_Level :: log_level
  ln_Source :: slog_attr
  ln_Message :: string
  ln_Attrs :: "(string list \<times> slog_attr) list"

text \<open>The world as far as the logger sees it: the lines written and a clock of readings.\<close>

record log_world =
  lw_lines :: "log_line list"
  lw_reads :: nat

record json_handler =
  jh_Level :: log_level
  jh_ReplaceAttr :: "slog_attr \<Rightarrow> slog_attr"
  jh_Attrs :: "(string list \<times> slog_attr) list"
  jh_Groups :: "string list"

datatype ('ctx, 'w) slog_handler =
    JSONHandler json_handler
  | LogHandler "('ctx, 'w) slog_handler" "('ctx, 'w) log_events"

text \<open>
  The JSON handler of the library; \<open>frames pc\<close> is the source position of a program
  counter.
\<close>

definition json_Handle ::
  "(nat \<Rightarrow> string \<times> int) \<Rightarrow> json_handler \<Rightarrow> slog_record \<Rightarrow> ('x log_world_scheme, goerr option) state" where
  "json_Handle frames h r = State (\<lambda>w. (None, w\<lparr>lw_lines := lw_lines w @
     [\<lparr>ln_Time = lr_Time r, ln_Level = lr_Level r,
       ln_Source = jh_ReplaceAttr h (case frames (lr_PC r) of (file, l) \<Rightarrow> Attr ''source'' (LVSource file l)),
       ln_Message = lr_Message r,
       ln_Attrs = jh_Attrs h @ map (\<lambda>a. (jh_Groups h, jh_ReplaceAttr h a)) (lr_Attrs r)\<rparr>]\<rparr>))"

definition json_WithAttrs :: "slog_attr list \<Rightarrow> json_handler \<Rightarrow> json_handler" where
  "json_WithAttrs attrs h =
     h\<lparr>jh_Attrs := jh_Attrs h @ map (\<lambda>a. (jh_Groups h, jh_ReplaceAttr h a)) attrs\<rparr>"

definition json_WithGroup :: "string \<Rightarrow> json_handler \<Rightarrow> json_handler" where
  "json_WithGroup name h = (if name = [] then h else h\<lparr>jh_Groups := jh_Groups h @ [name]\<rparr>)"

text \<open>The methods of \<open>logHandler\<close> forward to the wrapped handler.\<close>

primrec h_Enabled :: "log_level \<Rightarrow> ('ctx, 'w) slog_handler \<Rightarrow> bool" where
  "h_Enabled l (JSONHandler h) \<longleftrightarrow> jh_Level h \<le> l"
| "h_Enabled l (LogHandler h events) \<longleftrightarrow> h_Enabled l h"

primrec h_WithAttrs :: "slog_attr list \<Rightarrow> ('ctx, 'w) slog_handler \<Rightarrow> ('ctx, 'w) slog_handler" where
  "h_WithAttrs attrs (JSONHandler h) = JSONHandler (json_WithAttrs attrs h)"
| "h_WithAttrs attrs (LogHandler h events) = LogHandler (h_WithAttrs attrs h) events"

primrec h_WithGroup :: "string \<Rightarrow> ('ctx, 'w) slog_handler \<Rightarrow> ('ctx, 'w) slog_handler" where
  "h_WithGroup name (JSONHandler h) = JSONHandler (json_WithGroup name h)"
| "h_WithGroup name (LogHandler h events) = LogHandler (h_WithGroup name h) events"

definition event_for :: "log_level \<Rightarrow> ('ctx, 'w) log_events \<Rightarrow> ('ctx, 'w) EventFn option" where
  "event_for level events =
     (if level = LevelDebug then le_Debug events
      else if level = LevelError then le_Error events
      else if level = LevelWarn then le_Warn events
      else if level = LevelInfo then le_Info events
      else None)"

primrec h_Handle ::
  "(nat \<Rightarrow> string \<times> int) \<Rightarrow> 'ctx \<Rightarrow> slog_record \<Rightarrow> ('ctx, 'x log_world_scheme) slog_handler \<Rightarrow>
   ('x log_world_scheme, goerr option) state" where
  "h_Handle frames ctx r (JSONHandler h) = json_Handle frames h r"
| "h_Handle frames ctx r (LogHandler h events) =
     do {
       _ \<leftarrow> (case event_for (lr_Level r) events of
              None \<Rightarrow> State_Monad.return ()
            | Some f \<Rightarrow> f ctx (toRecord r));
       h_Handle frames ctx r h
     }"

subsection \<open>Logger\<close>

record ('ctx, 'w) Logger =
  lo_discard :: bool
  lo_handler :: "('ctx, 'w) slog_handler"
  lo_traceIDFn :: "('ctx \<Rightarrow> string) option"

text \<open>\<open>filepath.Base\<close>: trailing slashes go, then everything up to the last slash.\<close>

definition filepath_Base :: "string \<Rightarrow> string" where
  "filepath_Base path =
     (if path = [] then ''.''
      else
        let p = rev (dropWhile (\<lambda>c. c = CHR ''/'') (rev path))
        in if p = [] then ''/'' else rev (takeWhile (\<lambda>c. c \<noteq> CHR ''/'') (rev p)))"

definition replace_source :: "slog_attr \<Rightarrow> slog_attr" where
  "replace_source a =
     (if attr_Key a = ''source'' then
        (case attr_Value a of
           LVSource file l \<Rightarrow> Attr ''file'' (LVString (filepath_Base file @ '':'' @ FormatInt l))
         | _ \<Rightarrow> a)
      else a)"

definition has_events :: "('ctx, 'w) log_events \<Rightarrow> bool" where
  "has_events events \<longleftrightarrow> le_Debug events \<noteq> None \<or> le_Info events \<noteq> None \<or> le_Warn events \<noteq> None \<or>
     le_Error events \<noteq> None"

definition new_logger ::
  "bool \<Rightarrow> log_level \<Rightarrow> string \<Rightarrow> ('ctx \<Rightarrow> string) option \<Rightarrow> ('ctx, 'w) log_events \<Rightarrow> ('ctx, 'w) Logger" where
  "new_logger discards minLevel serviceName traceIDFn events =
     (let json = JSONHandler \<lparr>jh_Level = minLevel, jh_ReplaceAttr = replace_source, jh_Attrs = [], jh_Groups = []\<rparr>;
          handler = (if has_events events then LogHandler json events else json)
      in \<lparr>lo_discard = discards, lo_handler = h_WithAttrs [Attr ''service'' (LVString serviceName)] handler,
          lo_traceIDFn = traceIDFn\<rparr>)"

definition logger_New ::
  "bool \<Rightarrow> log_level \<Rightarrow> string \<Rightarrow> ('ctx \<Rightarrow> string) option \<Rightarrow> ('ctx, 'w) Logger" where
  "logger_New discards minLevel serviceName traceIDFn = new_logger discards minLevel serviceName traceIDFn no_events"

definition logger_NewWithEvents ::
  "bool \<Rightarrow> log_level \<Rightarrow> string \<Rightarrow> ('ctx \<Rightarrow> string) option \<Rightarrow> ('ctx, 'w) log_events \<Rightarrow> ('ctx, 'w) Logger" where
  "logger_NewWithEvents = new_logger"

definition logger_NewWithHandler :: "('ctx, 'w) slog_handler \<Rightarrow> ('ctx, 'w) Logger" where
  "logger_NewWithHandler h = \<lparr>lo_discard = False, lo_handler = h, lo_traceIDFn = None\<rparr>"

text \<open>What the runtime gives: the time of each reading, and the frame at a skip count.\<close>

record runtime =
  rt_Now :: "nat \<Rightarrow> gotime"
  rt_Frame :: "nat \<Rightarrow> string \<times> int"

definition log_time :: "runtime \<Rightarrow> ('x log_world_scheme, gotime) state" where
  "log_time rt = State (\<lambda>w. (rt_Now rt (lw_reads w), w\<lparr>lw_reads := Suc (lw_reads w)\<rparr>))"

definition log_write ::
  "runtime \<Rightarrow> ('ctx, 'x log_world_scheme) Logger \<Rightarrow> 'ctx \<Rightarrow> log_level \<Rightarrow> nat \<Rightarrow> string \<Rightarrow> log_arg list \<Rightarrow>
   ('x log_world_scheme, unit) state" where
  "log_write rt log ctx level caller msg args =
     (if \<not> h_Enabled level (lo_handler log) then State_Monad.return ()
      else
        do {
          t \<leftarrow> log_time rt;
          let args' = (case lo_traceIDFn log of
                None \<Rightarrow> args
              | Some f \<Rightarrow> args @ [ArgString ''trace_id'', ArgString (f ctx)]);
          _ \<leftarrow> h_Handle (rt_Frame rt) ctx
                \<lparr>lr_Time = t, lr_Level = level, lr_Message = msg, lr_PC = caller, lr_Attrs = record_Add args'\<rparr>
                (lo_handler log);
          State_Monad.return ()
        })"

definition log_at ::
  "log_level \<Rightarrow> runtime \<Rightarrow> ('ctx, 'x log_world_scheme) Logger \<Rightarrow> 'ctx \<Rightarrow> nat \<Rightarrow> string \<Rightarrow> log_arg list \<Rightarrow>
   ('x log_world_scheme, unit) state" where
  "log_at level rt log ctx caller msg args =
     (if lo_discard log then State_Monad.return () else log_write rt log ctx level caller msg args)"

text \<open>
  \<open>NewStdLogger\<close>: a standard logger without prefix and flags over the handler. What a
  print call of it does: \<open>log\<close> ends the text with a newline, the writer of \<open>slog\<close> drops
  one newline, and the text is the message of a record without attributes. The logger's
  \<open>discard\<close> flag and its trace id function play no part. \<open>background\<close> is
  \<open>context.Background()\<close>.
\<close>

definition std_message :: "string \<Rightarrow> string" where
  "std_message t = (if t \<noteq> [] \<and> last t = CHR 0x0A then butlast t else t)"

definition NewStdLogger ::
  "runtime \<Rightarrow> 'ctx \<Rightarrow> nat \<Rightarrow> ('ctx, 'x log_world_scheme) Logger \<Rightarrow> log_level \<Rightarrow> string \<Rightarrow>
   ('x log_world_scheme, unit) state" where
  "NewStdLogger rt background caller logger level text =
     (if \<not> h_Enabled level (lo_handler logger) then State_Monad.return ()
      else
        do {
          t \<leftarrow> log_time rt;
          _ \<leftarrow> h_Handle (rt_Frame rt) background
                \<lparr>lr_Time = t, lr_Level = level, lr_Message = std_message text, lr_PC = caller, lr_Attrs = []\<rparr>
                (lo_handler logger);
          State_Monad.return ()
        })"

text \<open>A print call of the standard logger is a call of the logger without arguments and trace id.\<close>

lemma std_logger_writes:
  assumes "lo_traceIDFn log = None"
  shows "NewStdLogger rt ctx caller log level (t @ [CHR 0x0A]) = log_write rt log ctx level caller t []"
  using assms by (simp add: NewStdLogger_def log_write_def std_message_def Let_def)

definition log_Debug ::
  "runtime \<Rightarrow> ('ctx, 'x log_world_scheme) Logger \<Rightarrow> 'ctx \<Rightarrow> string \<Rightarrow> log_arg list \<Rightarrow> ('x log_world_scheme, unit) state" where
  "log_Debug rt log ctx msg args = log_at LevelDebug rt log ctx 3 msg args"

definition log_Debugc ::
  "runtime \<Rightarrow> ('ctx, 'x log_world_scheme) Logger \<Rightarrow> 'ctx \<Rightarrow> nat \<Rightarrow> string \<Rightarrow> log_arg list \<Rightarrow>
   ('x log_world_scheme, unit) state" where
  "log_Debugc rt log ctx caller msg args = log_at LevelDebug rt log ctx caller msg args"

definition log_Info ::
  "runtime \<Rightarrow> ('ctx, 'x log_world_scheme) Logger \<Rightarrow> 'ctx \<Rightarrow> string \<Rightarrow> log_arg list \<Rightarrow> ('x log_world_scheme, unit) state" where
  "log_Info rt log ctx msg args = log_at LevelInfo rt log ctx 3 msg args"

definition log_Infoc ::
  "runtime \<Rightarrow> ('ctx, 'x log_world_scheme) Logger \<Rightarrow> 'ctx \<Rightarrow> nat \<Rightarrow> string \<Rightarrow> log_arg list \<Rightarrow>
   ('x log_world_scheme, unit) state" where
  "log_Infoc rt log ctx caller msg args = log_at LevelInfo rt log ctx caller msg args"

definition log_Warn ::
  "runtime \<Rightarrow> ('ctx, 'x log_world_scheme) Logger \<Rightarrow> 'ctx \<Rightarrow> string \<Rightarrow> log_arg list \<Rightarrow> ('x log_world_scheme, unit) state" where
  "log_Warn rt log ctx msg args = log_at LevelWarn rt log ctx 3 msg args"

definition log_Warnc ::
  "runtime \<Rightarrow> ('ctx, 'x log_world_scheme) Logger \<Rightarrow> 'ctx \<Rightarrow> nat \<Rightarrow> string \<Rightarrow> log_arg list \<Rightarrow>
   ('x log_world_scheme, unit) state" where
  "log_Warnc rt log ctx caller msg args = log_at LevelWarn rt log ctx caller msg args"

definition log_Error ::
  "runtime \<Rightarrow> ('ctx, 'x log_world_scheme) Logger \<Rightarrow> 'ctx \<Rightarrow> string \<Rightarrow> log_arg list \<Rightarrow> ('x log_world_scheme, unit) state" where
  "log_Error rt log ctx msg args = log_at LevelError rt log ctx 3 msg args"

definition log_Errorc ::
  "runtime \<Rightarrow> ('ctx, 'x log_world_scheme) Logger \<Rightarrow> 'ctx \<Rightarrow> nat \<Rightarrow> string \<Rightarrow> log_arg list \<Rightarrow>
   ('x log_world_scheme, unit) state" where
  "log_Errorc rt log ctx caller msg args = log_at LevelError rt log ctx caller msg args"

lemmas log_calls = log_Debug_def log_Debugc_def log_Info_def log_Infoc_def log_Warn_def log_Warnc_def
  log_Error_def log_Errorc_def

subsection \<open>debug.go\<close>

definition contains_any :: "string \<Rightarrow> char set \<Rightarrow> bool" where
  "contains_any s cs \<longleftrightarrow> (\<exists>c \<in> set s. c \<in> cs)"

definition quoteKey :: "string \<Rightarrow> bool" where
  "quoteKey key \<longleftrightarrow> key = [] \<or>
     contains_any key {CHR ''='', CHR '' '', CHR 0x09, CHR 0x0D, CHR 0x0A, CHR 0x22, CHR 0x60}"

definition quoteValue :: "string \<Rightarrow> bool" where
  "quoteValue v \<longleftrightarrow> contains_any v {CHR '' '', CHR 0x09, CHR 0x0D, CHR 0x0A, CHR 0x22, CHR 0x60}"

record build_info =
  bi_Settings :: "(string \<times> string) list"
  bi_GoVersion :: string
  bi_ModVersion :: string

definition setting_args :: "(string \<Rightarrow> string) \<Rightarrow> string \<times> string \<Rightarrow> log_arg list" where
  "setting_args Quote kv = (case kv of (k, v) \<Rightarrow>
     [ArgString (if quoteKey k then Quote k else k), ArgString (if quoteValue v then Quote v else v)])"

definition BuildInfo ::
  "(string \<Rightarrow> string) \<Rightarrow> build_info option \<Rightarrow> runtime \<Rightarrow> ('ctx, 'x log_world_scheme) Logger \<Rightarrow> 'ctx \<Rightarrow>
   ('x log_world_scheme, unit) state" where
  "BuildInfo Quote info rt log ctx =
     (case info of
        None \<Rightarrow> log_Warn rt log ctx ''build info not available'' []
      | Some i \<Rightarrow> log_Info rt log ctx ''build info''
          (concat (map (setting_args Quote) (bi_Settings i)) @
           [ArgString ''goversion'', ArgString (bi_GoVersion i),
            ArgString ''modversion'', ArgString (bi_ModVersion i)]))"

subsection \<open>Pairing of the arguments\<close>

text \<open>The arguments end with a key that has no value.\<close>

fun dangling :: "log_arg list \<Rightarrow> bool" where
  "dangling [] \<longleftrightarrow> False"
| "dangling [ArgString k] \<longleftrightarrow> True"
| "dangling (ArgString k # a # as) \<longleftrightarrow> dangling as"
| "dangling (ArgAttr a # as) \<longleftrightarrow> dangling as"
| "dangling (ArgOther t # as) \<longleftrightarrow> dangling as"

lemma record_Add_append: "\<not> dangling as \<Longrightarrow> record_Add (as @ bs) = record_Add as @ record_Add bs"
  by (induction as rule: dangling.induct) simp_all

lemma dangling_append: "\<not> dangling as \<Longrightarrow> dangling (as @ bs) \<longleftrightarrow> dangling bs"
  by (induction as rule: dangling.induct) simp_all

lemma dangling_split: "dangling as \<Longrightarrow> \<exists>pre k. as = pre @ [ArgString k] \<and> \<not> dangling pre"
proof (induction as rule: dangling.induct)
  case (2 k)
  have "[ArgString k] = [] @ [ArgString k] \<and> \<not> dangling []" by simp
  then show ?case by blast
next
  case (3 k a as)
  then obtain pre k' where "as = pre @ [ArgString k']" "\<not> dangling pre" by auto
  then show ?case by (intro exI [of _ "ArgString k # a # pre"]) simp
next
  case (4 a as)
  then obtain pre k' where "as = pre @ [ArgString k']" "\<not> dangling pre" by auto
  then show ?case by (intro exI [of _ "ArgAttr a # pre"]) simp
next
  case (5 t as)
  then obtain pre k' where "as = pre @ [ArgString k']" "\<not> dangling pre" by auto
  then show ?case by (intro exI [of _ "ArgOther t # pre"]) simp
qed simp

lemma toRecord_last:
  "rc_Attributes (toRecord \<lparr>lr_Time = t, lr_Level = l, lr_Message = m, lr_PC = p, lr_Attrs = as @ [a]\<rparr>) (attr_Key a) =
    Some (attr_Value a)"
  by (simp add: toRecord_def)

text \<open>The build settings are written as complete pairs, whatever they are.\<close>

lemma settings_not_dangling: "\<not> dangling (concat (map (setting_args Quote) kvs))"
  by (induction kvs) (simp_all add: setting_args_def split_beta)

subsection \<open>What a call writes\<close>

text \<open>
  The attributes that end up in a line of a logger made by \<open>new_logger\<close>: the service
  name, then the paired arguments, with source values replaced.
\<close>

definition line_for ::
  "runtime \<Rightarrow> string \<Rightarrow> gotime \<Rightarrow> log_level \<Rightarrow> nat \<Rightarrow> string \<Rightarrow> log_arg list \<Rightarrow> log_line" where
  "line_for rt serviceName t level caller msg args =
     \<lparr>ln_Time = t, ln_Level = level,
      ln_Source = replace_source (case rt_Frame rt caller of (file, l) \<Rightarrow> Attr ''source'' (LVSource file l)),
      ln_Message = msg,
      ln_Attrs = map (\<lambda>a. ([], a))
        (Attr ''service'' (LVString serviceName) # map replace_source (record_Add args))\<rparr>"

definition with_trace :: "('ctx \<Rightarrow> string) option \<Rightarrow> 'ctx \<Rightarrow> log_arg list \<Rightarrow> log_arg list" where
  "with_trace traceIDFn ctx args =
     (case traceIDFn of None \<Rightarrow> args | Some f \<Rightarrow> args @ [ArgString ''trace_id'', ArgString (f ctx)])"

definition fire :: "('ctx, 'w) log_events \<Rightarrow> log_level \<Rightarrow> 'ctx \<Rightarrow> log_record \<Rightarrow> ('w, unit) state" where
  "fire events level ctx r =
     (case event_for level events of None \<Rightarrow> State_Monad.return () | Some f \<Rightarrow> f ctx r)"

lemma replace_service [simp]: "replace_source (Attr ''service'' v) = Attr ''service'' v"
  by (simp add: replace_source_def)

lemma no_event_fires: "\<not> has_events events \<Longrightarrow> fire events level ctx r = State_Monad.return ()"
  by (simp add: fire_def event_for_def has_events_def)

lemma new_logger_Enabled [simp]:
  "h_Enabled l (lo_handler (new_logger d m svc tid events)) \<longleftrightarrow> m \<le> l"
  by (simp add: new_logger_def Let_def json_WithAttrs_def)

lemma new_logger_parts:
  "lo_handler (new_logger d m svc tid events) =
    (let json = JSONHandler \<lparr>jh_Level = m, jh_ReplaceAttr = replace_source,
       jh_Attrs = [([], Attr ''service'' (LVString svc))], jh_Groups = []\<rparr>
     in if has_events events then LogHandler json events else json)"
  "lo_discard (new_logger d m svc tid events) = d"
  "lo_traceIDFn (new_logger d m svc tid events) = tid"
  by (simp_all add: new_logger_def Let_def json_WithAttrs_def)

lemma log_at_new:
  fixes w :: "'x log_world_scheme"
  shows "exec (log_at level rt (new_logger d m svc tid events) ctx caller msg args) w =
    (if d \<or> level < m then w
     else
       let t = rt_Now rt (lw_reads w); w1 = w\<lparr>lw_reads := Suc (lw_reads w)\<rparr>;
           args' = with_trace tid ctx args;
           w2 = exec (fire events level ctx (toRecord \<lparr>lr_Time = t, lr_Level = level, lr_Message = msg,
             lr_PC = caller, lr_Attrs = record_Add args'\<rparr>)) w1
       in w2\<lparr>lw_lines := lw_lines w2 @ [line_for rt svc t level caller msg args']\<rparr>)"
proof -
  have trace: "(case tid of None \<Rightarrow> args | Some f \<Rightarrow> args @ [ArgString ''trace_id'', ArgString (f ctx)]) =
      with_trace tid ctx args"
    by (simp add: with_trace_def)
  show ?thesis
    by (cases "has_events events")
      (simp_all add: log_at_def log_write_def new_logger_parts trace log_time_def Let_def split_beta
        fire_def [symmetric] no_event_fires json_Handle_def line_for_def)
qed

lemma replace_string [simp]: "replace_source (Attr k (LVString v)) = Attr k (LVString v)"
  by (simp add: replace_source_def)

lemma traced_attrs:
  assumes "\<not> dangling args"
  shows "record_Add (with_trace (Some f) ctx args) = record_Add args @ [Attr ''trace_id'' (LVString (f ctx))]"
  using record_Add_append [OF assms] by (simp add: with_trace_def)

lemma swallowed_attrs:
  assumes "\<not> dangling pre"
  shows "record_Add (with_trace (Some f) ctx (pre @ [ArgString k])) =
    record_Add pre @ [Attr k (LVString ''trace_id''), Attr badKey (LVString (f ctx))]"
  using record_Add_append [OF assms, of "[ArgString k, ArgString ''trace_id'', ArgString (f ctx)]"]
  by (simp add: with_trace_def)

subsection \<open>Properties\<close>

text \<open>
  a logger writes a call as one line exactly when its level reaches the minimum, and the
  line ends with the trace id of the context, provided the arguments pair up. Arguments that
  end with a key without a value, as the reconnect handler of the inventory service passes
  them, swallow it: the word \<open>trace_id\<close> becomes the value of that key and the trace id is
  left under \<open>!BADKEY\<close>.
\<close>

theorem logger_line:
  fixes w :: "'x log_world_scheme"
  shows "let w' = exec (log_at level rt (new_logger False m svc (Some f) no_events) ctx caller msg args) w in
    (level < m \<longrightarrow> w' = w) \<and>
    (m \<le> level \<longrightarrow> (\<exists>line. lw_lines w' = lw_lines w @ [line] \<and>
      ln_Level line = level \<and> ln_Message line = msg \<and>
      hd (ln_Attrs line) = ([], Attr ''service'' (LVString svc)) \<and>
      (\<not> dangling args \<longrightarrow> last (ln_Attrs line) = ([], Attr ''trace_id'' (LVString (f ctx)))) \<and>
      (\<forall>pre k. \<not> dangling pre \<longrightarrow> args = pre @ [ArgString k] \<longrightarrow>
        (\<exists>front. ln_Attrs line = front @
          [([], Attr k (LVString ''trace_id'')), ([], Attr badKey (LVString (f ctx)))]))))"
proof -
  have "fire no_events level ctx r = (State_Monad.return () :: ('x log_world_scheme, unit) state)" for r
    by (rule no_event_fires) (simp add: has_events_def no_events_def)
  then show ?thesis
    by (simp add: log_at_new Let_def line_for_def traced_attrs swallowed_attrs)
qed

definition demo_runtime :: runtime where
  "demo_runtime = \<lparr>rt_Now = int, rt_Frame = (\<lambda>_. (''/src/connection.go'', 36))\<rparr>"

theorem logger_line_witness:
  "\<exists>line front. lw_lines (exec (log_Info demo_runtime (new_logger False LevelInfo ''inventory'' (Some (\<lambda>_. ''t1'')) no_events) ()
      ''NATS reconnected'' [ArgString ''nats://localhost:4222'']) \<lparr>lw_lines = [], lw_reads = 0\<rparr>) = [line] \<and>
    ln_Attrs line = front @
      [([], Attr ''nats://localhost:4222'' (LVString ''trace_id'')), ([], Attr badKey (LVString ''t1''))]"
proof -
  let ?w' = "exec (log_Info demo_runtime (new_logger False LevelInfo ''inventory'' (Some (\<lambda>_. ''t1'')) no_events) ()
      ''NATS reconnected'' [ArgString ''nats://localhost:4222'']) \<lparr>lw_lines = [], lw_reads = 0\<rparr>"
  obtain line where line: "lw_lines ?w' = [] @ [line]"
    and tail: "\<forall>pre k. \<not> dangling pre \<longrightarrow> [ArgString ''nats://localhost:4222''] = pre @ [ArgString k] \<longrightarrow>
      (\<exists>front. ln_Attrs line = front @ [([], Attr k (LVString ''trace_id'')), ([], Attr badKey (LVString ''t1''))])"
    using logger_line [of LevelInfo demo_runtime LevelInfo "''inventory''" "\<lambda>_. ''t1''" "()" 3 "''NATS reconnected''"
        "[ArgString ''nats://localhost:4222'']" "\<lparr>lw_lines = [], lw_reads = 0\<rparr>"]
    unfolding Let_def log_Info_def log_world.select_convs by blast
  from line tail [rule_format, of "[]" "''nats://localhost:4222''"] show ?thesis
    by auto
qed

text \<open>An event function sees the last value of a repeated key, and no service name.\<close>

lemma event_sees_trace_id:
  assumes "\<not> dangling args"
  shows "rc_Attributes (toRecord \<lparr>lr_Time = t, lr_Level = l, lr_Message = m, lr_PC = p,
      lr_Attrs = record_Add (with_trace (Some f) ctx args)\<rparr>) ''trace_id'' = Some (LVString (f ctx))"
  using toRecord_last [of t l m p "record_Add args" "Attr ''trace_id'' (LVString (f ctx))"]
  by (simp add: traced_attrs [OF assms])

end
