(* ===== verification/Startup.thy ===== *)
theory Startup
  imports Net_URL Logger
begin

section \<open>Opening connections\<close>

text \<open>
  What the two processes open before they serve: \<open>sqldb.Open\<close>, the two \<open>newRedis\<close>
  functions, the three functions that connect to NATS (\<open>newNATS\<close> of the inventory
  executable and the two \<open>messaging.NewNATS\<close>) and the log calls of their connection
  handlers. Opening and closing is recorded in the world \<open>boot_world\<close>, which extends the
  logger's world, so that it can be said what is left open.
\<close>

datatype resource = DBPool | RedisClient | NATSConn | TraceExporter

datatype act =
    Opened resource
  | Closed resource
  | Subscribed string
  | Published string string
  | Printed string
  | StreamSet string "string list"

record boot_world = log_world +
  bw_acts :: "act list"

definition act :: "act \<Rightarrow> ('x boot_world_scheme, unit) state" where
  "act a = State (\<lambda>w. ((), w\<lparr>bw_acts := bw_acts w @ [a]\<rparr>))"

lemma run_act [simp]: "run_state (act a) w = ((), w\<lparr>bw_acts := bw_acts w @ [a]\<rparr>)"
  by (simp add: act_def)

subsection \<open>sqldb.Open\<close>

text \<open>
  \<open>sqlx_Open driver dsn\<close> is the error of \<open>sqlx.Open\<close>, which does not connect. The
  result is the pair of limits that the pool was given.
\<close>

definition sqldb_Open ::
  "(string \<Rightarrow> string \<Rightarrow> goerr option) \<Rightarrow> db_config \<Rightarrow> ('x boot_world_scheme, goerr + int64 \<times> int64) state" where
  "sqldb_Open sqlx_Open cfg =
     (case sqlx_Open ''pgx'' (url_String (open_url cfg)) of
        Some err \<Rightarrow> State_Monad.return (Inl err)
      | None \<Rightarrow> do { _ \<leftarrow> act (Opened DBPool); State_Monad.return (Inr (db_MaxIdleConns cfg, db_MaxOpenConns cfg)) })"

subsection \<open>Redis\<close>

record redis_config =
  rd_Scheme :: string
  rd_Hosts :: "string list"
  rd_Username :: string
  rd_Password :: string
  rd_DB :: int64
  rd_DialTimeout :: int

record redis_options =
  ro_Addr :: string
  ro_Username :: string
  ro_Password :: string
  ro_DB :: int64
  ro_DialTimeout :: int
  ro_TLS :: bool

definition redis_options_for :: "string \<Rightarrow> redis_config \<Rightarrow> redis_options call" where
  "redis_options_for tls_scheme cfg =
     (case rd_Hosts cfg of
        [] \<Rightarrow> Panics ''runtime error: index out of range [0] with length 0''
      | h # _ \<Rightarrow> Returns \<lparr>ro_Addr = h, ro_Username = rd_Username cfg, ro_Password = rd_Password cfg,
          ro_DB = rd_DB cfg, ro_DialTimeout = rd_DialTimeout cfg, ro_TLS = (rd_Scheme cfg = tls_scheme)\<rparr>)"

text \<open>The client is created before the ping; a failing ping does not close it.\<close>

definition connect_redis ::
  "(redis_options \<Rightarrow> goerr option) \<Rightarrow> redis_options call \<Rightarrow>
   ('x boot_world_scheme, (goerr + redis_options) call) state" where
  "connect_redis ping opts =
     (case opts of
        Panics p \<Rightarrow> State_Monad.return (Panics p)
      | Returns opt \<Rightarrow>
          do {
            _ \<leftarrow> act (Opened RedisClient);
            case ping opt of
              Some err \<Rightarrow> State_Monad.return (Returns (Inl err))
            | None \<Rightarrow> State_Monad.return (Returns (Inr opt))
          })"

definition inv_newRedis ::
  "(redis_options \<Rightarrow> goerr option) \<Rightarrow> redis_config \<Rightarrow>
   ('x boot_world_scheme, (goerr + redis_options) call) state" where
  "inv_newRedis ping cfg = connect_redis ping (redis_options_for ''rediss'' cfg)"

definition shp_newRedis ::
  "(redis_options \<Rightarrow> goerr option) \<Rightarrow> redis_config \<Rightarrow>
   ('x boot_world_scheme, (goerr + redis_options) call) state" where
  "shp_newRedis ping cfg = connect_redis ping (redis_options_for ''redis'' cfg)"

subsection \<open>NATS\<close>

datatype nats_option =
    NName string
  | NTimeout int
  | NReconnectWait int
  | NMaxReconnects int64
  | NToken string
  | NUserInfo string string
  | NDisconnectErrHandler
  | NReconnectHandler
  | NClosedHandler

record nats_settings =
  nt_Scheme :: string
  nt_Hosts :: "string list"
  nt_Username :: string
  nt_Password :: string
  nt_Token :: string
  nt_ConnTimeout :: int
  nt_ReconnectWait :: int
  nt_MaxReconnects :: int64

record nats_config = nats_settings +
  nt_ClientName :: string

definition nats_credentials :: "'a nats_settings_scheme \<Rightarrow> nats_option list" where
  "nats_credentials cfg =
     (if nt_Token cfg \<noteq> [] then [NToken (nt_Token cfg)]
      else if nt_Username cfg \<noteq> [] then [NUserInfo (nt_Username cfg) (nt_Password cfg)]
      else [])"

definition nats_urls :: "'a nats_settings_scheme \<Rightarrow> string" where
  "nats_urls cfg = join_with '','' (map (\<lambda>h. nt_Scheme cfg @ ''://'' @ h) (nt_Hosts cfg))"

text \<open>
  The library: \<open>nats.Connect\<close>, and \<open>nc.JetStream\<close> on the connection. When the second
  fails, the connection is open and nobody closes it.
\<close>

record nats_api =
  na_Connect :: "string \<Rightarrow> nats_option list \<Rightarrow> goerr option"
  na_JetStream :: "goerr option"

definition nats_open ::
  "nats_api \<Rightarrow> string \<Rightarrow> nats_option list \<Rightarrow> (goerr \<Rightarrow> goerr) \<Rightarrow> (goerr \<Rightarrow> goerr) \<Rightarrow>
   ('x boot_world_scheme, goerr + unit) state" where
  "nats_open nats url opts connect_err js_err =
     (case na_Connect nats url opts of
        Some err \<Rightarrow> State_Monad.return (Inl (connect_err err))
      | None \<Rightarrow>
          do {
            _ \<leftarrow> act (Opened NATSConn);
            case na_JetStream nats of
              Some err \<Rightarrow> State_Monad.return (Inl (js_err err))
            | None \<Rightarrow> State_Monad.return (Inr ())
          })"

definition main_newNATS :: "nats_api \<Rightarrow> nats_settings \<Rightarrow> ('x boot_world_scheme, goerr + unit) state" where
  "main_newNATS nats cfg =
     nats_open nats (nats_urls cfg)
       ([NTimeout (nt_ConnTimeout cfg), NReconnectWait (nt_ReconnectWait cfg),
         NMaxReconnects (nt_MaxReconnects cfg)] @ nats_credentials cfg)
       (\<lambda>e. e) (\<lambda>e. e)"

definition shp_NewNATS :: "nats_api \<Rightarrow> nats_config \<Rightarrow> ('x boot_world_scheme, goerr + unit) state" where
  "shp_NewNATS nats cfg =
     nats_open nats (nats_urls cfg)
       ([NName (nt_ClientName cfg), NTimeout (nt_ConnTimeout cfg), NMaxReconnects (nt_MaxReconnects cfg),
         NReconnectWait (nt_ReconnectWait cfg), NDisconnectErrHandler, NReconnectHandler, NClosedHandler] @
        nats_credentials cfg)
       (\<lambda>e. e) (ErrWrap ''jetstream: '')"

record inv_nats_config =
  in_URL :: string
  in_ConnTimeout :: int
  in_MaxReconnects :: int64
  in_ReconnectWait :: int

definition inv_NewNATS :: "nats_api \<Rightarrow> inv_nats_config \<Rightarrow> ('x boot_world_scheme, goerr + unit) state" where
  "inv_NewNATS nats cfg =
     nats_open nats (in_URL cfg)
       [NName ''inventory-service'', NTimeout (in_ConnTimeout cfg), NMaxReconnects (in_MaxReconnects cfg),
        NReconnectWait (in_ReconnectWait cfg), NDisconnectErrHandler, NReconnectHandler, NClosedHandler]
       (ErrWrap ''nats connect: '') (ErrWrap ''jetstream: '')"

subsection \<open>The connection handlers\<close>

definition error_arg :: "goerr option \<Rightarrow> log_arg" where
  "error_arg e = (case e of None \<Rightarrow> ArgOther ''<nil>'' | Some err \<Rightarrow> ArgOther (error_text err))"

definition inv_on_disconnect ::
  "runtime \<Rightarrow> ('ctx, 'x log_world_scheme) Logger \<Rightarrow> 'ctx \<Rightarrow> goerr option \<Rightarrow> ('x log_world_scheme, unit) state" where
  "inv_on_disconnect rt log ctx err =
     (if err \<noteq> None then log_Warn rt log ctx ''nats disconnect'' [ArgString ''error'', error_arg err]
      else State_Monad.return ())"

text \<open>The address is passed without a key.\<close>

definition inv_on_reconnect ::
  "runtime \<Rightarrow> ('ctx, 'x log_world_scheme) Logger \<Rightarrow> 'ctx \<Rightarrow> string \<Rightarrow> ('x log_world_scheme, unit) state" where
  "inv_on_reconnect rt log ctx url = log_Info rt log ctx ''NATS reconnected'' [ArgString url]"

definition inv_on_closed ::
  "runtime \<Rightarrow> ('ctx, 'x log_world_scheme) Logger \<Rightarrow> 'ctx \<Rightarrow> goerr option \<Rightarrow> ('x log_world_scheme, unit) state" where
  "inv_on_closed rt log ctx last_err =
     log_Info rt log ctx ''nats closed'' [ArgString ''error'', error_arg last_err]"

definition shp_on_disconnect ::
  "runtime \<Rightarrow> ('ctx, 'x log_world_scheme) Logger \<Rightarrow> 'ctx \<Rightarrow> goerr option \<Rightarrow> ('x log_world_scheme, unit) state" where
  "shp_on_disconnect rt log ctx err =
     (if err \<noteq> None then log_Warn rt log ctx ''nats disconnected'' [ArgString ''error'', error_arg err]
      else State_Monad.return ())"

definition shp_on_reconnect ::
  "runtime \<Rightarrow> ('ctx, 'x log_world_scheme) Logger \<Rightarrow> 'ctx \<Rightarrow> string \<Rightarrow> ('x log_world_scheme, unit) state" where
  "shp_on_reconnect rt log ctx url =
     log_Info rt log ctx ''nats reconnected'' [ArgString ''url'', ArgString url]"

definition shp_on_closed ::
  "runtime \<Rightarrow> ('ctx, 'x log_world_scheme) Logger \<Rightarrow> 'ctx \<Rightarrow> goerr option \<Rightarrow> ('x log_world_scheme, unit) state" where
  "shp_on_closed rt log ctx last_err =
     (if last_err \<noteq> None
      then log_Error rt log ctx ''nats closed with error'' [ArgString ''error'', error_arg last_err]
      else log_Info rt log ctx ''nats closed cleanly'' [])"

end
