(* ===== verification/Tracing.thy ===== *)
theory Tracing
  imports Startup
begin

section \<open>Tracing: pkg/otel\<close>

text \<open>
  \<open>pkg/otel\<close>: the tracer and the trace id kept in a context, the spans that
  \<open>AddSpan\<close> opens, the sampler that drops excluded endpoints and \<open>InitTracing\<close>. The
  OpenTelemetry SDK is not code of the repository: a tracer is a function that makes a span
  from a name, the attributes known when it starts and the parent span, the ratio sampler
  and the exporter are arguments. Global registrations are left out.
\<close>

type_synonym attribute = "string \<times> string"

record otel_span =
  sp_TraceID :: string
  sp_Name :: string
  sp_Attributes :: "attribute list"
  sp_Recording :: bool

type_synonym tracer = "string \<Rightarrow> attribute list \<Rightarrow> otel_span \<Rightarrow> otel_span"

record otel_ctx =
  oc_tracer :: "tracer option"
  oc_traceID :: "string option"
  oc_span :: otel_span

subsection \<open>The context\<close>

definition defaultTraceID :: string where
  "defaultTraceID = ''00000000000000000000000000000000''"

definition setTracer :: "otel_ctx \<Rightarrow> tracer \<Rightarrow> otel_ctx" where
  "setTracer ctx tracer = ctx\<lparr>oc_tracer := Some tracer\<rparr>"

definition setTraceID :: "otel_ctx \<Rightarrow> string \<Rightarrow> otel_ctx" where
  "setTraceID ctx traceID = ctx\<lparr>oc_traceID := Some traceID\<rparr>"

definition GetTraceID :: "otel_ctx \<Rightarrow> string" where
  "GetTraceID ctx = (case oc_traceID ctx of None \<Rightarrow> defaultTraceID | Some v \<Rightarrow> v)"

text \<open>\<open>fresh\<close> is what \<open>uuid.NewString\<close> returns.\<close>

definition InjectTracing :: "string \<Rightarrow> otel_ctx \<Rightarrow> tracer \<Rightarrow> otel_ctx" where
  "InjectTracing fresh ctx tracer =
     (let ctx1 = setTracer ctx tracer;
          traceID = sp_TraceID (oc_span ctx1);
          traceID1 = (if traceID = defaultTraceID then fresh else traceID)
      in setTraceID ctx1 traceID1)"

text \<open>A span that is not recorded ignores its attributes.\<close>

definition SetAttributes :: "attribute list \<Rightarrow> otel_span \<Rightarrow> otel_span" where
  "SetAttributes kvs span =
     (if sp_Recording span then span\<lparr>sp_Attributes := sp_Attributes span @ kvs\<rparr> else span)"

definition AddSpan :: "otel_ctx \<Rightarrow> string \<Rightarrow> attribute list \<Rightarrow> otel_ctx \<times> otel_span" where
  "AddSpan ctx spanName keyValues =
     (case oc_tracer ctx of
        None \<Rightarrow> (ctx, oc_span ctx)
      | Some tracer \<Rightarrow>
          let span = SetAttributes keyValues (tracer spanName [] (oc_span ctx))
          in (ctx\<lparr>oc_span := span\<rparr>, span))"

subsection \<open>The sampler\<close>

datatype decision = Drop | RecordOnly | RecordAndSample

record 'p endpointExcluder =
  ee_endpoints :: "string list"
  ee_probability :: 'p

definition newEndpointExcluder :: "string list \<Rightarrow> 'p \<Rightarrow> 'p endpointExcluder" where
  "newEndpointExcluder endpoints probability = \<lparr>ee_endpoints = endpoints, ee_probability = probability\<rparr>"

fun path_and_query :: "attribute list \<Rightarrow> string \<times> string \<Rightarrow> string \<times> string" where
  "path_and_query [] pq = pq"
| "path_and_query ((k, v) # attrs) (path, query) =
     path_and_query attrs
       (if k = ''url.path'' then (v, query) else if k = ''url.query'' then (path, v) else (path, query))"

definition endpoint :: "attribute list \<Rightarrow> string" where
  "endpoint attrs =
     (case path_and_query attrs ([], []) of
        (path, query) \<Rightarrow>
          if path = [] then [] else if query = [] then path else path @ ''?'' @ query)"

text \<open>\<open>ratio p params\<close> is what \<open>TraceIDRatioBased\<close> decides.\<close>

definition ShouldSample ::
  "('p \<Rightarrow> attribute list \<Rightarrow> decision) \<Rightarrow> 'p endpointExcluder \<Rightarrow> attribute list \<Rightarrow> decision" where
  "ShouldSample ratio ee attrs =
     (if endpoint attrs \<noteq> [] \<and> endpoint attrs \<in> set (ee_endpoints ee) then Drop
      else ratio (ee_probability ee) attrs)"

definition Description :: "'p endpointExcluder \<Rightarrow> string" where
  "Description _ = ''customSampler''"

text \<open>
  \<open>AddTraceToRequest\<close> gives the request's header to the registered propagator, which is
  the argument \<open>Inject\<close>.
\<close>

record 'h http_request =
  rq_Header :: 'h

definition AddTraceToRequest :: "(otel_ctx \<Rightarrow> 'h \<Rightarrow> 'h) \<Rightarrow> otel_ctx \<Rightarrow> 'h http_request \<Rightarrow> 'h http_request" where
  "AddTraceToRequest Inject ctx r = r\<lparr>rq_Header := Inject ctx (rq_Header r)\<rparr>"

subsection \<open>InitTracing\<close>

record 'p tracing_config =
  tc_ServiceName :: string
  tc_Host :: string
  tc_ExcludedRoutes :: "string list"
  tc_Probability :: 'p

text \<open>
  The provider: the one that records nothing, or the SDK's with the sampler (behind
  \<open>ParentBased\<close>) and the service name.
\<close>

datatype 'p provider = NoopProvider | SDKProvider "'p endpointExcluder" string

definition InitTracing ::
  "(string \<Rightarrow> goerr option) \<Rightarrow> 'p tracing_config \<Rightarrow>
   ('x boot_world_scheme, goerr + 'p provider \<times> ('x boot_world_scheme, unit) state) state" where
  "InitTracing exporter_New cfg =
     (case exporter_New (tc_Host cfg) of
        Some err \<Rightarrow> State_Monad.return (Inl (ErrWrap ''creating new exporter: '' err))
      | None \<Rightarrow>
          do {
            _ \<leftarrow> act (Opened TraceExporter);
            State_Monad.return (Inr
              (if tc_Host cfg = [] then (NoopProvider, State_Monad.return ())
               else (SDKProvider (newEndpointExcluder (tc_ExcludedRoutes cfg) (tc_Probability cfg)) (tc_ServiceName cfg),
                     act (Closed TraceExporter))))
          })"

subsection \<open>Facts\<close>

text \<open>
  Every context that went through \<open>InjectTracing\<close> has a trace id other than the default
  one, and the spans opened from it keep it.
\<close>

lemma inject_traced: "fresh \<noteq> defaultTraceID \<Longrightarrow> GetTraceID (InjectTracing fresh ctx tracer) \<noteq> defaultTraceID"
  by (simp add: InjectTracing_def setTraceID_def setTracer_def GetTraceID_def Let_def)

lemma add_span_trace_id [simp]: "GetTraceID (fst (AddSpan ctx name kvs)) = GetTraceID ctx"
  by (simp add: AddSpan_def GetTraceID_def Let_def split: option.splits)

lemma add_span_untraced: "oc_tracer ctx = None \<Longrightarrow> fst (AddSpan ctx name kvs) = ctx"
  by (simp add: AddSpan_def)

text \<open>
  The attributes of \<open>AddSpan\<close> arrive after the sampling decision: a tracer that asks the
  excluder when the span starts never sees an endpoint, so no span opened through
  \<open>AddSpan\<close> is excluded by it.
\<close>

definition sampling_tracer ::
  "('p \<Rightarrow> attribute list \<Rightarrow> decision) \<Rightarrow> 'p endpointExcluder \<Rightarrow> tracer" where
  "sampling_tracer ratio ee name attrs parent =
     \<lparr>sp_TraceID = sp_TraceID parent, sp_Name = name, sp_Attributes = attrs,
      sp_Recording = (ShouldSample ratio ee attrs \<noteq> Drop)\<rparr>"

lemma no_endpoint [simp]: "endpoint [] = []"
  by (simp add: endpoint_def)

lemma add_span_never_excluded:
  assumes "oc_tracer ctx = Some (sampling_tracer ratio ee)"
  shows "sp_Recording (snd (AddSpan ctx name kvs)) \<longleftrightarrow> ratio (ee_probability ee) [] \<noteq> Drop"
  by (simp add: AddSpan_def assms Let_def sampling_tracer_def SetAttributes_def ShouldSample_def)

end
