(* ===== verification/Executables.thy ===== *)
theory Executables
  imports Tracing Inv_Consumers Shp_Messaging
begin

section \<open>The two executables\<close>

text \<open>
  \<open>cmd/inventory/main.go\<close> and \<open>cmd/shipment/main.go\<close>: the order in which the
  processes open what they need, their deferred calls, the goroutine that starts the
  inventory service, the wait for a signal, and the exit status. The libraries answer
  through the records \<open>inv_libs\<close> and \<open>shp_libs\<close>; the goroutine's place among the
  steps of \<open>run\<close> is an argument.
\<close>

subsection \<open>Processes and deferred calls\<close>

text \<open>
  A function returns, ends the process with \<open>os.Exit\<close>, panics, or waits for ever. Its
  deferred calls run when it returns or panics, not when it exits.
\<close>

datatype 'a proc = Done 'a | Exit nat | Crash string | Waits

definition deferring :: "('w, 'b) state \<Rightarrow> ('w, 'a proc) state \<Rightarrow> ('w, 'a proc) state" where
  "deferring d m =
     do {
       r \<leftarrow> m;
       case r of
         Done _ \<Rightarrow> do { _ \<leftarrow> d; State_Monad.return r }
       | Crash _ \<Rightarrow> do { _ \<leftarrow> d; State_Monad.return r }
       | Exit _ \<Rightarrow> State_Monad.return r
       | Waits \<Rightarrow> State_Monad.return r
     }"

subsection \<open>The logger of a process\<close>

text \<open>
  The error event of the logger calls \<open>Info\<close> of the same logger. An \<open>Info\<close> call fires
  no event, so the logger inside the event may as well have an empty error event: the
  knot is tied by the lemma \<open>alert_knot\<close>.
\<close>

definition alert_text :: string where
  "alert_text = ''******* SEND ALERT *******''"

definition alert_events ::
  "runtime \<Rightarrow> string \<Rightarrow> (otel_ctx, 'x log_world_scheme) log_events \<Rightarrow>
   (otel_ctx, 'x log_world_scheme) log_events" where
  "alert_events rt svc inner = no_events\<lparr>le_Error := Some (\<lambda>ctx r.
     log_Info rt (logger_NewWithEvents False LevelInfo svc (Some GetTraceID) inner) ctx alert_text [])\<rparr>"

definition main_events :: "runtime \<Rightarrow> string \<Rightarrow> (otel_ctx, 'x log_world_scheme) log_events" where
  "main_events rt svc = alert_events rt svc (no_events\<lparr>le_Error := Some (\<lambda>_ _. State_Monad.return ())\<rparr>)"

definition main_logger :: "runtime \<Rightarrow> string \<Rightarrow> (otel_ctx, 'x log_world_scheme) Logger" where
  "main_logger rt svc = logger_NewWithEvents False LevelInfo svc (Some GetTraceID) (main_events rt svc)"

subsection \<open>cmd/inventory: configuration\<close>

record db_settings =
  ds_User :: string
  ds_Password :: string
  ds_Host :: string
  ds_Name :: string
  ds_MaxIdleConns :: int64
  ds_MaxOpenConns :: int64
  ds_DisableTLS :: bool

definition sqldb_config :: "db_settings \<Rightarrow> db_config" where
  "sqldb_config ds = \<lparr>db_User = ds_User ds, db_Password = ds_Password ds, db_Host = ds_Host ds,
     db_Name = ds_Name ds, db_Schema = [], db_MaxIdleConns = ds_MaxIdleConns ds,
     db_MaxOpenConns = ds_MaxOpenConns ds, db_DisableTLS = ds_DisableTLS ds\<rparr>"

record inv_config =
  ic_Build :: string
  ic_Desc :: string
  ic_NATS :: nats_settings
  ic_DB :: db_settings
  ic_Redis :: redis_config
  ic_ShutdownTimeout :: int

definition seconds :: "int \<Rightarrow> int" where
  "seconds n = n * 1000000000"

text \<open>The values of the \<open>default\<close> tags.\<close>

definition nats_defaults :: nats_settings where
  "nats_defaults = \<lparr>nt_Scheme = ''nats'', nt_Hosts = [''localhost:4222''], nt_Username = [], nt_Password = [],
     nt_Token = [], nt_ConnTimeout = seconds 20, nt_ReconnectWait = seconds 20, nt_MaxReconnects = 9\<rparr>"

definition db_defaults :: db_settings where
  "db_defaults = \<lparr>ds_User = ''inventory'', ds_Password = ''inventory'', ds_Host = ''inventory-postgres'',
     ds_Name = ''inventory'', ds_MaxIdleConns = 0, ds_MaxOpenConns = 0, ds_DisableTLS = True\<rparr>"

definition redis_defaults :: redis_config where
  "redis_defaults = \<lparr>rd_Scheme = ''redis'', rd_Hosts = [''inventory-redis:6379''], rd_Username = [],
     rd_Password = [], rd_DB = 0, rd_DialTimeout = seconds 20\<rparr>"

definition inv_config_defaults :: "string \<Rightarrow> inv_config" where
  "inv_config_defaults buildTag = \<lparr>ic_Build = buildTag, ic_Desc = ''Inventory Service'', ic_NATS = nats_defaults,
     ic_DB = db_defaults, ic_Redis = redis_defaults, ic_ShutdownTimeout = seconds 20\<rparr>"

definition ErrHelpWanted :: goerr where
  "ErrHelpWanted = ErrNew ''help wanted''"

text \<open>
  \<open>parse prefix defaults\<close> is \<open>conf.Parse\<close>: the help text and an error, or the
  configuration.
\<close>

definition loadConfig ::
  "string \<Rightarrow> (string \<Rightarrow> inv_config \<Rightarrow> string \<times> goerr + inv_config) \<Rightarrow>
   ('x boot_world_scheme, inv_config proc) state" where
  "loadConfig buildTag parse =
     (case parse ''INVENTORY'' (inv_config_defaults buildTag) of
        Inl (help, err) \<Rightarrow>
          if errors_Is err ErrHelpWanted
          then do { _ \<leftarrow> act (Printed help); State_Monad.return (Exit 0) }
          else State_Monad.return (Crash (error_text err))
      | Inr cfg \<Rightarrow> State_Monad.return (Done cfg))"

subsection \<open>cmd/inventory: serving\<close>

text \<open>What the libraries answer.  \<open>il_Drain\<close> is the answer to the drain
  in \<open>run\<close>; the answer to the deferred one is thrown away.\<close>

record 'sub inv_libs =
  il_Parse :: "string \<Rightarrow> inv_config \<Rightarrow> string \<times> goerr + inv_config"
  il_sqlx_Open :: "string \<Rightarrow> string \<Rightarrow> goerr option"
  il_Ping :: "redis_options \<Rightarrow> goerr option"
  il_NATS :: nats_api
  il_Subscribe :: "string \<Rightarrow> string \<Rightarrow> string \<Rightarrow> goerr + 'sub"
  il_Stop :: "'sub list \<Rightarrow> goerr option"
  il_Drain :: "goerr option"
  il_GOMAXPROCS :: string

text \<open>
  Where the goroutine that runs \<open>Start\<close> finishes: before the line \<open>service started\<close>,
  before the wait, after the wait was ended by a signal, or not while the process lives.
  In the first two cases a signal may be pending too, and the flag says whether the
  \<open>select\<close> picks it when the context is done as well.
\<close>

datatype schedule =
    StartEarly "string option" bool
  | StartInTime "string option" bool
  | StartLate string
  | StartNever string

definition subscribe_with ::
  "'sub inv_libs \<Rightarrow> consumer \<Rightarrow> string \<Rightarrow> string \<Rightarrow> string \<Rightarrow> ('x boot_world_scheme, goerr + 'sub) state" where
  "subscribe_with lib c subject durable queue =
     (case il_Subscribe lib subject durable queue of
        Inl err \<Rightarrow> State_Monad.return (Inl err)
      | Inr sub \<Rightarrow> do { _ \<leftarrow> act (Subscribed durable); State_Monad.return (Inr sub) })"

text \<open>The goroutine: the subscriptions it leaves and whether it cancelled the context.\<close>

definition start_goroutine ::
  "runtime \<Rightarrow> (otel_ctx, 'x boot_world_scheme) Logger \<Rightarrow> otel_ctx \<Rightarrow> 'sub inv_libs \<Rightarrow>
   ('x boot_world_scheme, 'sub list \<times> bool) state" where
  "start_goroutine rt log ctx lib =
     do {
       s \<leftarrow> Start (subscribe_with lib) [];
       case s of (None, subs) \<Rightarrow> State_Monad.return (subs, False)
       | (Some err, subs) \<Rightarrow>
           do {
             _ \<leftarrow> log_Error rt log ctx ''service stopped unexpectedly'' [ArgString ''err'', error_arg (Some err)];
             State_Monad.return (subs, True)
           }
     }"

text \<open>The start of \<open>Stop\<close>; the rest of it is modelled with the consumers.\<close>

definition inv_stop ::
  "runtime \<Rightarrow> (otel_ctx, 'x boot_world_scheme) Logger \<Rightarrow> otel_ctx \<Rightarrow> 'sub inv_libs \<Rightarrow> 'sub list \<Rightarrow>
   ('x boot_world_scheme, goerr option) state" where
  "inv_stop rt log ctx lib subs =
     (if subs = [] then State_Monad.return None
      else
        do {
          _ \<leftarrow> log_Info rt log ctx ''stopping inventory service consumers...'' [];
          State_Monad.return (il_Stop lib subs)
        })"

text \<open>\<open>Some (Some s)\<close>: woken by the signal \<open>s\<close>; \<open>Some None\<close>: by the context.\<close>

definition wait_select :: "schedule \<Rightarrow> bool \<Rightarrow> string option option" where
  "wait_select sched cancelled =
     (case sched of
        StartLate s \<Rightarrow> Some (Some s)
      | StartNever s \<Rightarrow> Some (Some s)
      | StartEarly pending pick \<Rightarrow>
          (case pending of
             None \<Rightarrow> if cancelled then Some None else None
           | Some s \<Rightarrow> if cancelled \<and> \<not> pick then Some None else Some (Some s))
      | StartInTime pending pick \<Rightarrow>
          (case pending of
             None \<Rightarrow> if cancelled then Some None else None
           | Some s \<Rightarrow> if cancelled \<and> \<not> pick then Some None else Some (Some s)))"

text \<open>\<open>run\<close> from the start of the goroutine to its end.\<close>

definition inv_serve ::
  "runtime \<Rightarrow> (otel_ctx, 'x boot_world_scheme) Logger \<Rightarrow> otel_ctx \<Rightarrow> 'sub inv_libs \<Rightarrow> schedule \<Rightarrow>
   ('x boot_world_scheme, goerr option proc) state" where
  "inv_serve rt log ctx lib sched =
     do {
       g0 \<leftarrow> (case sched of StartEarly _ _ \<Rightarrow> start_goroutine rt log ctx lib
              | _ \<Rightarrow> State_Monad.return ([], False));
       _ \<leftarrow> log_Info rt log ctx ''service started'' [];
       g1 \<leftarrow> (case sched of StartInTime _ _ \<Rightarrow> start_goroutine rt log ctx lib
              | _ \<Rightarrow> State_Monad.return g0);
       case wait_select sched (snd g1) of
         None \<Rightarrow> State_Monad.return Waits
       | Some woken \<Rightarrow>
           do {
             _ \<leftarrow> (case woken of
                    Some s \<Rightarrow> log_Info rt log ctx ''shutdown signal received'' [ArgString ''signal'', ArgOther s]
                  | None \<Rightarrow> log_Info rt log ctx ''context cancelled'' []);
             g2 \<leftarrow> (case sched of StartLate _ \<Rightarrow> start_goroutine rt log ctx lib
                    | _ \<Rightarrow> State_Monad.return g1);
             stopped \<leftarrow> inv_stop rt log ctx lib (fst g2);
             _ \<leftarrow> (case stopped of
                    Some err \<Rightarrow>
                      log_Error rt log ctx ''service shutdown failed'' [ArgString ''err'', error_arg (Some err)]
                  | None \<Rightarrow> State_Monad.return ());
             _ \<leftarrow> act (Closed NATSConn);
             _ \<leftarrow> (case il_Drain lib of
                    Some err \<Rightarrow> log_Error rt log ctx ''nats drain failed'' [ArgString ''err'', error_arg (Some err)]
                  | None \<Rightarrow> State_Monad.return ());
             _ \<leftarrow> log_Info rt log ctx ''shutdown complete'' [];
             State_Monad.return (Done None)
           }
     }"

subsection \<open>cmd/inventory: run and main\<close>

definition inv_run ::
  "string \<Rightarrow> runtime \<Rightarrow> (otel_ctx, 'x boot_world_scheme) Logger \<Rightarrow> otel_ctx \<Rightarrow> 'sub inv_libs \<Rightarrow> schedule \<Rightarrow>
   ('x boot_world_scheme, goerr option proc) state" where
  "inv_run buildTag rt log ctx lib sched =
     do {
       _ \<leftarrow> log_Info rt log ctx ''startup'' [ArgString ''GOMAXPROCS'', ArgOther (il_GOMAXPROCS lib)];
       loaded \<leftarrow> loadConfig buildTag (il_Parse lib);
       case loaded of
         Exit n \<Rightarrow> State_Monad.return (Exit n)
       | Crash p \<Rightarrow> State_Monad.return (Crash p)
       | Waits \<Rightarrow> State_Monad.return Waits
       | Done cfg \<Rightarrow>
           do {
             _ \<leftarrow> log_Info rt log ctx ''starting service'' [ArgString ''version'', ArgString (ic_Build cfg)];
             deferring (log_Info rt log ctx ''shutdown complete'' []) (do {
               _ \<leftarrow> act (Published ''build'' (ic_Build cfg));
               db \<leftarrow> sqldb_Open (il_sqlx_Open lib) (sqldb_config (ic_DB cfg));
               case db of
                 Inl err \<Rightarrow> State_Monad.return (Done (Some (ErrWrap ''db connect: '' err)))
               | Inr _ \<Rightarrow> deferring (act (Closed DBPool)) (do {
                   rdb \<leftarrow> inv_newRedis (il_Ping lib) (ic_Redis cfg);
                   case rdb of
                     Panics p \<Rightarrow> State_Monad.return (Crash p)
                   | Returns (Inl err) \<Rightarrow> State_Monad.return (Done (Some (ErrWrap ''redis client:'' err)))
                   | Returns (Inr _) \<Rightarrow> deferring (act (Closed RedisClient)) (do {
                       nc \<leftarrow> main_newNATS (il_NATS lib) (ic_NATS cfg);
                       case nc of
                         Inl err \<Rightarrow> State_Monad.return (Done (Some (ErrWrap ''nats connect :'' err)))
                       | Inr _ \<Rightarrow> deferring (act (Closed NATSConn)) (inv_serve rt log ctx lib sched)
                     })
                 })
             })
           }
     }"

text \<open>\<open>main\<close>: the exit status of the process.\<close>

definition main_exit ::
  "runtime \<Rightarrow> (otel_ctx, 'x boot_world_scheme) Logger \<Rightarrow> otel_ctx \<Rightarrow>
   ('x boot_world_scheme, goerr option proc) state \<Rightarrow> ('x boot_world_scheme, unit proc) state" where
  "main_exit rt log ctx run =
     do {
       r \<leftarrow> run;
       case r of
         Done None \<Rightarrow> State_Monad.return (Exit 0)
       | Done (Some err) \<Rightarrow>
           do {
             _ \<leftarrow> log_Error rt log ctx ''startup failed'' [ArgString ''err'', error_arg (Some err)];
             State_Monad.return (Exit 1)
           }
       | Exit n \<Rightarrow> State_Monad.return (Exit n)
       | Crash p \<Rightarrow> State_Monad.return (Crash p)
       | Waits \<Rightarrow> State_Monad.return Waits
     }"

definition inv_main ::
  "string \<Rightarrow> runtime \<Rightarrow> otel_ctx \<Rightarrow> 'sub inv_libs \<Rightarrow> schedule \<Rightarrow> ('x boot_world_scheme, unit proc) state" where
  "inv_main buildTag rt ctx lib sched =
     main_exit rt (main_logger rt ''INVENTORY'') ctx
       (inv_run buildTag rt (main_logger rt ''INVENTORY'') ctx lib sched)"

subsection \<open>cmd/shipment: configuration\<close>

record 'p tempo_settings =
  tp_Host :: string
  tp_ServiceName :: string
  tp_Probability :: 'p
  tp_ShutdownTimeout :: int

record 'p shp_config =
  hc_Build :: string
  hc_Desc :: string
  hc_Redis :: redis_config
  hc_NATS :: nats_settings
  hc_DB :: db_settings
  hc_Tempo :: "'p tempo_settings"

text \<open>\<open>p\<close> is the probability \<open>0.05\<close>, a number of the library's type.\<close>

definition shp_config_defaults :: "string \<Rightarrow> 'p \<Rightarrow> 'p shp_config" where
  "shp_config_defaults buildTag p = \<lparr>hc_Build = buildTag, hc_Desc = ''Shipment ...'', hc_Redis = redis_defaults,
     hc_NATS = nats_defaults, hc_DB = db_defaults,
     hc_Tempo = \<lparr>tp_Host = ''tempo:4317'', tp_ServiceName = ''sales'', tp_Probability = p,
       tp_ShutdownTimeout = seconds 20\<rparr>\<rparr>"

subsection \<open>cmd/shipment: run\<close>

record 'p shp_libs =
  hl_Parse :: "string \<Rightarrow> 'p shp_config \<Rightarrow> string \<times> goerr + 'p shp_config"
  hl_String :: "'p shp_config \<Rightarrow> goerr + string"
  hl_Quote :: "string \<Rightarrow> string"
  hl_BuildInfo :: "build_info option"
  hl_sqlx_Open :: "string \<Rightarrow> string \<Rightarrow> goerr option"
  hl_Ping :: "redis_options \<Rightarrow> goerr option"
  hl_Exporter :: "string \<Rightarrow> goerr option"
  hl_NATS :: nats_api
  hl_StreamInfo :: "string \<Rightarrow> goerr + stream_config"
  hl_UpdateStream :: "stream_config \<Rightarrow> goerr option"
  hl_AddStream :: "stream_config \<Rightarrow> goerr option"
  hl_Signal :: "string option"
  hl_GOMAXPROCS :: string

definition note_stream ::
  "(stream_config \<Rightarrow> goerr option) \<Rightarrow> stream_config \<Rightarrow> ('x boot_world_scheme, goerr option) state" where
  "note_stream answer cfg =
     (case answer cfg of
        Some err \<Rightarrow> State_Monad.return (Some err)
      | None \<Rightarrow> do { _ \<leftarrow> act (StreamSet (str_Name cfg) (str_Subjects cfg)); State_Monad.return None })"

definition shp_stream_admin :: "'p shp_libs \<Rightarrow> ('x boot_world_scheme) stream_admin" where
  "shp_stream_admin lib = \<lparr>js_StreamInfo = (\<lambda>name. State_Monad.return (hl_StreamInfo lib name)),
     js_UpdateStream = note_stream (hl_UpdateStream lib), js_AddStream = note_stream (hl_AddStream lib)\<rparr>"

text \<open>The configuration of \<open>messaging.NewNATS\<close>, without its logger.\<close>

definition shp_nats_config :: "nats_settings \<Rightarrow> nats_config" where
  "shp_nats_config s = \<lparr>nt_Scheme = nt_Scheme s, nt_Hosts = nt_Hosts s, nt_Username = nt_Username s,
     nt_Password = nt_Password s, nt_Token = nt_Token s, nt_ConnTimeout = nt_ConnTimeout s,
     nt_ReconnectWait = nt_ReconnectWait s, nt_MaxReconnects = nt_MaxReconnects s,
     nt_ClientName = ''shipment-service''\<rparr>"

text \<open>
  From the connection to NATS on. The publisher, the idempotency store and the business
  value are built and dropped; \<open>run\<close> then waits for a signal.
\<close>

definition shp_serve ::
  "string \<Rightarrow> 'p shp_libs \<Rightarrow> 'p shp_config \<Rightarrow> ('x boot_world_scheme, goerr option proc) state" where
  "shp_serve buildTag lib cfg =
     do {
       nc \<leftarrow> shp_NewNATS (hl_NATS lib) (shp_nats_config (hc_NATS cfg));
       case nc of
         Inl err \<Rightarrow> State_Monad.return (Done (Some (ErrWrap ''nats connect :'' err)))
       | Inr _ \<Rightarrow> deferring (act (Closed NATSConn)) (do {
           e \<leftarrow> shp_EnsureStream (shp_stream_admin lib) buildTag;
           case e of
             Some err \<Rightarrow> State_Monad.return (Done (Some (ErrWrap ''Could not ensure JetStream: '' err)))
           | None \<Rightarrow>
               (case hl_Signal lib of
                  None \<Rightarrow> State_Monad.return Waits
                | Some _ \<Rightarrow> State_Monad.return (Done None))
         })
     }"

definition shp_open_all ::
  "string \<Rightarrow> runtime \<Rightarrow> (otel_ctx, 'x boot_world_scheme) Logger \<Rightarrow> otel_ctx \<Rightarrow> 'p shp_libs \<Rightarrow> 'p shp_config \<Rightarrow>
   ('x boot_world_scheme, goerr option proc) state" where
  "shp_open_all buildTag rt log ctx lib cfg =
     do {
       _ \<leftarrow> log_Info rt log ctx ''startup''
              [ArgString ''status'', ArgString ''initializing database support'',
               ArgString ''hostport'', ArgString (ds_Host (hc_DB cfg))];
       db \<leftarrow> sqldb_Open (hl_sqlx_Open lib) (sqldb_config (hc_DB cfg));
       case db of
         Inl err \<Rightarrow> State_Monad.return (Done (Some (ErrWrap ''connecting to db: '' err)))
       | Inr _ \<Rightarrow> deferring (act (Closed DBPool)) (do {
           rdb \<leftarrow> shp_newRedis (hl_Ping lib) (hc_Redis cfg);
           case rdb of
             Panics p \<Rightarrow> State_Monad.return (Crash p)
           | Returns (Inl err) \<Rightarrow> State_Monad.return (Done (Some (ErrWrap ''redis client:'' err)))
           | Returns (Inr _) \<Rightarrow> deferring (act (Closed RedisClient)) (do {
               _ \<leftarrow> log_Info rt log ctx ''startup''
                      [ArgString ''status'', ArgString ''initializing tracing support''];
               tracing \<leftarrow> InitTracing (hl_Exporter lib)
                 \<lparr>tc_ServiceName = tp_ServiceName (hc_Tempo cfg), tc_Host = tp_Host (hc_Tempo cfg),
                  tc_ExcludedRoutes = [], tc_Probability = tp_Probability (hc_Tempo cfg)\<rparr>;
               case tracing of
                 Inl err \<Rightarrow> State_Monad.return (Done (Some (ErrWrap ''starting tracing: '' err)))
               | Inr (_, teardown) \<Rightarrow> deferring teardown (shp_serve buildTag lib cfg)
             })
         })
     }"

definition shp_run ::
  "string \<Rightarrow> 'p \<Rightarrow> runtime \<Rightarrow> (otel_ctx, 'x boot_world_scheme) Logger \<Rightarrow> otel_ctx \<Rightarrow> 'p shp_libs \<Rightarrow>
   ('x boot_world_scheme, goerr option proc) state" where
  "shp_run buildTag p rt log ctx lib =
     do {
       _ \<leftarrow> log_Info rt log ctx ''startup'' [ArgString ''GOMAXPROCS'', ArgOther (hl_GOMAXPROCS lib)];
       case hl_Parse lib ''SHIPMENT'' (shp_config_defaults buildTag p) of
         Inl (help, err) \<Rightarrow>
           if errors_Is err ErrHelpWanted
           then do { _ \<leftarrow> act (Printed help); State_Monad.return (Done None) }
           else State_Monad.return (Done (Some (ErrWrap ''parsing config: '' err)))
       | Inr cfg \<Rightarrow>
           do {
             _ \<leftarrow> log_Info rt log ctx ''starting service'' [ArgString ''version'', ArgString (hc_Build cfg)];
             deferring (log_Info rt log ctx ''shutdown complete'' [])
               (case hl_String lib cfg of
                  Inl err \<Rightarrow>
                    State_Monad.return (Done (Some (ErrWrap ''generating config for output: '' err)))
                | Inr out \<Rightarrow>
                    do {
                      _ \<leftarrow> log_Info rt log ctx ''startup'' [ArgString ''config'', ArgString out];
                      _ \<leftarrow> BuildInfo (hl_Quote lib) (hl_BuildInfo lib) rt log ctx;
                      _ \<leftarrow> act (Published ''build'' (hc_Build cfg));
                      shp_open_all buildTag rt log ctx lib cfg
                    })
           }
     }"

definition shp_main ::
  "string \<Rightarrow> 'p \<Rightarrow> runtime \<Rightarrow> otel_ctx \<Rightarrow> 'p shp_libs \<Rightarrow> ('x boot_world_scheme, unit proc) state" where
  "shp_main buildTag p rt ctx lib =
     main_exit rt (main_logger rt ''SHIPMENT'') ctx
       (shp_run buildTag p rt (main_logger rt ''SHIPMENT'') ctx lib)"

subsection \<open>What the logger does in a process\<close>

lemma run_stateD: "(\<And>w. run_state m w = run_state m' w) \<Longrightarrow> m = m'"
  by (cases m; cases m') (simp add: fun_eq_iff)

lemma alert_silent [simp]:
  "fire (alert_events rt svc inner) LevelInfo ctx r = State_Monad.return ()"
  "fire (alert_events rt svc inner) LevelWarn ctx r = State_Monad.return ()"
  by (simp_all add: fire_def event_for_def alert_events_def no_events_def level_defs)

lemma alert_on_error:
  "fire (alert_events rt svc inner) LevelError ctx r =
    log_Info rt (logger_NewWithEvents False LevelInfo svc (Some GetTraceID) inner) ctx alert_text []"
  by (simp add: fire_def event_for_def alert_events_def no_events_def level_defs)

lemma info_independent:
  fixes inner inner' :: "(otel_ctx, 'x log_world_scheme) log_events"
  assumes "\<And>r. fire inner LevelInfo ctx r = (State_Monad.return () :: ('x log_world_scheme, unit) state)"
    and "\<And>r. fire inner' LevelInfo ctx r = (State_Monad.return () :: ('x log_world_scheme, unit) state)"
  shows "log_Info rt (logger_NewWithEvents False LevelInfo svc (Some GetTraceID) inner) ctx msg args =
   log_Info rt (logger_NewWithEvents False LevelInfo svc (Some GetTraceID) inner') ctx msg args"
  by (rule run_stateD, rule prod_eqI)
    (simp_all add: log_calls logger_NewWithEvents_def log_at_new assms Let_def)

lemma alert_events_silent:
  fixes inner inner' :: "(otel_ctx, 'x log_world_scheme) log_events"
  assumes "\<And>ctx r. fire inner LevelInfo ctx r = (State_Monad.return () :: ('x log_world_scheme, unit) state)"
    and "\<And>ctx r. fire inner' LevelInfo ctx r = (State_Monad.return () :: ('x log_world_scheme, unit) state)"
  shows "alert_events rt svc inner = alert_events rt svc inner'"
  using info_independent [OF assms] by (simp add: alert_events_def)

text \<open>
  The logger of a process is the one whose error event is an \<open>Info\<close> call of itself, as
  \<open>main\<close> defines it.
\<close>

lemma alert_knot: "main_logger rt svc =
    logger_NewWithEvents False LevelInfo svc (Some GetTraceID) (alert_events rt svc (main_events rt svc))"
proof -
  have "main_events rt svc = alert_events rt svc (main_events rt svc)"
    unfolding main_events_def
    by (rule alert_events_silent) (simp_all add: fire_def event_for_def no_events_def alert_events_def level_defs)
  from arg_cong [OF this, of "logger_NewWithEvents False LevelInfo svc (Some GetTraceID)"] show ?thesis
    by (simp only: main_logger_def)
qed

lemma run_info: "\<exists>line. run_state (log_Info rt (main_logger rt svc) ctx msg args) w =
    ((), w\<lparr>lw_reads := Suc (lw_reads w), lw_lines := lw_lines w @ [line]\<rparr>) \<and>
    ln_Level line = LevelInfo \<and> ln_Message line = msg"
  by (intro exI [of _ "line_for rt svc (rt_Now rt (lw_reads w)) LevelInfo 3 msg (with_trace (Some GetTraceID) ctx args)"]
      conjI prod_eqI)
    (simp_all add: log_calls main_logger_def main_events_def logger_NewWithEvents_def log_at_new Let_def
      line_for_def)

text \<open>An error writes the alert line before its own line.\<close>

lemma run_error: "\<exists>alert line n. run_state (log_Error rt (main_logger rt svc) ctx msg args) w =
    ((), w\<lparr>lw_reads := n, lw_lines := lw_lines w @ [alert, line]\<rparr>) \<and>
    ln_Level alert = LevelInfo \<and> ln_Message alert = alert_text \<and>
    ln_Level line = LevelError \<and> ln_Message line = msg"
proof -
  define w1 where "w1 = w\<lparr>lw_reads := Suc (lw_reads w)\<rparr>"
  obtain alert where alert: "run_state (log_Info rt (main_logger rt svc) ctx alert_text []) w1 =
      ((), w1\<lparr>lw_reads := Suc (lw_reads w1), lw_lines := lw_lines w1 @ [alert]\<rparr>)"
    "ln_Level alert = LevelInfo" "ln_Message alert = alert_text"
    using run_info [of rt svc ctx alert_text "[]" w1] by blast
  let ?line = "line_for rt svc (rt_Now rt (lw_reads w)) LevelError 3 msg (with_trace (Some GetTraceID) ctx args)"
  have fired: "exec (fire (alert_events rt svc (main_events rt svc)) LevelError ctx r) w1 =
      w\<lparr>lw_reads := Suc (lw_reads w1), lw_lines := lw_lines w @ [alert]\<rparr>" for r
    unfolding alert_on_error main_logger_def [symmetric] using alert(1) by (simp add: w1_def)
  have "\<not> LevelError < LevelInfo"
    by (simp add: level_defs)
  with fired have "exec (log_Error rt (main_logger rt svc) ctx msg args) w =
      w\<lparr>lw_reads := Suc (lw_reads w1), lw_lines := lw_lines w @ [alert, ?line]\<rparr>"
    by (subst alert_knot)
      (simp add: log_Error_def logger_NewWithEvents_def log_at_new Let_def w1_def [symmetric])
  then have "run_state (log_Error rt (main_logger rt svc) ctx msg args) w =
      ((), w\<lparr>lw_reads := Suc (lw_reads w1), lw_lines := lw_lines w @ [alert, ?line]\<rparr>)"
    by (intro prod_eqI) simp_all
  moreover have "ln_Level ?line = LevelError \<and> ln_Message ?line = msg"
    by (simp add: line_for_def)
  ultimately show ?thesis
    using alert(2,3) by blast
qed

lemma run_warn: "\<exists>line. run_state (log_Warn rt (main_logger rt svc) ctx msg args) w =
    ((), w\<lparr>lw_reads := Suc (lw_reads w), lw_lines := lw_lines w @ [line]\<rparr>) \<and>
    ln_Level line = LevelWarn \<and> ln_Message line = msg"
proof -
  have "\<not> LevelWarn < LevelInfo"
    by (simp add: level_defs)
  then show ?thesis
    by (intro exI [of _ "line_for rt svc (rt_Now rt (lw_reads w)) LevelWarn 3 msg (with_trace (Some GetTraceID) ctx args)"]
        conjI prod_eqI)
      (simp_all add: log_calls main_logger_def main_events_def logger_NewWithEvents_def log_at_new Let_def
        line_for_def)
qed

lemma log_acts [simp]:
  "bw_acts (exec (log_Info rt (main_logger rt svc) ctx msg args) w) = bw_acts w"
  "bw_acts (exec (log_Error rt (main_logger rt svc) ctx msg args) w) = bw_acts w"
  "bw_acts (exec (log_Warn rt (main_logger rt svc) ctx msg args) w) = bw_acts w"
  using run_info [of rt svc ctx msg args w] run_error [of rt svc ctx msg args w]
    run_warn [of rt svc ctx msg args w] by auto

end
