(* ===== verification/Outcomes.thy ===== *)
theory Outcomes
  imports Executables
begin

section \<open>How the executables end\<close>

text \<open>
  An abstract account of the two processes: from the answers of the libraries it gives the
  exit status and the resources that are still held when the process ends. The two
  theorems at the end say that \<open>inv_main\<close> and \<open>shp_main\<close> implement it.
\<close>

subsection \<open>Held resources\<close>

fun act_held :: "act \<Rightarrow> resource set \<Rightarrow> resource set" where
  "act_held (Opened r) H = insert r H"
| "act_held (Closed r) H = H - {r}"
| "act_held (Subscribed d) H = H"
| "act_held (Published k v) H = H"
| "act_held (Printed t) H = H"
| "act_held (StreamSet n s) H = H"

definition held :: "'x boot_world_scheme \<Rightarrow> resource set" where
  "held w = fold act_held (bw_acts w) {}"

lemma held_acts [simp]:
  "held (w\<lparr>bw_acts := as\<rparr>) = fold act_held as {}"
  "fold act_held (bw_acts w) {} = held w"
  by (simp_all add: held_def)

lemma held_log [simp]:
  "held (exec (log_Info rt (main_logger rt svc) ctx msg args) w) = held w"
  "held (exec (log_Error rt (main_logger rt svc) ctx msg args) w) = held w"
  "held (exec (log_Warn rt (main_logger rt svc) ctx msg args) w) = held w"
  by (simp_all add: held_def del: held_acts)

lemma deferring_result [simp]: "result (deferring d m) w = result m w"
  by (simp add: deferring_def split_beta split: proc.splits)

definition unwinds :: "'a proc \<Rightarrow> bool" where
  "unwinds r = (case r of Done _ \<Rightarrow> True | Crash _ \<Rightarrow> True | Exit _ \<Rightarrow> False | Waits \<Rightarrow> False)"

lemma unwinds_simps [simp]:
  "unwinds (Done x)" "unwinds (Crash p)" "\<not> unwinds (Exit n)" "\<not> unwinds Waits"
  by (simp_all add: unwinds_def)

lemma deferring_exec:
  "exec (deferring d m) w = (if unwinds (result m w) then exec d (exec m w) else exec m w)"
  by (simp add: deferring_def unwinds_def split_beta split: proc.splits)

subsection \<open>The goroutine of the inventory service\<close>

definition start_fails :: "'sub inv_libs \<Rightarrow> bool" where
  "start_fails lib \<longleftrightarrow> (\<exists>c \<in> set start_order.
     isl (il_Subscribe lib (consumer_subject c) (consumer_durable c) ''inventory''))"

lemma subscribe_all_held:
  "held (exec (subscribe_all (subscribe_with lib) cs subs) w) = held w"
  "fst (result (subscribe_all (subscribe_with lib) cs subs) w) = None \<longleftrightarrow>
    (\<forall>c \<in> set cs. \<not> isl (il_Subscribe lib (consumer_subject c) (consumer_durable c) ''inventory''))"
  by (induction cs arbitrary: subs w)
    (simp_all add: subscribe_with_def split_beta split: sum.splits)

lemma start_goroutine_held:
  "held (exec (start_goroutine rt (main_logger rt svc) ctx lib) w) = held w"
  "snd (result (start_goroutine rt (main_logger rt svc) ctx lib) w) \<longleftrightarrow> start_fails lib"
  using subscribe_all_held [of lib start_order "[]" w]
  by (auto simp: start_goroutine_def Start_def start_fails_def split_beta split: option.splits)

definition cancelled_early :: "schedule \<Rightarrow> 'sub inv_libs \<Rightarrow> bool" where
  "cancelled_early sched lib =
     (case sched of StartEarly _ _ \<Rightarrow> start_fails lib | StartInTime _ _ \<Rightarrow> start_fails lib
      | StartLate _ \<Rightarrow> False | StartNever _ \<Rightarrow> False)"

lemma inv_stop_held [simp]:
  "held (exec (inv_stop rt (main_logger rt svc) ctx lib subs) w) = held w"
  by (simp add: inv_stop_def split_beta)

lemma inv_serve_outcome:
  "result (inv_serve rt (main_logger rt svc) ctx lib sched) w =
    (if wait_select sched (cancelled_early sched lib) = None then Waits else Done None)"
  "held (exec (inv_serve rt (main_logger rt svc) ctx lib sched) w) =
    (if wait_select sched (cancelled_early sched lib) = None then held w else held w - {NATSConn})"
  by (cases sched;
      simp add: inv_serve_def cancelled_early_def split_beta start_goroutine_held
        split: option.splits)+

subsection \<open>The abstract account\<close>

definition dsn :: "db_settings \<Rightarrow> string" where
  "dsn ds = url_String (open_url (sqldb_config ds))"

text \<open>
  The answer of \<open>nats.Connect\<close> to a list of options, then that of \<open>JetStream\<close>: what
  remains held when it fails, or nothing if it does not.
\<close>

definition nats_failure :: "nats_api \<Rightarrow> string \<Rightarrow> nats_option list \<Rightarrow> resource set option" where
  "nats_failure nats url opts =
     (if na_Connect nats url opts \<noteq> None then Some {}
      else if na_JetStream nats \<noteq> None then Some {NATSConn}
      else None)"

definition inv_nats_options :: "nats_settings \<Rightarrow> nats_option list" where
  "inv_nats_options cfg = [NTimeout (nt_ConnTimeout cfg), NReconnectWait (nt_ReconnectWait cfg),
     NMaxReconnects (nt_MaxReconnects cfg)] @ nats_credentials cfg"

definition inv_outcome :: "string \<Rightarrow> 'sub inv_libs \<Rightarrow> schedule \<Rightarrow> unit proc \<times> resource set" where
  "inv_outcome buildTag lib sched =
     (case il_Parse lib ''INVENTORY'' (inv_config_defaults buildTag) of
        Inl (help, err) \<Rightarrow> (if errors_Is err ErrHelpWanted then Exit 0 else Crash (error_text err), {})
      | Inr cfg \<Rightarrow>
          if il_sqlx_Open lib ''pgx'' (dsn (ic_DB cfg)) \<noteq> None then (Exit 1, {})
          else
            (case redis_options_for ''rediss'' (ic_Redis cfg) of
               Panics p \<Rightarrow> (Crash p, {})
             | Returns opts \<Rightarrow>
                 if il_Ping lib opts \<noteq> None then (Exit 1, {RedisClient})
                 else
                   (case nats_failure (il_NATS lib) (nats_urls (ic_NATS cfg)) (inv_nats_options (ic_NATS cfg)) of
                      Some leak \<Rightarrow> (Exit 1, leak)
                    | None \<Rightarrow>
                        if wait_select sched (cancelled_early sched lib) = None
                        then (Waits, {DBPool, RedisClient, NATSConn})
                        else (Exit 0, {}))))"

lemma main_exit_result:
  "result (main_exit rt (main_logger rt svc) ctx m) w =
    (case result m w of Done None \<Rightarrow> Exit 0 | Done (Some err) \<Rightarrow> Exit 1 | Exit n \<Rightarrow> Exit n
     | Crash p \<Rightarrow> Crash p | Waits \<Rightarrow> Waits)"
  "held (exec (main_exit rt (main_logger rt svc) ctx m) w) = held (exec m w)"
  by (simp_all add: main_exit_def split_beta split: proc.splits option.splits)

lemma sqldb_Open_run:
  "result (sqldb_Open open cfg) w = (case open ''pgx'' (url_String (open_url cfg)) of
    Some err \<Rightarrow> Inl err | None \<Rightarrow> Inr (db_MaxIdleConns cfg, db_MaxOpenConns cfg))"
  "held (exec (sqldb_Open open cfg) w) =
    (if open ''pgx'' (url_String (open_url cfg)) = None then insert DBPool (held w) else held w)"
  by (simp_all add: sqldb_Open_def split: option.splits)

lemma connect_redis_run:
  "result (connect_redis ping opts) w = (case opts of Panics p \<Rightarrow> Panics p
    | Returns opt \<Rightarrow> Returns (case ping opt of Some err \<Rightarrow> Inl err | None \<Rightarrow> Inr opt))"
  "held (exec (connect_redis ping opts) w) =
    (case opts of Panics p \<Rightarrow> held w | Returns opt \<Rightarrow> insert RedisClient (held w))"
  by (simp_all add: connect_redis_def split: call.splits option.splits)

lemma nats_open_run:
  "result (nats_open nats url opts f g) w = (case na_Connect nats url opts of Some err \<Rightarrow> Inl (f err)
    | None \<Rightarrow> (case na_JetStream nats of Some err \<Rightarrow> Inl (g err) | None \<Rightarrow> Inr ()))"
  "held (exec (nats_open nats url opts f g) w) =
    (case nats_failure nats url opts of Some leak \<Rightarrow> leak \<union> held w | None \<Rightarrow> insert NATSConn (held w))"
  by (simp_all add: nats_open_def nats_failure_def split: option.splits)

lemmas opening_runs = sqldb_Open_run connect_redis_run main_newNATS_def inv_newRedis_def shp_newRedis_def
  shp_NewNATS_def inv_nats_options_def

subsection \<open>Properties\<close>

text \<open>
  C23: the inventory process ends as the abstract account says: it exits with status 1
  exactly when the database, Redis or NATS could not be opened, and with status 0 after it
  has served, although \<open>Start\<close>, \<open>Stop\<close> or the drain failed. Everything it opened is
  closed, but for the Redis client when the ping failed and the NATS connection when
  JetStream could not be obtained.
\<close>

theorem inv_main_outcome:
  assumes "held w = {}"
  shows "(result (inv_main buildTag rt ctx lib sched) w, held (exec (inv_main buildTag rt ctx lib sched) w)) =
    inv_outcome buildTag lib sched"
proof (cases "il_Parse lib ''INVENTORY'' (inv_config_defaults buildTag)")
  case (Inl r)
  then show ?thesis
    using assms by (simp add: inv_main_def inv_run_def main_exit_result loadConfig_def inv_outcome_def split_beta)
next
  case (Inr cfg)
  note run = assms Inr inv_main_def inv_run_def main_exit_result loadConfig_def inv_outcome_def split_beta
    opening_runs deferring_exec dsn_def
  show ?thesis
  proof (cases "il_sqlx_Open lib ''pgx'' (dsn (ic_DB cfg))")
    case (Some err)
    then show ?thesis by (simp add: run)
  next
    case db: None
    show ?thesis
    proof (cases "redis_options_for ''rediss'' (ic_Redis cfg)")
      case (Panics p)
      with db show ?thesis by (simp add: run)
    next
      case opts: (Returns opts)
      show ?thesis
      proof (cases "il_Ping lib opts")
        case (Some err)
        with db opts show ?thesis by (simp add: run insert_Diff_if)
      next
        case None
        with db opts show ?thesis
          by (simp add: run nats_open_run nats_failure_def inv_serve_outcome insert_Diff_if insert_commute
            split: option.splits)
      qed
    qed
  qed
qed

text \<open>
  With defaults everywhere and a JetStream that cannot be had, the process exits with
  status 1 and leaves the connection to NATS open.
\<close>

definition demo_libs :: "nat inv_libs" where
  "demo_libs = \<lparr>il_Parse = (\<lambda>_ cfg. Inr cfg), il_sqlx_Open = (\<lambda>_ _. None), il_Ping = (\<lambda>_. None),
     il_NATS = \<lparr>na_Connect = (\<lambda>_ _. None), na_JetStream = Some (ErrNew ''no responders'')\<rparr>,
     il_Subscribe = (\<lambda>_ _ _. Inr 0), il_Stop = (\<lambda>_. None), il_Drain = None, il_GOMAXPROCS = ''8''\<rparr>"

definition demo_ctx :: otel_ctx where
  "demo_ctx = \<lparr>oc_tracer = None, oc_traceID = None,
     oc_span = \<lparr>sp_TraceID = defaultTraceID, sp_Name = [], sp_Attributes = [], sp_Recording = False\<rparr>\<rparr>"

definition boot_start :: boot_world where
  "boot_start = \<lparr>lw_lines = [], lw_reads = 0, bw_acts = []\<rparr>"

lemma boot_start_held [simp]: "held boot_start = {}"
  by (simp add: held_def boot_start_def)

theorem inv_main_outcome_witness:
  "(result (inv_main ''develop'' demo_runtime demo_ctx demo_libs (StartNever ''terminated'')) boot_start,
    held (exec (inv_main ''develop'' demo_runtime demo_ctx demo_libs (StartNever ''terminated'')) boot_start)) =
   (Exit 1, {NATSConn})"
  unfolding inv_main_outcome [OF boot_start_held]
  by (simp add: inv_outcome_def demo_libs_def inv_config_defaults_def redis_defaults_def redis_options_for_def
      nats_failure_def)

subsection \<open>The shipment process\<close>

definition shp_nats_options :: "nats_settings \<Rightarrow> nats_option list" where
  "shp_nats_options cfg = [NName ''shipment-service'', NTimeout (nt_ConnTimeout cfg),
     NMaxReconnects (nt_MaxReconnects cfg), NReconnectWait (nt_ReconnectWait cfg),
     NDisconnectErrHandler, NReconnectHandler, NClosedHandler] @ nats_credentials cfg"

text \<open>What \<open>EnsureStream\<close> would answer.\<close>

definition stream_error :: "string \<Rightarrow> 'p shp_libs \<Rightarrow> goerr option" where
  "stream_error env_name lib =
     (case hl_StreamInfo lib ''EVENTS'' of
        Inl _ \<Rightarrow> hl_AddStream lib (events_stream env_name)
      | Inr config \<Rightarrow>
          if str_Storage config \<noteq> FileStorage then Some (ErrMsg ''stream EVENTS has wrong storage type'')
          else if str_MaxAge config \<noteq> three_days \<or> \<not> equalSubjects (str_Subjects config) [env_name @ ''.>'']
          then hl_UpdateStream lib (events_stream env_name)
          else None)"

definition shp_outcome :: "string \<Rightarrow> 'p \<Rightarrow> 'p shp_libs \<Rightarrow> unit proc \<times> resource set" where
  "shp_outcome buildTag p lib =
     (case hl_Parse lib ''SHIPMENT'' (shp_config_defaults buildTag p) of
        Inl (help, err) \<Rightarrow> (if errors_Is err ErrHelpWanted then Exit 0 else Exit 1, {})
      | Inr cfg \<Rightarrow>
          if isl (hl_String lib cfg) \<or> hl_sqlx_Open lib ''pgx'' (dsn (hc_DB cfg)) \<noteq> None then (Exit 1, {})
          else
            (case redis_options_for ''redis'' (hc_Redis cfg) of
               Panics m \<Rightarrow> (Crash m, {})
             | Returns opts \<Rightarrow>
                 if hl_Ping lib opts \<noteq> None then (Exit 1, {RedisClient})
                 else if hl_Exporter lib (tp_Host (hc_Tempo cfg)) \<noteq> None then (Exit 1, {})
                 else
                   let leaked = (if tp_Host (hc_Tempo cfg) = [] then {TraceExporter} else {}) in
                   (case nats_failure (hl_NATS lib) (nats_urls (hc_NATS cfg)) (shp_nats_options (hc_NATS cfg)) of
                      Some leak \<Rightarrow> (Exit 1, leak \<union> leaked)
                    | None \<Rightarrow>
                        if stream_error buildTag lib \<noteq> None then (Exit 1, leaked)
                        else if hl_Signal lib = None
                        then (Waits, {DBPool, RedisClient, TraceExporter, NATSConn})
                        else (Exit 0, leaked))))"

lemma held_build_info [simp]:
  "held (exec (BuildInfo q info rt (main_logger rt svc) ctx) w) = held w"
  by (simp add: BuildInfo_def split: option.splits)

lemma shp_EnsureStream_run [simp]:
  "result (shp_EnsureStream (shp_stream_admin lib) env_name) w = stream_error env_name lib"
  "held (exec (shp_EnsureStream (shp_stream_admin lib) env_name) w) = held w"
  by (simp_all add: shp_EnsureStream_def shp_stream_admin_def stream_error_def note_stream_def events_stream_def
      Let_def split: sum.splits option.splits)

lemma shp_urls [simp]:
  "nats_urls (shp_nats_config s) = nats_urls s" "nats_credentials (shp_nats_config s) = nats_credentials s"
  by (simp_all add: nats_urls_def nats_credentials_def shp_nats_config_def)

lemma shp_NewNATS_run:
  "result (shp_NewNATS nats (shp_nats_config s)) w =
    (case na_Connect nats (nats_urls s) (shp_nats_options s) of Some err \<Rightarrow> Inl err
    | None \<Rightarrow> (case na_JetStream nats of Some err \<Rightarrow> Inl (ErrWrap ''jetstream: '' err) | None \<Rightarrow> Inr ()))"
  "held (exec (shp_NewNATS nats (shp_nats_config s)) w) =
    (case nats_failure nats (nats_urls s) (shp_nats_options s) of
       Some leak \<Rightarrow> leak \<union> held w | None \<Rightarrow> insert NATSConn (held w))"
proof -
  have opts: "[NName (nt_ClientName (shp_nats_config s)), NTimeout (nt_ConnTimeout (shp_nats_config s)),
      NMaxReconnects (nt_MaxReconnects (shp_nats_config s)), NReconnectWait (nt_ReconnectWait (shp_nats_config s)),
      NDisconnectErrHandler, NReconnectHandler, NClosedHandler] @ nats_credentials (shp_nats_config s) =
      shp_nats_options s"
    by (simp add: shp_nats_options_def) (simp add: shp_nats_config_def)
  show "result (shp_NewNATS nats (shp_nats_config s)) w =
    (case na_Connect nats (nats_urls s) (shp_nats_options s) of Some err \<Rightarrow> Inl err
    | None \<Rightarrow> (case na_JetStream nats of Some err \<Rightarrow> Inl (ErrWrap ''jetstream: '' err) | None \<Rightarrow> Inr ()))"
    unfolding shp_NewNATS_def opts by (simp add: nats_open_run)
  show "held (exec (shp_NewNATS nats (shp_nats_config s)) w) =
    (case nats_failure nats (nats_urls s) (shp_nats_options s) of
       Some leak \<Rightarrow> leak \<union> held w | None \<Rightarrow> insert NATSConn (held w))"
    unfolding shp_NewNATS_def opts by (simp add: nats_open_run)
qed

lemma shp_serve_result:
  "result (shp_serve buildTag lib cfg) w =
    (case na_Connect (hl_NATS lib) (nats_urls (hc_NATS cfg)) (shp_nats_options (hc_NATS cfg)) of
       Some err \<Rightarrow> Done (Some (ErrWrap ''nats connect :'' err))
     | None \<Rightarrow>
         (case na_JetStream (hl_NATS lib) of
            Some err \<Rightarrow> Done (Some (ErrWrap ''nats connect :'' (ErrWrap ''jetstream: '' err)))
          | None \<Rightarrow>
              (case stream_error buildTag lib of
                 Some err \<Rightarrow> Done (Some (ErrWrap ''Could not ensure JetStream: '' err))
               | None \<Rightarrow> if hl_Signal lib = None then Waits else Done None)))"
  by (simp add: shp_serve_def shp_NewNATS_run split_beta split: option.splits)

lemma shp_serve_held:
  "held (exec (shp_serve buildTag lib cfg) w) =
    (case nats_failure (hl_NATS lib) (nats_urls (hc_NATS cfg)) (shp_nats_options (hc_NATS cfg)) of
       Some leak \<Rightarrow> leak \<union> held w
     | None \<Rightarrow> if stream_error buildTag lib = None \<and> hl_Signal lib = None then insert NATSConn (held w)
         else held w - {NATSConn})"
  by (simp add: shp_serve_def shp_NewNATS_run nats_failure_def deferring_exec split_beta split: option.splits)

lemma InitTracing_run:
  "result (InitTracing exporter cfg) w =
    (case exporter (tc_Host cfg) of Some err \<Rightarrow> Inl (ErrWrap ''creating new exporter: '' err)
     | None \<Rightarrow> Inr (if tc_Host cfg = [] then (NoopProvider, State_Monad.return ())
         else (SDKProvider (newEndpointExcluder (tc_ExcludedRoutes cfg) (tc_Probability cfg)) (tc_ServiceName cfg),
           act (Closed TraceExporter))))"
  "held (exec (InitTracing exporter cfg) w) =
    (if exporter (tc_Host cfg) = None then insert TraceExporter (held w) else held w)"
  by (simp_all add: InitTracing_def split: option.splits)

text \<open>
  C24: the shipment process ends as its abstract account says. It closes everything it
  opened, but for the Redis client when the ping failed, the NATS connection when JetStream
  could not be obtained, and the trace exporter, which is never shut down when no tracing
  host is configured.
\<close>

theorem shp_main_outcome:
  assumes "held w = {}"
  shows "(result (shp_main buildTag p rt ctx lib) w, held (exec (shp_main buildTag p rt ctx lib) w)) =
    shp_outcome buildTag p lib"
proof (cases "hl_Parse lib ''SHIPMENT'' (shp_config_defaults buildTag p)")
  case (Inl r)
  then show ?thesis
    using assms by (simp add: shp_main_def shp_run_def main_exit_result shp_outcome_def split_beta)
next
  case (Inr cfg)
  note run = assms Inr shp_main_def shp_run_def shp_open_all_def main_exit_result shp_outcome_def split_beta
    opening_runs deferring_exec dsn_def InitTracing_run
  show ?thesis
  proof (cases "isl (hl_String lib cfg) \<or> hl_sqlx_Open lib ''pgx'' (dsn (hc_DB cfg)) \<noteq> None")
    case True
    then show ?thesis by (auto simp: run split: sum.splits)
  next
    case False
    then obtain out where db: "hl_String lib cfg = Inr out" "hl_sqlx_Open lib ''pgx'' (dsn (hc_DB cfg)) = None"
      by (cases "hl_String lib cfg") simp_all
    show ?thesis
    proof (cases "redis_options_for ''redis'' (hc_Redis cfg)")
      case (Panics m)
      with db show ?thesis by (simp add: run)
    next
      case opts: (Returns opts)
      show ?thesis
      proof (cases "hl_Ping lib opts = None \<and> hl_Exporter lib (tp_Host (hc_Tempo cfg)) = None")
        case False
        with db opts show ?thesis
          by (cases "hl_Ping lib opts"; cases "hl_Exporter lib (tp_Host (hc_Tempo cfg))")
            (simp_all add: run insert_Diff_if)
      next
        case True
        let ?connect = "na_Connect (hl_NATS lib) (nats_urls (hc_NATS cfg)) (shp_nats_options (hc_NATS cfg))"
        from True db opts show ?thesis
          by (cases ?connect; cases "na_JetStream (hl_NATS lib)"; cases "stream_error buildTag lib";
              cases "hl_Signal lib"; cases "tp_Host (hc_Tempo cfg)")
            (simp_all add: run shp_serve_result shp_serve_held nats_failure_def insert_Diff_if insert_commute)
      qed
    qed
  qed
qed

text \<open>
  An existing stream that is kept in memory is refused: the process exits with status 1 and
  closes everything.
\<close>

definition demo_shp_libs :: "nat shp_libs" where
  "demo_shp_libs = \<lparr>hl_Parse = (\<lambda>_ cfg. Inr cfg), hl_String = (\<lambda>_. Inr []), hl_Quote = (\<lambda>s. s), hl_BuildInfo = None,
     hl_sqlx_Open = (\<lambda>_ _. None), hl_Ping = (\<lambda>_. None), hl_Exporter = (\<lambda>_. None),
     hl_NATS = \<lparr>na_Connect = (\<lambda>_ _. None), na_JetStream = None\<rparr>,
     hl_StreamInfo = (\<lambda>_. Inr ((events_stream ''develop'')\<lparr>str_Storage := MemoryStorage\<rparr>)),
     hl_UpdateStream = (\<lambda>_. None), hl_AddStream = (\<lambda>_. None), hl_Signal = Some ''interrupt'', hl_GOMAXPROCS = ''8''\<rparr>"

theorem shp_main_outcome_witness:
  "(result (shp_main ''develop'' 5 demo_runtime demo_ctx demo_shp_libs) boot_start,
    held (exec (shp_main ''develop'' 5 demo_runtime demo_ctx demo_shp_libs) boot_start)) = (Exit 1, {})"
  unfolding shp_main_outcome [OF boot_start_held]
  by (simp add: shp_outcome_def demo_shp_libs_def shp_config_defaults_def redis_defaults_def redis_options_for_def
      nats_failure_def stream_error_def)

end
