(* ===== verification/Spec2Isabelle.thy ===== *)
theory Spec2Isabelle
  imports Inv_Handlers Inv_Orders Inv_Lost Shp_Claims DBArray_Buffers Shp_Races Migrations Outcomes
begin

text \<open>
  A verification development for the two Go services of the repository and the packages
  they share.

  \<^bold>\<open>The program.\<close> The inventory service (\<open>src/services/inventory\<close>) consumes order and
  shipment events from NATS JetStream, adjusts stock rows in PostgreSQL through a store that
  is wrapped in a Redis cache, and publishes inventory events. The shipment service
  (\<open>src/services/shipment\<close>) keeps shipment aggregates in PostgreSQL behind a Redis cache
  and has its own messaging package. Both use \<open>src/pkg/sdks/sqldb\<close> and its
  \<open>dbarray\<close>, the logger of \<open>src/pkg/logger\<close> and the tracing of \<open>src/pkg/otel\<close>, and
  both have an executable under \<open>cmd\<close> that opens what the service needs.

  \<^bold>\<open>How it is modelled.\<close> A function that talks to the outside is a value of
  \<open>('w, 'a) state\<close>: it maps a world to its result and the next world. \<open>World\<close>
  holds that world and the environment \<open>env\<close>: clock, UUIDs, publish results and database
  faults are oracles over the number of calls made so far, so a theorem about every
  \<open>env\<close> covers every pattern of failures. Redis is a record of commands over an abstract
  server state; what the code relies on is the locale \<open>redis_laws\<close>, with an in-memory
  server as its interpretation. A result \<open>(T, error)\<close> is a sum, \<open>error\<close> an option,
  a panic a value of \<open>call\<close>. \<open>int64\<close> quantities are 64-bit words compared by
  \<open>sint\<close>, so overflow is part of every statement. Rows read back from the database have
  the time stamp precision of the column (\<open>e_pgtime\<close>). The executables run in a world of
  their own, \<open>boot_world\<close>, which records the log lines and what was opened and closed; the
  place of the goroutine among the steps of \<open>run\<close> is the argument \<open>schedule\<close>.

  \<^bold>\<open>The theories.\<close>
  \<^item> \<open>Prelude\<close>, \<open>Strconv\<close>, \<open>World\<close>: words, errors, runs, \<open>keeps\<close>
    (preservation of an invariant by an operation); the decimal and octal conversions of
    \<open>strconv\<close>; the outside world.
  \<^item> \<open>SqlDB\<close>: \<open>sqldb.go\<close>, \<open>tran.go\<close>: error classification, row scanning, query
    printing, \<open>StatusCheck\<close> with its backoff.
  \<^item> \<open>Events\<close>: the protobuf messages and \<open>subjects.go\<close>.
  \<^item> \<open>Inv_Domain\<close> (\<open>domain\<close>), \<open>Inv_DB\<close> (\<open>stores/invdb\<close> with the table of
    \<open>migrate.sql\<close>), \<open>Inv_Cache\<close> (\<open>stores/invcache\<close>), \<open>Inv_Messaging\<close>
    (\<open>messaging\<close>), \<open>Inv_Service\<close> (\<open>service/handlers.go\<close>, over any store),
    \<open>Inv_Handlers\<close> (the handlers over the cached store, as \<open>main.go\<close> wires them), \<open>Inv_Consumers\<close>
    (\<open>service/service.go\<close>: \<open>Start\<close>, \<open>Stop\<close> and the running service as a step
    relation), \<open>Inv_Typing\<close> (what the running service puts on the wire).
  \<^item> \<open>Programs\<close>: goroutines as programs of one step per outside call, pools of them,
    and the rules for their invariants, bounds and ends that both services use.
  \<^item> the inventory service under concurrency: \<open>Inv_Tasks\<close> (every callback as a program
    of one step per outside call, and that it is the sequential callback when it is not
    interrupted), \<open>Inv_Concurrent\<close> (the pool of running callbacks, its invariants),
    \<open>Inv_Progress\<close> (settlement and termination in the pool), \<open>Inv_Frozen\<close> (the cache
    under concurrency and transactions), \<open>Inv_Races\<close> and \<open>Inv_Lost\<close> (schedules that go wrong),
    \<open>Inv_Orders\<close> (the abstract machine that sequences of orders implement).
  \<^item> \<open>DBArray\<close> (\<open>parseArray\<close>), \<open>DBArray_Encode\<close> (\<open>encode.go\<close>),
    \<open>DBArray_Types\<close> (the array types and \<open>Generic\<close>), \<open>DBArray_Buffers\<close> (\<open>Array\<close>
    and the texts that are written in place).
  \<^item> \<open>Shp_Domain\<close>, \<open>Shp_DB\<close>, \<open>Shp_Cache\<close>, \<open>Shp_Messaging\<close>: the same layers of
    the shipment service, with its middleware chain and metrics; \<open>Shp_Claims\<close>: its
    callback as an interruptible program, and overlapping deliveries that claim.
  \<^item> the shipment store under concurrency: \<open>Shp_Tasks\<close> (the operations of the database
    store, the cached store and \<open>Business\<close> as programs of one step per statement or Redis
    command, and that they are the sequential operations when nothing interrupts them),
    \<open>Shp_Concurrent\<close> (the consistency of the four tables and the isolation of
    shipments in every interleaving), \<open>Shp_Races\<close> (overlapping updates, overtaken reads).
  \<^item> \<open>Logger\<close> (\<open>pkg/logger\<close>), \<open>Tracing\<close> (\<open>pkg/otel\<close>), \<open>Net_URL\<close>
    (\<open>BuildRedisURL\<close> and the data source name of \<open>sqldb.Open\<close>, with the escaping of
    \<open>net/url\<close>), \<open>Migrations\<close> (\<open>migrate.go\<close> of both services).
  \<^item> \<open>Startup\<close> (\<open>sqldb.Open\<close>, \<open>newRedis\<close>, \<open>NewNATS\<close> and their handlers),
    \<open>Executables\<close> (\<open>run\<close> and \<open>main\<close> of both \<open>cmd\<close> packages), \<open>Outcomes\<close> (the
    abstract account of how they end, and that they implement it).
  \<^item> this theory: what only shows across components.

  \<^bold>\<open>Concurrency.\<close> NATS runs each subscription's callback in a goroutine and the queue
  group \<open>inventory\<close> spreads the messages over the replicas of the service, so callbacks
  overlap, also for one message that is redelivered. A callback touches only its own
  variables between two calls to the clock, \<open>uuid\<close>, Redis, PostgreSQL and JetStream; the
  atomic step of the pool is therefore one such call. A step of \<open>pool_step\<close> delivers a
  message, runs one call of one callback, kills a callback with its process, or changes
  Redis from outside. Each statement of the stores is a transaction of its own in the code,
  so isolation between statements of different callbacks is exactly that of the steps.
  Every callback makes at most 22 calls: one for \<open>Seen\<close>, one for \<open>Mark\<close> and one to
  settle, up to three to read behind the cache, three to update, six to publish the
  reservation with its identifiers, five to publish the update and two for a dead letter.

  The shipment operations run in a pool of the same kind (\<open>shp_reachable\<close>): a step starts
  one of them, runs one statement or command of one of them, kills one, or changes Redis
  from outside. The store issues its statements outside a transaction, so another
  operation can come between any two of them; the transactional store of \<open>NewWithTx\<close> is not
  part of this pool. An operation over an empty slice asks sqlx only, which is one step
  without an effect.

  \<^bold>\<open>Interfaces.\<close> \<open>inv_writer\<close> and \<open>inv_storer\<close> are the contract between the
  domain and its stores; \<open>Inv_DB\<close> interprets them for the database store and
  \<open>inv_cached\<close> carries the writer's half over to the cached one, whose reads break the
  other half. \<open>inv_service\<close> and \<open>inv_stock\<close> prove the handlers over any writer,
  \<open>idem_store\<close> and \<open>claim_laws\<close> are the idempotency contracts that
  \<open>redis_idem\<close> and \<open>redis_claims\<close> discharge, \<open>cache_redis\<close> the cache over a server that
  answers, \<open>shp_store\<close> and \<open>shp_cached\<close> the contract of shipment storage,
  \<open>array_codec\<close> the scan/value pair of an array type, interpreted five times,
  \<open>tx_laws\<close> the transactions that \<open>Seed\<close> relies on, and \<open>task_invariant\<close> what the
  outside calls have to keep for a predicate to hold in every interleaving of the
  callbacks: it is interpreted for the bounds on stock, the typing of messages and the
  isolation of rows, and \<open>frozen_row\<close> is an instance of it. \<open>tables_invariant\<close> is its
  counterpart for the shipment tables: what each SQL statement has to keep, interpreted for
  the consistency of the tables and for the rows of one shipment.

  \<^bold>\<open>What is shown.\<close> Safety and refinement of the handlers (stock never goes negative or
  oversold in any interleaving of the callbacks; each handler of the wired service that
  reports success did exactly one integer-level stock operation on its row when the cache
  did not answer its read, and none on a row of the table when it did; the outcome of an
  order in every case when nothing fails; sequences of orders implement an abstract
  machine); every message is settled once and the pool comes to rest; the end of
  redelivery; idempotency and where it fails, and that a claim admits one delivery of an
  event; a typing invariant of every published message; the database stores on
  every branch; round trips of the cache entry, the array texts, \<open>bytea\<close> and the Redis
  connection string; totality of the array scanner and the equivalence of the in-place text
  builders with their reference; atomicity of \<open>Seed\<close>; exit status and leaked resources of
  both processes; and the defects that the model
  makes visible (lost updates, reads that the cache answers with the zero row, cached rows
  that no message changes any more, double reservation by overlapping deliveries, by
  crashes and while the broker is down, stale rows put back into the cache, shipment writes that cannot succeed, reads
  that mix two versions of a shipment, updates that merge their items, and others). The
  tables of the shipment store stay consistent in every interleaving of its operations.

  \<^bold>\<open>Bounds.\<close> There is no fuel. \<open>parse_loop\<close> is a \<open>partial_function\<close> whose
  \<open>None\<close> is an endless loop, excluded by proof for nonempty delimiters;
  \<open>redeliver\<close> and \<open>ping_loop\<close> terminate by the measures given with them.

  \<^bold>\<open>What is not modelled.\<close> The log lines and spans inside the modelled operations of the
  services (they do not influence a result; \<open>Logger\<close> and \<open>Tracing\<close> model the calls
  themselves), the JSON text of a log line, \<open>conf.Parse\<close> (a parameter) beyond the default
  values, the protobuf wire format (a decoder is a parameter), the generated code other than
  the messages in use, the deadlines of a handler's context other than as failing calls,
  expiry of Redis keys other than as a spontaneous change of the server (\<open>R\<close> of the pool
  says which), and panics inside the inventory handlers, which have no source of one.
  The shipment process has no handlers yet and subscribes to nothing, so its callbacks are
  modelled over any handler. The race in \<open>Stop\<close> is in \<open>Inv_Consumers\<close>, the goroutine of the inventory
  process in \<open>Executables\<close>, where one run of \<open>Start\<close> is one step.
\<close>

section \<open>Behaviour across components\<close>

subsection \<open>Idempotency keys\<close>




subsection \<open>The stream and the subjects\<close>

text \<open>The subjects the service consumes and publishes, with their dead letter subjects.\<close>

definition service_subjects :: "string list" where
  "service_subjects = map consumer_subject start_order @
     [Subject_InventoryUpdated, Subject_InventoryReserved, Subject_InventoryReservationFailed] @
     map (\<lambda>c. ''dlq.'' @ consumer_subject c) start_order"

text \<open>
  The documented meaning of the NATS wildcard \<open>>\<close> behind a literal token: it matches the
  subjects with at least one more token.
\<close>

definition literal_token :: "string \<Rightarrow> bool" where
  "literal_token t \<longleftrightarrow> t \<noteq> [] \<and> set t \<inter> {CHR ''.'', CHR ''*'', CHR ''>'', CHR '' ''} = {}"

definition tail_wildcard :: "(string \<Rightarrow> string \<Rightarrow> bool) \<Rightarrow> bool" where
  "tail_wildcard matches \<longleftrightarrow> (\<forall>t s. literal_token t \<longrightarrow>
     (matches (t @ ''.>'') s \<longleftrightarrow> (\<exists>rest. rest \<noteq> [] \<and> s = t @ ''.'' @ rest)))"

definition first_token :: "string \<Rightarrow> string" where
  "first_token s = takeWhile (\<lambda>c. c \<noteq> CHR ''.'') s"

lemma first_token_append:
  assumes "literal_token t"
  shows "first_token (t @ ''.'' @ rest) = t"
proof -
  have "\<forall>c \<in> set t. c \<noteq> CHR ''.''"
    using assms by (auto simp: literal_token_def)
  then show ?thesis
    by (simp add: first_token_def takeWhile_append2)
qed

lemma service_first_tokens:
  "first_token ` set service_subjects = {''order'', ''shipment'', ''inventory'', ''dlq''}"
  by (simp add: service_subjects_def start_order_def consumer_subject_def first_token_def
      Subject_OrderPlaced_def Subject_OrderCanceled_def Subject_OrderShipped_def Subject_ShipmentCreated_def
      Subject_ShipmentCancelled_def Subject_ShipmentDelivered_def Subject_InventoryUpdated_def
      Subject_InventoryReserved_def Subject_InventoryReservationFailed_def insert_commute)

text \<open>
  the stream that \<open>EnsureStream\<close> creates holds the subjects under the environment's
  name, and the service uses its subjects without that prefix: for every environment name
  other than \<open>order\<close>, \<open>shipment\<close>, \<open>inventory\<close> and \<open>dlq\<close>, not one subject
  that the service consumes, publishes or sends dead letters to is in the stream.
\<close>

theorem stream_misses_subjects:
  assumes "tail_wildcard matches" and "literal_token e"
    and "e \<notin> {''order'', ''shipment'', ''inventory'', ''dlq''}"
  shows "\<forall>s \<in> set service_subjects. \<forall>pat \<in> set (str_Subjects (events_stream e)). \<not> matches pat s"
proof (intro ballI notI)
  fix s pat
  assume s: "s \<in> set service_subjects" and "pat \<in> set (str_Subjects (events_stream e))" and "matches pat s"
  then have "matches (e @ ''.>'') s"
    by (simp add: events_stream_def)
  with assms(1,2) obtain rest where "s = e @ ''.'' @ rest"
    unfolding tail_wildcard_def by blast
  then have "first_token s = e"
    using first_token_append [OF assms(2)] by simp
  with s service_first_tokens assms(3) show False
    by blast
qed

definition prefix_match :: "string \<Rightarrow> string \<Rightarrow> bool" where
  "prefix_match pat s \<longleftrightarrow> take (length pat - 1) s = butlast pat \<and> length pat \<le> length s"

lemma prefix_match_tail: "tail_wildcard prefix_match"
proof -
  have "prefix_match (t @ ''.>'') s \<longleftrightarrow> (\<exists>rest. rest \<noteq> [] \<and> s = t @ ''.'' @ rest)" for t s
  proof
    assume "prefix_match (t @ ''.>'') s"
    then have "take (Suc (length t)) s = t @ ''.''" "Suc (length t) < length s"
      by (simp_all add: prefix_match_def butlast_append)
    then have "s = t @ ''.'' @ drop (Suc (length t)) s" "drop (Suc (length t)) s \<noteq> []"
      by (metis append.assoc append_take_drop_id, simp)
    then show "\<exists>rest. rest \<noteq> [] \<and> s = t @ ''.'' @ rest"
      by blast
  next
    assume "\<exists>rest. rest \<noteq> [] \<and> s = t @ ''.'' @ rest"
    then obtain rest where "rest \<noteq> []" "s = t @ ''.'' @ rest"
      by blast
    then show "prefix_match (t @ ''.>'') s"
      by (cases rest) (simp_all add: prefix_match_def butlast_append)
  qed
  then show ?thesis
    by (simp add: tail_wildcard_def)
qed

theorem stream_misses_subjects_witness:
  "\<not> prefix_match ''develop.>'' ''order.placed''"
  using stream_misses_subjects [OF prefix_match_tail, of "''develop''"]
  by (simp add: literal_token_def events_stream_def service_subjects_def start_order_def consumer_subject_def
      Subject_OrderPlaced_def)

end
